(* ===== verification/Edge_Prelude.thy ===== *)
theory Edge_Prelude
  imports Complex_Main "HOL-Library.Word" "HOL-Library.Code_Target_Numeral"
begin

unbundle bit_operations_syntax

text \<open>
  Shared vocabulary of the development: the machine word widths the sources use, the
  statement-level loop combinator \<open>for_in\<close> that models every C \<open>for\<close> loop over an array
  (including its early \<open>return\<close>), and the generic rules for it.  A loop body returns
  \<open>(Some r, s)\<close> for an early \<open>return r\<close> and \<open>(None, s)\<close> to fall through to the next
  iteration; the loop itself returns in the same format.
\<close>

named_theorems bounds_rules
  \<open>length and range facts of model values\<close>

named_theorems frame_simps
  \<open>what an operation leaves unchanged\<close>

named_theorems step_defs
  \<open>definitions to unfold when an operation is executed symbolically\<close>

type_synonym u8 = "8 word"
type_synonym u16 = "16 word"
type_synonym u32 = "32 word"
type_synonym u64 = "64 word"

section \<open>The array loop\<close>

fun for_in :: "'a list \<Rightarrow> ('a \<Rightarrow> 's \<Rightarrow> 'e option \<times> 's) \<Rightarrow> 's \<Rightarrow> 'e option \<times> 's" where
  "for_in [] body s = (None, s)"
| "for_in (x # xs) body s =
     (case body x s of
        (Some e, s') \<Rightarrow> (Some e, s')
      | (None, s') \<Rightarrow> for_in xs body s')"

abbreviation for_upto :: "nat \<Rightarrow> (nat \<Rightarrow> 's \<Rightarrow> 'e option \<times> 's) \<Rightarrow> 's \<Rightarrow> 'e option \<times> 's" where
  "for_upto n \<equiv> for_in [0..<n]"

lemma for_in_append:
  "for_in (xs @ ys) body s =
     (case for_in xs body s of (Some e, s') \<Rightarrow> (Some e, s') | (None, s') \<Rightarrow> for_in ys body s')"
  by (induction xs arbitrary: s) (auto split: prod.splits option.splits)

lemma for_upto_Suc:
  "for_upto (Suc n) body s =
     (case for_upto n body s of (Some e, s') \<Rightarrow> (Some e, s') | (None, s') \<Rightarrow> body n s')"
  by (simp add: for_in_append split: prod.splits option.splits)

text \<open>A loop that reaches its end carries its invariant to the bound.\<close>

lemma for_upto_None:
  assumes "for_upto n body s = (None, s')"
    and "I 0 s"
    and "\<And>i t t'. i < n \<Longrightarrow> I i t \<Longrightarrow> body i t = (None, t') \<Longrightarrow> I (Suc i) t'"
  shows "I n s'"
  using assms
proof (induction n arbitrary: s')
  case 0
  then show ?case by simp
next
  case (Suc n)
  from Suc.prems(1) obtain t where t: "for_upto n body s = (None, t)" "body n t = (None, s')"
    unfolding for_upto_Suc by (auto split: prod.splits option.splits)
  have "I n t"
    using t(1) Suc.prems(2,3) by (intro Suc.IH) auto
  with t(2) Suc.prems(3) show ?case by blast
qed

text \<open>A loop that returns early does so from an iteration whose entry state satisfies the invariant.\<close>

lemma for_upto_Some:
  assumes "for_upto n body s = (Some e, s')"
    and "I 0 s"
    and "\<And>i t t'. i < n \<Longrightarrow> I i t \<Longrightarrow> body i t = (None, t') \<Longrightarrow> I (Suc i) t'"
  shows "\<exists>i t. i < n \<and> I i t \<and> body i t = (Some e, s')"
  using assms
proof (induction n arbitrary: s')
  case 0
  then show ?case by simp
next
  case (Suc n)
  consider (early) "for_upto n body s = (Some e, s')"
    | (last) t where "for_upto n body s = (None, t)" "body n t = (Some e, s')"
    using Suc.prems(1) unfolding for_upto_Suc by (auto split: prod.splits option.splits)
  then show ?case
  proof cases
    case early
    then obtain i t where "i < n" "I i t" "body i t = (Some e, s')"
      using Suc.IH Suc.prems(2,3) by (metis less_Suc_eq)
    then show ?thesis by (meson less_Suc_eq)
  next
    case (last t)
    have "I n t"
      by (rule for_upto_None [where I = I, OF last(1)]) (use Suc.prems(2,3) in auto)
    with last(2) show ?thesis by blast
  qed
qed

text \<open>An invariant that every iteration keeps, whatever it returns, holds at the end.\<close>

lemma for_in_invariant:
  assumes "I s"
    and "\<And>x t r t'. x \<in> set xs \<Longrightarrow> I t \<Longrightarrow> body x t = (r, t') \<Longrightarrow> I t'"
  shows "I (snd (for_in xs body s))"
  using assms
proof (induction xs arbitrary: s)
  case Nil
  then show ?case by simp
next
  case (Cons x xs)
  obtain r t where xt: "body x s = (r, t)" by fastforce
  with Cons.prems have "I t" by (metis list.set_intros(1))
  then have "I (snd (for_in xs body t))"
    by (rule Cons.IH) (metis Cons.prems(2) list.set_intros(2))
  with xt \<open>I t\<close> show ?case by (cases r) simp_all
qed

text \<open>A loop whose body falls through from every state that satisfies the invariant reaches its end.\<close>

lemma for_upto_total:
  assumes "I 0 s"
    and "\<And>i t. i < n \<Longrightarrow> I i t \<Longrightarrow> \<exists>t'. body i t = (None, t') \<and> I (Suc i) t'"
  shows "\<exists>s'. for_upto n body s = (None, s') \<and> I n s'"
  using assms
proof (induction n)
  case 0
  then show ?case by simp
next
  case (Suc n)
  then obtain t where t: "for_upto n body s = (None, t)" "I n t" by (metis less_Suc_eq)
  with Suc.prems(2) [of n t] obtain t' where "body n t = (None, t')" "I (Suc n) t'" by auto
  with t(1) show ?case by (auto simp: for_upto_Suc simp del: upt_Suc)
qed

text \<open>Sequential composition of statements that may return.\<close>

definition and_then :: "'e option \<times> 's \<Rightarrow> ('s \<Rightarrow> 'e option \<times> 's) \<Rightarrow> 'e option \<times> 's" where
  "and_then r k = (case r of (Some e, s) \<Rightarrow> (Some e, s) | (None, s) \<Rightarrow> k s)"

lemma and_then_stop: "fst r = Some e \<Longrightarrow> fst (and_then r k) = Some e"
  by (cases r) (simp add: and_then_def)

lemma and_then_go [simp]: "and_then (None, s) k = k s"
  by (simp add: and_then_def)

lemma and_then_invariant:
  "I (snd r) \<Longrightarrow> (\<And>s. I s \<Longrightarrow> I (snd (k s))) \<Longrightarrow> I (snd (and_then r k))"
  by (cases r) (simp add: and_then_def split: option.split)

section \<open>Searching an array\<close>

text \<open>The index of the first element with a property, from a given start.\<close>

fun first_index :: "('a \<Rightarrow> bool) \<Rightarrow> nat \<Rightarrow> 'a list \<Rightarrow> nat option" where
  "first_index p i [] = None"
| "first_index p i (x # xs) = (if p x then Some i else first_index p (Suc i) xs)"

lemma first_index_None: "first_index p i xs = None \<longleftrightarrow> (\<forall>x \<in> set xs. \<not> p x)"
  by (induction xs arbitrary: i) auto

lemma first_index_Some:
  "first_index p i xs = Some k \<longleftrightarrow>
     i \<le> k \<and> k - i < length xs \<and> p (xs ! (k - i)) \<and> (\<forall>j < k - i. \<not> p (xs ! j))"
proof (induction xs arbitrary: i)
  case Nil
  then show ?case by simp
next
  case (Cons x xs)
  show ?case
  proof (cases "p x")
    case True
    then show ?thesis
      by (auto simp: nth_Cons split: nat.splits)
  next
    case False
    have "first_index p i (x # xs) = Some k \<longleftrightarrow> first_index p (Suc i) xs = Some k"
      using False by simp
    also have "\<dots> \<longleftrightarrow> Suc i \<le> k \<and> k - Suc i < length xs \<and> p (xs ! (k - Suc i)) \<and>
        (\<forall>j < k - Suc i. \<not> p (xs ! j))"
      by (rule Cons.IH)
    also have "\<dots> \<longleftrightarrow> i \<le> k \<and> k - i < length (x # xs) \<and> p ((x # xs) ! (k - i)) \<and>
        (\<forall>j < k - i. \<not> p ((x # xs) ! j))"
    proof (cases "k \<le> i")
      case True
      with False show ?thesis by auto
    next
      case False
      then obtain d where d: "k = Suc (i + d)"
        by (metis add_Suc_right less_iff_Suc_add not_le)
      with \<open>\<not> p x\<close> show ?thesis
        by (auto simp: nth_Cons Suc_diff_le less_Suc_eq_0_disj split: nat.splits)
    qed
    finally show ?thesis .
  qed
qed

lemma first_index_0_Some:
  "first_index p 0 xs = Some k \<longleftrightarrow> k < length xs \<and> p (xs ! k) \<and> (\<forall>j < k. \<not> p (xs ! j))"
  by (simp add: first_index_Some)

text \<open>
  A loop that rewrites element \<open>i\<close> of an array of the state in iteration \<open>i\<close> and returns \<open>e\<close>
  at the first element that fails a check.
\<close>

lemma for_upto_map:
  assumes "\<And>i. i < length xs \<Longrightarrow>
      body i (S (map f (take i xs) @ drop i xs)) =
        (if ok (xs ! i) i then None else Some e, S (map f (take (Suc i) xs) @ drop (Suc i) xs))"
    and "n \<le> length xs"
  shows "(\<forall>i < n. ok (xs ! i) i) \<Longrightarrow>
      for_upto n body (S xs) = (None, S (map f (take n xs) @ drop n xs))"
    and "\<not> (\<forall>i < n. ok (xs ! i) i) \<Longrightarrow> fst (for_upto n body (S xs)) = Some e"
  using assms(2)
proof (induction n)
  case 0
  { case 1 then show ?case by simp next case 2 then show ?case by simp }
next
  case (Suc n)
  { case 1
    then show ?case using Suc.IH(1) assms(1) [of n] by (simp add: for_upto_Suc del: upt_Suc)
  next
    case 2
    show ?case
    proof (cases "\<forall>i < n. ok (xs ! i) i")
      case True
      with 2 have "\<not> ok (xs ! n) n" using less_Suc_eq by blast
      with True 2 show ?thesis using Suc.IH(1) assms(1) [of n] by (simp add: for_upto_Suc del: upt_Suc)
    next
      case False
      then have "fst (for_upto n body (S xs)) = Some e" using Suc.IH(2) 2 by simp
      then show ?thesis
        by (cases "for_upto n body (S xs)") (simp add: for_upto_Suc del: upt_Suc)
    qed }
qed

text \<open>A prefix that has been rewritten, extended by one element.\<close>

lemma rewritten_update:
  assumes "i < length xs"
  shows "(map f (take i xs) @ drop i xs)[i := f (xs ! i)] = map f (take (Suc i) xs) @ drop (Suc i) xs"
    and "(map f (take i xs) @ drop i xs) ! i = xs ! i"
proof -
  have d: "drop i xs = xs ! i # drop (Suc i) xs" using assms by (simp add: Cons_nth_drop_Suc)
  have t: "take (Suc i) xs = take i xs @ [xs ! i]" using assms by (simp add: take_Suc_conv_app_nth)
  show "(map f (take i xs) @ drop i xs)[i := f (xs ! i)] = map f (take (Suc i) xs) @ drop (Suc i) xs"
    unfolding t using assms by (subst d) (simp add: list_update_append)
  show "(map f (take i xs) @ drop i xs) ! i = xs ! i"
    using assms by (simp add: nth_append)
qed

lemma first_index_map: "first_index p i (map f xs) = first_index (p \<circ> f) i xs"
  by (induction xs arbitrary: i) auto

lemma first_index_cong:
  "(\<And>x. x \<in> set xs \<Longrightarrow> p x = q x) \<Longrightarrow> first_index p i xs = first_index q i xs"
  by (induction xs arbitrary: i) auto

lemma first_index_append:
  "first_index p i (xs @ ys) =
     (case first_index p i xs of None \<Rightarrow> first_index p (i + length xs) ys | Some k \<Rightarrow> Some k)"
  by (induction xs arbitrary: i) (auto split: option.split)

lemma first_index_rewritten:
  assumes "\<And>x. p (f x) = p x"
  shows "first_index p 0 (map f (take i xs) @ drop i xs) = first_index p 0 xs"
proof -
  have "first_index p 0 (map f (take i xs) @ drop i xs) = first_index p 0 (take i xs @ drop i xs)"
    using assms by (simp only: first_index_append first_index_map length_map comp_def)
  then show ?thesis by simp
qed

text \<open>The nested duplicate scan of two indices \<open>i < j\<close>.\<close>

fun any_pair :: "('a \<Rightarrow> 'a \<Rightarrow> bool) \<Rightarrow> 'a list \<Rightarrow> bool" where
  "any_pair eq [] = False"
| "any_pair eq (x # xs) = (list_ex (eq x) xs \<or> any_pair eq xs)"

lemma any_pair_distinct: "any_pair (\<lambda>x y. f x = f y) xs \<longleftrightarrow> \<not> distinct (map f xs)"
  by (induction xs) (auto simp: list_ex_iff image_iff)

section \<open>Words\<close>

lemma unat_of_nat_small [simp]:
  "n < 2 ^ LENGTH('a) \<Longrightarrow> unat (of_nat n :: 'a::len word) = n"
  by (simp add: unat_of_nat take_bit_nat_eq_self)

lemma of_nat_word_inj:
  assumes "m < 2 ^ LENGTH('a)" and "n < 2 ^ LENGTH('a)"
  shows "(of_nat m :: 'a::len word) = of_nat n \<longleftrightarrow> m = n"
  using assms by (metis unat_of_nat_small)

lemma sint_bounds16: "- 32768 \<le> sint (w :: 16 word)" "sint (w :: 16 word) \<le> 32767"
  using sint_greater_eq [of w] sint_less [of w] by simp_all

lemma sint_bounds32: "- 2147483648 \<le> sint (w :: 32 word)" "sint (w :: 32 word) \<le> 2147483647"
  using sint_greater_eq [of w] sint_less [of w] by simp_all

lemma of_int_sint_id: "(of_int (sint w) :: 'a::len word) = w"
  by simp

section \<open>Invariants of step relations\<close>

text \<open>A property that every step keeps holds in every state that steps can reach.\<close>

locale invariant_system =
  fixes step :: "'s \<Rightarrow> 's \<Rightarrow> bool"
    and inv :: "'s \<Rightarrow> bool"
  assumes step_inv: "step s t \<Longrightarrow> inv s \<Longrightarrow> inv t"
begin

lemma reach_inv: "step\<^sup>*\<^sup>* s t \<Longrightarrow> inv s \<Longrightarrow> inv t"
  by (induction rule: rtranclp_induct) (auto intro: step_inv)

end

end
