(* ===== verification/C_Float64.thy ===== *)
theory C_Float64
  imports Edge_Prelude "HOL-Library.Log_Nat"
begin

text \<open>
  The C type \<open>double\<close> of the sources: IEEE 754 binary64 with rounding to nearest, ties to
  even, on the bit level.  A double is its 64-bit pattern, so a \<open>union\<close> with integer members
  can share storage with it.  \<open>f64_mag\<close> reads the lower 63 bits as a number: the finite
  non-negative doubles are exactly the magnitudes below \<open>inf_mag\<close>, in the order of their
  values, and one formula (\<open>round_mag\<close>) rounds an exact rational to the nearest magnitude,
  through the subnormal range and up to infinity.  Every arithmetic operation is the exact
  rational result followed by this rounding.

  The lemmas show that \<open>mag_val\<close> is strictly increasing, that rounding is the identity on
  representable values, and that its relative error in the normal range is at most
  \<open>2 ^ -53\<close>; the components use them through \<open>f64_of_int_exact\<close> (integers up to
  \<open>2 ^ 53\<close> convert exactly) and \<open>round_mag_rel_error\<close>.
\<close>

type_synonym f64 = "64 word"

section \<open>Encoding\<close>

definition pow2 :: "int \<Rightarrow> rat" where
  "pow2 e = (if 0 \<le> e then 2 ^ nat e else 1 / 2 ^ nat (- e))"

definition inf_mag :: nat where
  "inf_mag = 9218868437227405312"

definition f64_sign :: "f64 \<Rightarrow> bool" where
  "f64_sign x = (2 ^ 63 \<le> unat x)"

definition f64_mag :: "f64 \<Rightarrow> nat" where
  "f64_mag x = unat x mod 2 ^ 63"

definition f64_make :: "bool \<Rightarrow> nat \<Rightarrow> f64" where
  "f64_make neg m = of_nat (m + (if neg then 2 ^ 63 else 0))"

definition mag_val :: "nat \<Rightarrow> rat" where
  "mag_val n =
     (let E = n div 2 ^ 52; F = n mod 2 ^ 52 in
      if E = 0 then of_nat F * pow2 (- 1074)
      else of_nat (2 ^ 52 + F) * pow2 (int E - 1075))"

definition f64_val :: "f64 \<Rightarrow> rat" where
  "f64_val x = (if f64_sign x then - mag_val (f64_mag x) else mag_val (f64_mag x))"

definition f64_isnan :: "f64 \<Rightarrow> bool" where
  "f64_isnan x = (inf_mag < f64_mag x)"

definition f64_isinf :: "f64 \<Rightarrow> bool" where
  "f64_isinf x = (f64_mag x = inf_mag)"

definition f64_isfinite :: "f64 \<Rightarrow> bool" where
  "f64_isfinite x = (f64_mag x < inf_mag)"

definition f64_zero :: f64 where
  "f64_zero = 0"

definition f64_nan :: f64 where
  "f64_nan = f64_make False (inf_mag + 2 ^ 51)"

definition f64_inf :: "bool \<Rightarrow> f64" where
  "f64_inf neg = f64_make neg inf_mag"

section \<open>Rounding\<close>

text \<open>Round half to even.\<close>

definition rne :: "rat \<Rightarrow> nat" where
  "rne x =
     (let f = \<lfloor>x\<rfloor>; d = x - of_int f in
      nat (if d < 1 / 2 then f else if 1 / 2 < d then f + 1 else if even f then f else f + 1))"

text \<open>The binary exponent of a positive rational.\<close>

definition expo :: "rat \<Rightarrow> int" where
  "expo r =
     (let (p, q) = quotient_of r;
          k = int (floorlog 2 (nat p)) - int (floorlog 2 (nat q))
      in if r < pow2 k then k - 1 else k)"

definition round_mag :: "rat \<Rightarrow> nat" where
  "round_mag r =
     (if r \<le> 0 then 0
      else let e = max (- 1074) (expo r - 52)
           in min inf_mag (rne (r * pow2 (- e)) + nat (e + 1074) * 2 ^ 52))"

section \<open>Arithmetic, comparison and conversion\<close>

definition f64_neg :: "f64 \<Rightarrow> f64" where
  "f64_neg x = f64_make (\<not> f64_sign x) (f64_mag x)"

definition f64_mul :: "f64 \<Rightarrow> f64 \<Rightarrow> f64" where
  "f64_mul x y =
     (let s = (f64_sign x \<noteq> f64_sign y) in
      if f64_isnan x \<or> f64_isnan y then f64_nan
      else if f64_isinf x \<or> f64_isinf y
        then (if f64_mag x = 0 \<or> f64_mag y = 0 then f64_nan else f64_inf s)
      else f64_make s (round_mag (\<bar>f64_val x\<bar> * \<bar>f64_val y\<bar>)))"

definition f64_div :: "f64 \<Rightarrow> f64 \<Rightarrow> f64" where
  "f64_div x y =
     (let s = (f64_sign x \<noteq> f64_sign y) in
      if f64_isnan x \<or> f64_isnan y then f64_nan
      else if f64_isinf x then (if f64_isinf y then f64_nan else f64_inf s)
      else if f64_isinf y then f64_make s 0
      else if f64_mag y = 0 then (if f64_mag x = 0 then f64_nan else f64_inf s)
      else f64_make s (round_mag (\<bar>f64_val x\<bar> / \<bar>f64_val y\<bar>)))"

definition f64_add :: "f64 \<Rightarrow> f64 \<Rightarrow> f64" where
  "f64_add x y =
     (if f64_isnan x \<or> f64_isnan y then f64_nan
      else if f64_isinf x
        then (if f64_isinf y \<and> f64_sign x \<noteq> f64_sign y then f64_nan else x)
      else if f64_isinf y then y
      else let r = f64_val x + f64_val y in
           if r = 0 then f64_make (f64_sign x \<and> f64_sign y) 0
           else f64_make (r < 0) (round_mag \<bar>r\<bar>))"

definition f64_sub :: "f64 \<Rightarrow> f64 \<Rightarrow> f64" where
  "f64_sub x y = f64_add x (f64_neg y)"

text \<open>The sign-magnitude order on bit patterns; it identifies the two zeros.\<close>

definition f64_ord :: "f64 \<Rightarrow> int" where
  "f64_ord x = (if f64_sign x then - int (f64_mag x) else int (f64_mag x))"

definition f64_lt :: "f64 \<Rightarrow> f64 \<Rightarrow> bool" where
  "f64_lt x y = (\<not> f64_isnan x \<and> \<not> f64_isnan y \<and> f64_ord x < f64_ord y)"

definition f64_le :: "f64 \<Rightarrow> f64 \<Rightarrow> bool" where
  "f64_le x y = (\<not> f64_isnan x \<and> \<not> f64_isnan y \<and> f64_ord x \<le> f64_ord y)"

definition f64_eq :: "f64 \<Rightarrow> f64 \<Rightarrow> bool" where
  "f64_eq x y = (\<not> f64_isnan x \<and> \<not> f64_isnan y \<and> f64_ord x = f64_ord y)"

definition f64_of_rat :: "rat \<Rightarrow> f64" where
  "f64_of_rat r = f64_make (r < 0) (round_mag \<bar>r\<bar>)"

definition f64_of_int :: "int \<Rightarrow> f64" where
  "f64_of_int i = f64_of_rat (of_int i)"

text \<open>The integral part, towards zero: the value of a conversion to an integer type that can hold it.\<close>

definition f64_trunc :: "f64 \<Rightarrow> int" where
  "f64_trunc x = (if f64_sign x then - \<lfloor>\<bar>f64_val x\<bar>\<rfloor> else \<lfloor>\<bar>f64_val x\<bar>\<rfloor>)"

section \<open>Powers of two and exponents\<close>

lemma pow2_pos [simp]: "0 < pow2 e"
  by (simp add: pow2_def)

lemma pow2_nonneg [simp]: "0 \<le> pow2 e"
  by (simp add: less_imp_le)

lemma pow2_neq_0 [simp]: "pow2 e \<noteq> 0"
  by (metis less_irrefl pow2_pos)

lemma pow2_powi: "pow2 e = 2 powi e"
  by (simp add: pow2_def power_int_def inverse_eq_divide power_one_over)

lemma pow2_add: "pow2 (a + b) = pow2 a * pow2 b"
  by (simp add: pow2_powi power_int_add)

lemma pow2_diff: "pow2 (a - b) = pow2 a / pow2 b"
  by (simp add: pow2_powi power_int_diff)

lemma pow2_0 [simp]: "pow2 0 = 1"
  by (simp add: pow2_def)

lemma pow2_minus: "pow2 (- a) = 1 / pow2 a"
  using pow2_diff [of 0 a] by simp

lemma pow2_int: "pow2 (int n) = 2 ^ n"
  by (simp add: pow2_def)

lemma pow2_mono: "a \<le> b \<Longrightarrow> pow2 a \<le> pow2 b"
  by (simp add: pow2_powi power_int_increasing)

lemma pow2_strict_mono: "a < b \<Longrightarrow> pow2 a < pow2 b"
  by (simp add: pow2_powi power_int_strict_increasing)

lemma pow2_less_iff [simp]: "pow2 a < pow2 b \<longleftrightarrow> a < b"
  by (meson not_le pow2_mono pow2_strict_mono)

lemma pow2_le_iff [simp]: "pow2 a \<le> pow2 b \<longleftrightarrow> a \<le> b"
  by (simp flip: not_less)

lemma pow2_Suc: "pow2 (e + 1) = 2 * pow2 e"
  by (simp add: pow2_powi power_int_add)

lemma floorlog_pow2:
  assumes "0 < n"
  shows "pow2 (int (floorlog 2 n) - 1) \<le> of_nat n" and "of_nat n < pow2 (int (floorlog 2 n))"
proof -
  let ?k = "floorlog 2 n"
  have k: "0 < ?k" and b: "2 ^ (?k - 1) \<le> n" "n < 2 ^ ?k"
    using assms floorlog_bounds [of n 2] by (auto simp: floorlog_def)
  have "pow2 (int ?k - 1) = of_nat (2 ^ (?k - 1))"
    using k pow2_int [of "?k - 1"] by (simp add: of_nat_diff)
  with b(1) show "pow2 (int ?k - 1) \<le> of_nat n" by (simp only: of_nat_le_iff)
  have "pow2 (int ?k) = of_nat (2 ^ ?k)" by (simp add: pow2_int)
  with b(2) show "of_nat n < pow2 (int ?k)" by (simp only: of_nat_less_iff)
qed

lemma expo_bounds:
  assumes "0 < r"
  shows "pow2 (expo r) \<le> r" and "r < pow2 (expo r + 1)"
proof -
  obtain p q where pq: "quotient_of r = (p, q)" by fastforce
  then have q: "0 < q" and r: "r = of_int p / of_int q"
    by (auto simp: quotient_of_denom_pos quotient_of_div)
  with assms have p: "0 < p" by (simp add: zero_less_divide_iff)
  define a b where "a = floorlog 2 (nat p)" and "b = floorlog 2 (nat q)"
  define k where "k = int a - int b"
  have P: "pow2 (int a - 1) \<le> of_int p" "of_int p < pow2 (int a)"
    using p floorlog_pow2 [of "nat p"] by (simp_all add: a_def)
  have Q: "pow2 (int b - 1) \<le> of_int q" "of_int q < pow2 (int b)"
    using q floorlog_pow2 [of "nat q"] by (simp_all add: b_def)
  have upper: "r < pow2 (k + 1)"
  proof -
    have "pow2 (k + 1) * of_int q \<ge> pow2 (k + 1) * pow2 (int b - 1)"
      using Q(1) by (intro mult_left_mono) auto
    also have "pow2 (k + 1) * pow2 (int b - 1) = pow2 (int a)"
      by (simp add: k_def flip: pow2_add)
    finally have "of_int p < pow2 (k + 1) * of_int q" using P(2) by linarith
    then show ?thesis using q by (simp add: r divide_less_eq)
  qed
  have lower: "pow2 (k - 1) < r"
  proof -
    have "pow2 (k - 1) * of_int q < pow2 (k - 1) * pow2 (int b)"
      using Q(2) by (intro mult_strict_left_mono) auto
    also have "pow2 (k - 1) * pow2 (int b) = pow2 (int a - 1)"
      by (simp add: k_def flip: pow2_add)
    finally have "pow2 (k - 1) * of_int q < of_int p" using P(1) by linarith
    then show ?thesis using q by (simp add: r less_divide_eq)
  qed
  have "expo r = (if r < pow2 k then k - 1 else k)"
    by (simp add: expo_def pq k_def a_def b_def Let_def)
  with upper lower show "pow2 (expo r) \<le> r" "r < pow2 (expo r + 1)"
    by (auto split: if_splits)
qed

lemma expo_unique:
  assumes "pow2 e \<le> r" and "r < pow2 (e + 1)"
  shows "expo r = e"
proof -
  have "0 < r" using assms(1) pow2_pos [of e] by linarith
  note b = expo_bounds [OF this]
  have "pow2 (expo r) < pow2 (e + 1)" "pow2 e < pow2 (expo r + 1)" using b assms by linarith+
  then show ?thesis by simp
qed

section \<open>Magnitudes and their values\<close>

lemma mag_decompose:
  fixes n :: nat
  obtains m k where "n = m + k * 2 ^ 52" "m < 2 ^ 53" "k = 0 \<or> 2 ^ 52 \<le> m"
proof (cases "n div 2 ^ 52 = 0")
  case True
  then have "n < 2 ^ 52" by (simp add: div_eq_0_iff)
  then show ?thesis by (intro that [of n 0]) auto
next
  case False
  define E F where "E = n div 2 ^ 52" and "F = n mod 2 ^ 52"
  have "F < 2 ^ 52" by (simp add: F_def)
  moreover have "n = E * 2 ^ 52 + F" unfolding E_def F_def by (rule div_mult_mod_eq [symmetric])
  moreover obtain E' where "E = Suc E'" using False E_def not0_implies_Suc by metis
  ultimately show ?thesis by (intro that [of "2 ^ 52 + F" E']) auto
qed

lemma mag_val_formula:
  assumes "m \<le> 2 ^ 53" and "k = 0 \<or> 2 ^ 52 \<le> m"
  shows "mag_val (m + k * 2 ^ 52) = of_nat m * pow2 (int k - 1074)"
proof -
  consider (sub) "k = 0" "m < 2 ^ 52" | (normal) "2 ^ 52 \<le> m" "m < 2 ^ 53" | (carry) "m = 2 ^ 53"
    using assms by fastforce
  then show ?thesis
  proof cases
    case sub
    then show ?thesis by (simp add: mag_val_def)
  next
    case normal
    define F where "F = m - 2 ^ 52"
    have F: "F < 2 ^ 52" "m = 2 ^ 52 + F" using normal by (auto simp: F_def)
    have n: "m + k * 2 ^ 52 = F + Suc k * 2 ^ 52" using F by simp
    have "(m + k * 2 ^ 52) div 2 ^ 52 = Suc k"
      unfolding n using F(1) by (subst div_mult_self1) auto
    moreover have "(m + k * 2 ^ 52) mod 2 ^ 52 = F"
      unfolding n using F(1) by (subst mod_mult_self1) auto
    ultimately show ?thesis
      by (simp add: mag_val_def F(2))
  next
    case carry
    have n: "m + k * 2 ^ 52 = (k + 2) * 2 ^ 52" using carry by simp
    have "(m + k * 2 ^ 52) div 2 ^ 52 = k + 2"
      unfolding n by (rule div_mult_self_is_m) simp
    moreover have "(m + k * 2 ^ 52) mod 2 ^ 52 = 0"
      unfolding n by (rule mod_mult_self2_is_0)
    ultimately have "mag_val (m + k * 2 ^ 52) = 2 ^ 52 * pow2 (int k + 2 - 1075)"
      by (simp add: mag_val_def add.commute)
    also have "pow2 (int k + 2 - 1075) = 2 * pow2 (int k - 1074)"
      by (simp flip: pow2_Suc)
    finally show ?thesis by (simp add: carry)
  qed
qed

lemma mag_val_Suc: "mag_val n < mag_val (Suc n)"
proof -
  obtain m k where n: "n = m + k * 2 ^ 52" "m < 2 ^ 53" "k = 0 \<or> 2 ^ 52 \<le> m"
    by (rule mag_decompose)
  have "mag_val n = of_nat m * pow2 (int k - 1074)"
    using n mag_val_formula by simp
  moreover have "mag_val (Suc n) = of_nat (Suc m) * pow2 (int k - 1074)"
    using n mag_val_formula [of "Suc m" k] by auto
  ultimately show ?thesis by (simp add: mult_strict_right_mono)
qed

lemma mag_val_strict_mono: "strict_mono mag_val"
  by (simp add: strict_mono_Suc_iff mag_val_Suc)

lemma mag_val_less_iff [simp]: "mag_val a < mag_val b \<longleftrightarrow> a < b"
  by (simp add: strict_mono_less [OF mag_val_strict_mono])

lemma mag_val_0 [simp]: "mag_val 0 = 0"
  by (simp add: mag_val_def)

lemma mag_val_nonneg [simp]: "0 \<le> mag_val n"
  using mag_val_less_iff [of n 0] by (simp add: not_less [symmetric] del: mag_val_less_iff)

lemma mag_val_eq_0_iff [simp]: "mag_val n = 0 \<longleftrightarrow> n = 0"
  using mag_val_less_iff [of 0 n] by (auto simp del: mag_val_less_iff)

lemma mag_val_pos_iff [simp]: "0 < mag_val n \<longleftrightarrow> 0 < n"
  using mag_val_less_iff [of 0 n] by (simp del: mag_val_less_iff)

section \<open>Rounding is exact or close\<close>

lemma rne_of_nat [simp]: "rne (of_nat m) = m"
  by (simp add: rne_def)

lemma rne_error:
  assumes "0 \<le> x"
  shows "\<bar>of_nat (rne x) - x\<bar> \<le> 1 / 2"
proof -
  have f: "0 \<le> \<lfloor>x\<rfloor>" using assms by simp
  have "of_int \<lfloor>x\<rfloor> \<le> x" "x < of_int \<lfloor>x\<rfloor> + 1" by linarith+
  with f show ?thesis by (auto simp: rne_def Let_def abs_le_iff)
qed

lemma rne_mono_bounds:
  assumes "of_nat a \<le> x" and "x \<le> of_nat b"
  shows "a \<le> rne x" and "rne x \<le> b"
proof -
  have "0 \<le> x" using assms(1) by (meson of_nat_0_le_iff order_trans)
  note e = rne_error [OF this]
  from e assms(1) have "of_nat a < (of_nat (rne x) :: rat) + 1" by linarith
  then show "a \<le> rne x" by (metis less_Suc_eq_le of_nat_Suc of_nat_less_iff add.commute)
  from e assms(2) have "of_nat (rne x) < (of_nat b :: rat) + 1" by linarith
  then show "rne x \<le> b" by (metis less_Suc_eq_le of_nat_Suc of_nat_less_iff add.commute)
qed

text \<open>The unit in the last place that \<open>round_mag\<close> rounds to.\<close>

lemma round_mag_scaled:
  assumes "0 < r" and e: "e = max (- 1074) (expo r - 52)"
  shows "rne (r * pow2 (- e)) \<le> 2 ^ 53"
    and "e = - 1074 \<or> 2 ^ 52 \<le> rne (r * pow2 (- e))"
    and "mag_val (rne (r * pow2 (- e)) + nat (e + 1074) * 2 ^ 52) =
           of_nat (rne (r * pow2 (- e))) * pow2 e"
proof -
  have eb: "expo r - 52 \<le> e" "- 1074 \<le> e" using e by auto
  have "r * pow2 (- e) < pow2 (expo r + 1) * pow2 (- e)"
    using expo_bounds(2) [OF assms(1)] by (intro mult_strict_right_mono) auto
  also have "\<dots> = pow2 (expo r + 1 - e)" by (simp flip: pow2_add)
  also have "\<dots> \<le> pow2 53" using eb by (intro pow2_mono) simp
  finally have "r * pow2 (- e) \<le> of_nat (2 ^ 53)" by (simp add: pow2_def)
  then show le: "rne (r * pow2 (- e)) \<le> 2 ^ 53"
    using rne_mono_bounds(2) [of 0] assms(1) by simp
  show big: "e = - 1074 \<or> 2 ^ 52 \<le> rne (r * pow2 (- e))"
  proof (cases "e = - 1074")
    case False
    then have "e = expo r - 52" using e by auto
    then have "pow2 (expo r) * pow2 (- e) = 2 ^ 52"
      by (simp flip: pow2_add) (simp add: pow2_def)
    moreover have "pow2 (expo r) * pow2 (- e) \<le> r * pow2 (- e)"
      using expo_bounds(1) [OF assms(1)] by (intro mult_right_mono) auto
    ultimately have "of_nat (2 ^ 52) \<le> r * pow2 (- e)" by simp
    then show ?thesis using rne_mono_bounds(1) \<open>r * pow2 (- e) \<le> of_nat (2 ^ 53)\<close> by blast
  qed simp
  show "mag_val (rne (r * pow2 (- e)) + nat (e + 1074) * 2 ^ 52) =
           of_nat (rne (r * pow2 (- e))) * pow2 e"
    using mag_val_formula [OF le, of "nat (e + 1074)"] big eb(2) by auto
qed

text \<open>Rounding a representable value changes nothing.\<close>

lemma round_mag_exact:
  assumes "n < inf_mag"
  shows "round_mag (mag_val n) = n"
proof (cases "n = 0")
  case True
  then show ?thesis by (simp add: round_mag_def)
next
  case False
  then have pos: "0 < mag_val n" by simp
  obtain m k where n: "n = m + k * 2 ^ 52" "m < 2 ^ 53" "k = 0 \<or> 2 ^ 52 \<le> m"
    by (rule mag_decompose)
  have v: "mag_val n = of_nat m * pow2 (int k - 1074)"
    using n mag_val_formula by simp
  have lt: "mag_val n < pow2 (int k - 1074 + 53)"
  proof -
    have "(of_nat m :: rat) < of_nat (2 ^ 53)" using n(2) by (simp only: of_nat_less_iff)
    then have "(of_nat m :: rat) < pow2 53" by (simp add: pow2_def)
    then have "of_nat m * pow2 (int k - 1074) < pow2 53 * pow2 (int k - 1074)"
      by (intro mult_strict_right_mono) auto
    then show ?thesis unfolding v by (metis add.commute pow2_add)
  qed
  have "pow2 (expo (mag_val n)) < pow2 (int k - 1074 + 53)"
    using expo_bounds(1) [OF pos] lt by linarith
  then have hi: "expo (mag_val n) - 52 \<le> int k - 1074" by simp
  have lo: "int k - 1074 \<le> expo (mag_val n) - 52 \<or> k = 0"
  proof (cases "k = 0")
    case False
    with n(3) have "2 ^ 52 \<le> m" by simp
    then have "(of_nat (2 ^ 52) :: rat) \<le> of_nat m" by (simp only: of_nat_le_iff)
    then have "pow2 52 \<le> (of_nat m :: rat)" by (simp add: pow2_def)
    then have "pow2 52 * pow2 (int k - 1074) \<le> mag_val n"
      unfolding v by (intro mult_right_mono) auto
    then have "pow2 (52 + (int k - 1074)) < pow2 (expo (mag_val n) + 1)"
      unfolding pow2_add [of 52] using expo_bounds(2) [OF pos] by linarith
    then show ?thesis by simp
  qed simp
  have e: "max (- 1074) (expo (mag_val n) - 52) = int k - 1074" using hi lo by auto
  have "mag_val n * pow2 (- (int k - 1074)) = of_nat m"
    unfolding v by (simp add: pow2_minus pow2_diff)
  then have "round_mag (mag_val n) = min inf_mag (m + k * 2 ^ 52)"
    using pos unfolding round_mag_def e Let_def by (simp add: not_le [symmetric] del: mag_val_pos_iff)
  then show ?thesis using assms n(1) by simp
qed

text \<open>The error is at most half a unit in the last place.\<close>

lemma round_mag_half_ulp:
  assumes "0 < r" and "round_mag r < inf_mag" and e: "e = max (- 1074) (expo r - 52)"
  shows "\<bar>mag_val (round_mag r) - r\<bar> \<le> pow2 (e - 1)"
proof -
  let ?x = "r * pow2 (- e)"
  have "round_mag r = rne ?x + nat (e + 1074) * 2 ^ 52"
    using assms(1,2) by (simp add: round_mag_def e Let_def split: if_splits)
  then have v: "mag_val (round_mag r) = of_nat (rne ?x) * pow2 e"
    using round_mag_scaled(3) [OF assms(1) e] by simp
  have "r = ?x * pow2 e" by (simp add: pow2_minus)
  then have "mag_val (round_mag r) - r = (of_nat (rne ?x) - ?x) * pow2 e"
    unfolding v left_diff_distrib by simp
  then have "\<bar>mag_val (round_mag r) - r\<bar> = \<bar>of_nat (rne ?x) - ?x\<bar> * pow2 e"
    by (simp add: abs_mult)
  also have "\<dots> \<le> 1 / 2 * pow2 e"
    using assms(1) by (intro mult_right_mono rne_error) auto
  also have "\<dots> = pow2 (e - 1)" using pow2_Suc [of "e - 1"] by simp
  finally show ?thesis .
qed

lemma round_mag_le_inf: "round_mag r \<le> inf_mag"
  by (simp add: round_mag_def Let_def)

text \<open>In the normal range, and short of overflow, the relative error is at most \<open>2 ^ -53\<close>.\<close>

lemma round_mag_rel_error:
  assumes "pow2 (- 1022) \<le> r" and "round_mag r < inf_mag"
  shows "\<bar>mag_val (round_mag r) - r\<bar> \<le> r * pow2 (- 53)"
proof -
  have pos: "0 < r" using assms(1) pow2_pos less_le_trans by blast
  define e where "e = max (- 1074) (expo r - 52)"
  have "pow2 (- 1022) < pow2 (expo r + 1)" using assms(1) expo_bounds(2) [OF pos] by linarith
  then have e': "e - 1 = expo r - 53" by (simp add: e_def)
  have "\<bar>mag_val (round_mag r) - r\<bar> \<le> pow2 (e - 1)"
    by (rule round_mag_half_ulp [OF pos assms(2) e_def])
  also have "\<dots> = pow2 (expo r) * pow2 (- 53)"
    unfolding e' by (simp flip: pow2_add)
  also have "\<dots> \<le> r * pow2 (- 53)"
    using expo_bounds(1) [OF pos] by (intro mult_right_mono) auto
  finally show ?thesis .
qed

lemma round_mag_abs_error:
  assumes "0 \<le> r" and "r \<le> pow2 k" and "- 1022 \<le> k" and "k \<le> 1023"
  shows "\<bar>mag_val (round_mag r) - r\<bar> \<le> pow2 (k - 53)" and "round_mag r < inf_mag"
proof -
  show fin: "round_mag r < inf_mag"
  proof (cases "r = 0")
    case True
    then show ?thesis by (simp add: round_mag_def inf_mag_def)
  next
    case False
    with assms(1) have pos: "0 < r" by simp
    define e where "e = max (- 1074) (expo r - 52)"
    have "pow2 (expo r) < pow2 1024"
      using expo_bounds(1) [OF pos] assms(2) pow2_mono [OF assms(4)] pow2_strict_mono [of 1023 1024]
      by linarith
    then have "nat (e + 1074) \<le> 2045" by (simp add: e_def)
    moreover have "rne (r * pow2 (- e)) \<le> 2 ^ 53" by (rule round_mag_scaled(1) [OF pos e_def])
    ultimately have le: "rne (r * pow2 (- e)) + nat (e + 1074) * 2 ^ 52 \<le> 2 ^ 53 + 2045 * 2 ^ 52"
      by (intro add_mono mult_right_mono) auto
    have "rne (r * pow2 (- e)) + nat (e + 1074) * 2 ^ 52 \<noteq> inf_mag"
    proof
      assume N: "rne (r * pow2 (- e)) + nat (e + 1074) * 2 ^ 52 = inf_mag"
      then have "rne (r * pow2 (- e)) + nat (e + 1074) * 2 ^ 52 = 2 ^ 53 + 2045 * 2 ^ 52"
        by (simp add: inf_mag_def)
      with \<open>nat (e + 1074) \<le> 2045\<close> \<open>rne (r * pow2 (- e)) \<le> 2 ^ 53\<close>
      have "rne (r * pow2 (- e)) = 2 ^ 53 \<and> nat (e + 1074) = 2045" by simp
      then have *: "rne (r * pow2 (- e)) = 2 ^ 53" "nat (e + 1074) = 2045" by auto
      then have e: "e = 971" by linarith
      have "r * pow2 (- e) \<le> pow2 1023 * pow2 (- e)"
        using order_trans [OF assms(2) pow2_mono [OF assms(4)]] by (rule mult_right_mono) simp
      then have "r * pow2 (- e) \<le> of_nat (2 ^ 52)"
        unfolding pow2_add [symmetric] e by (simp add: pow2_def)
      from rne_mono_bounds(2) [OF _ this, of 0] pos have "rne (r * pow2 (- e)) \<le> 2 ^ 52" by simp
      with * show False by simp
    qed
    with le have "rne (r * pow2 (- e)) + nat (e + 1074) * 2 ^ 52 < inf_mag"
      by (simp add: inf_mag_def)
    then show ?thesis using pos by (simp add: round_mag_def e_def Let_def min_def)
  qed
  show "\<bar>mag_val (round_mag r) - r\<bar> \<le> pow2 (k - 53)"
  proof (cases "r = 0")
    case True
    then show ?thesis by (simp add: round_mag_def)
  next
    case False
    with assms(1) have pos: "0 < r" by simp
    define e where "e = max (- 1074) (expo r - 52)"
    have "pow2 (expo r) \<le> pow2 k" using expo_bounds(1) [OF pos] assms(2) by linarith
    then have "expo r \<le> k" by simp
    then have "pow2 (e - 1) \<le> pow2 (k - 53)"
      using assms(3) by (intro pow2_mono) (simp add: e_def)
    with round_mag_half_ulp [OF pos fin e_def] show ?thesis by linarith
  qed
qed

section \<open>Constructed doubles\<close>

lemma unat_f64_make:
  assumes "m < 2 ^ 63"
  shows "unat (f64_make s m) = m + (if s then 2 ^ 63 else 0)"
  unfolding f64_make_def by (rule unat_of_nat_small) (use assms in auto)

lemma f64_make_sign [simp]: "m < 2 ^ 63 \<Longrightarrow> f64_sign (f64_make s m) = s"
  by (simp add: f64_sign_def unat_f64_make)

lemma f64_make_mag [simp]: "m < 2 ^ 63 \<Longrightarrow> f64_mag (f64_make s m) = m"
  by (simp add: f64_mag_def unat_f64_make)

lemma f64_make_collapse [simp]: "f64_make (f64_sign x) (f64_mag x) = x"
proof -
  have u: "unat x < 2 ^ 64" using unsigned_less [of x] by simp
  have "f64_mag x + (if f64_sign x then 2 ^ 63 else 0) = unat x"
    using u by (cases "2 ^ 63 \<le> unat x") (auto simp: f64_sign_def f64_mag_def mod_if le_mod_geq)
  then show ?thesis by (simp add: f64_make_def)
qed

lemma round_mag_small [simp]: "round_mag r < 9223372036854775808"
  using round_mag_le_inf [of r] by (simp add: inf_mag_def)

lemma f64_make_isfinite [simp]: "m < inf_mag \<Longrightarrow> f64_isfinite (f64_make s m)"
  by (simp add: f64_isfinite_def inf_mag_def)

lemma f64_make_val:
  "m < 2 ^ 63 \<Longrightarrow> f64_val (f64_make s m) = (if s then - mag_val m else mag_val m)"
  by (simp add: f64_val_def)

lemma f64_finite_not_nan: "f64_isfinite x \<Longrightarrow> \<not> f64_isnan x"
  by (simp add: f64_isfinite_def f64_isnan_def)

lemma f64_finite_not_inf: "f64_isfinite x \<Longrightarrow> \<not> f64_isinf x"
  by (simp add: f64_isfinite_def f64_isinf_def)

lemma f64_class_cases: "f64_isfinite x \<or> f64_isinf x \<or> f64_isnan x"
  by (auto simp: f64_isfinite_def f64_isnan_def f64_isinf_def)

text \<open>The order on bit patterns is the order of the values.\<close>

lemma f64_lt_val:
  assumes "f64_isfinite x" and "f64_isfinite y"
  shows "f64_lt x y \<longleftrightarrow> f64_val x < f64_val y"
proof -
  have "- mag_val (f64_mag x) < mag_val (f64_mag y) \<longleftrightarrow> 0 < f64_mag x + f64_mag y"
    using mag_val_nonneg [of "f64_mag x"] mag_val_nonneg [of "f64_mag y"]
      mag_val_pos_iff [of "f64_mag x"] mag_val_pos_iff [of "f64_mag y"] by linarith
  moreover have "\<not> mag_val (f64_mag x) < - mag_val (f64_mag y)"
    using mag_val_nonneg [of "f64_mag x"] mag_val_nonneg [of "f64_mag y"] by linarith
  ultimately show ?thesis
    using assms by (auto simp: f64_lt_def f64_finite_not_nan f64_ord_def f64_val_def)
qed

lemma f64_eq_val:
  assumes "f64_isfinite x" and "f64_isfinite y"
  shows "f64_eq x y \<longleftrightarrow> f64_val x = f64_val y"
proof -
  have "f64_eq x y \<longleftrightarrow> \<not> f64_lt x y \<and> \<not> f64_lt y x"
    using assms by (auto simp: f64_eq_def f64_lt_def f64_finite_not_nan)
  with assms show ?thesis by (auto simp: f64_lt_val)
qed

lemma f64_le_iff_not_lt:
  assumes "\<not> f64_isnan x" and "\<not> f64_isnan y"
  shows "f64_le x y \<longleftrightarrow> \<not> f64_lt y x"
  using assms by (auto simp: f64_le_def f64_lt_def)

lemma f64_zero_simps [simp]:
  "f64_isfinite f64_zero" "f64_val f64_zero = 0" "f64_ord f64_zero = 0" "\<not> f64_isnan f64_zero"
  by (simp_all add: f64_zero_def f64_isfinite_def f64_mag_def f64_val_def f64_sign_def inf_mag_def
      f64_ord_def f64_isnan_def)

section \<open>Integers are exact\<close>

lemma nat_representable:
  assumes "n \<le> 2 ^ 53"
  obtains m where "m < inf_mag" "mag_val m = of_nat n"
proof (cases "n = 0")
  case True
  then show ?thesis by (intro that [of 0]) (auto simp: inf_mag_def)
next
  case False
  define l where "l = floorlog 2 n"
  have l: "0 < l" "2 ^ (l - 1) \<le> n" "n < 2 ^ l"
    using False floorlog_bounds [of n 2] by (auto simp: l_def floorlog_def)
  have "l \<le> 54"
  proof (rule ccontr)
    assume "\<not> l \<le> 54"
    then have "(2::nat) ^ 54 \<le> 2 ^ (l - 1)" by (intro power_increasing) auto
    with l(2) assms show False by simp
  qed
  show ?thesis
  proof (cases "l = 54")
    case True
    with l(2) assms have "n = 2 ^ 53" by simp
    moreover have "mag_val (2 ^ 53 + 1074 * 2 ^ 52) = of_nat (2 ^ 53)"
      by (subst mag_val_formula) auto
    ultimately show ?thesis by (intro that [of "2 ^ 53 + 1074 * 2 ^ 52"]) (auto simp: inf_mag_def)
  next
    case False
    with \<open>l \<le> 54\<close> have l53: "l \<le> 53" by simp
    define m where "m = n * 2 ^ (53 - l)"
    have p: "(2::nat) ^ (l - 1) * 2 ^ (53 - l) = 2 ^ 52" "(2::nat) ^ l * 2 ^ (53 - l) = 2 ^ 53"
      using l(1) l53 by (simp_all flip: power_add)
    have "2 ^ (l - 1) * 2 ^ (53 - l) \<le> m"
      unfolding m_def using l(2) by (rule mult_le_mono1)
    moreover have "m < 2 ^ l * 2 ^ (53 - l)"
      unfolding m_def using l(3) by (intro mult_strict_right_mono) auto
    ultimately have m: "2 ^ 52 \<le> m" "m < 2 ^ 53" unfolding p by auto
    have "mag_val (m + (1021 + l) * 2 ^ 52) = of_nat m * pow2 (int (1021 + l) - 1074)"
      using m by (intro mag_val_formula) auto
    also have "int (1021 + l) - 1074 = - int (53 - l)" using l53 by simp
    also have "of_nat m * pow2 (- int (53 - l)) = (of_nat n :: rat)"
      by (simp add: m_def pow2_minus pow2_int)
    finally have "mag_val (m + (1021 + l) * 2 ^ 52) = of_nat n" .
    moreover have "m + (1021 + l) * 2 ^ 52 < 2 ^ 53 + 1074 * 2 ^ 52"
      using m(2) mult_right_mono [of "1021 + l" 1074 "2 ^ 52 :: nat"] l53 by linarith
    ultimately show ?thesis by (intro that) (auto simp: inf_mag_def)
  qed
qed

lemma f64_of_int_exact:
  assumes "\<bar>i\<bar> \<le> 2 ^ 53"
  shows "f64_isfinite (f64_of_int i)" and "f64_val (f64_of_int i) = of_int i"
proof -
  from assms have "nat \<bar>i\<bar> \<le> 2 ^ 53" by simp
  then obtain m where m: "m < inf_mag" "mag_val m = of_nat (nat \<bar>i\<bar>)"
    by (rule nat_representable)
  have "\<bar>of_int i :: rat\<bar> = mag_val m" unfolding m(2) by simp
  then have r: "round_mag \<bar>of_int i\<bar> = m" using round_mag_exact [OF m(1)] by simp
  from m(1) have "m < 2 ^ 63" by (simp add: inf_mag_def)
  with m r show "f64_isfinite (f64_of_int i)" "f64_val (f64_of_int i) = of_int i"
    by (auto simp: f64_of_int_def f64_of_rat_def f64_make_val)
qed

lemma f64_lt_of_int:
  "\<bar>i\<bar> \<le> 2 ^ 53 \<Longrightarrow> \<bar>j\<bar> \<le> 2 ^ 53 \<Longrightarrow> f64_lt (f64_of_int i) (f64_of_int j) \<longleftrightarrow> i < j"
  by (simp add: f64_lt_val f64_of_int_exact)

lemma f64_trunc_of_int:
  assumes "\<bar>i\<bar> \<le> 2 ^ 53"
  shows "f64_trunc (f64_of_int i) = i"
proof -
  have s: "f64_sign (f64_of_int i) = (i < 0)"
    by (simp add: f64_of_int_def f64_of_rat_def)
  have "\<lfloor>\<bar>of_int i :: rat\<bar>\<rfloor> = \<bar>i\<bar>" by (simp flip: of_int_abs)
  then show ?thesis
    by (simp add: f64_trunc_def s f64_of_int_exact [OF assms])
qed

section \<open>Error of the operations\<close>

lemma f64_val_signed: "f64_val x = (if f64_sign x then - \<bar>f64_val x\<bar> else \<bar>f64_val x\<bar>)"
  by (simp add: f64_val_def)

lemma f64_mag_pos: "f64_val x \<noteq> 0 \<longleftrightarrow> f64_mag x \<noteq> 0"
  by (simp add: f64_val_def)

lemma f64_make_round_val:
  "f64_val (f64_make s (round_mag r)) = (if s then - mag_val (round_mag r) else mag_val (round_mag r))"
  by (rule f64_make_val) simp

text \<open>A result in the normal range has a relative error of at most \<open>2 ^ -53\<close>.\<close>

lemma f64_round_rel:
  assumes "pow2 (- 1022) \<le> \<bar>p\<bar>" and "\<bar>p\<bar> \<le> pow2 1023" and "p = (if s then - \<bar>p\<bar> else \<bar>p\<bar>)"
  shows "f64_isfinite (f64_make s (round_mag \<bar>p\<bar>))"
    and "\<bar>f64_val (f64_make s (round_mag \<bar>p\<bar>)) - p\<bar> \<le> \<bar>p\<bar> * pow2 (- 53)"
proof -
  have fin: "round_mag \<bar>p\<bar> < inf_mag" using assms(2) by (intro round_mag_abs_error(2)) auto
  then show "f64_isfinite (f64_make s (round_mag \<bar>p\<bar>))" by simp
  have "\<bar>f64_val (f64_make s (round_mag \<bar>p\<bar>)) - p\<bar> = \<bar>mag_val (round_mag \<bar>p\<bar>) - \<bar>p\<bar>\<bar>"
    unfolding f64_make_round_val using assms(3) by (cases s) auto
  with round_mag_rel_error [OF assms(1) fin]
  show "\<bar>f64_val (f64_make s (round_mag \<bar>p\<bar>)) - p\<bar> \<le> \<bar>p\<bar> * pow2 (- 53)" by simp
qed

lemma f64_mul_error:
  assumes "f64_isfinite x" and "f64_isfinite y"
    and "pow2 (- 1022) \<le> \<bar>f64_val x * f64_val y\<bar>" and "\<bar>f64_val x * f64_val y\<bar> \<le> pow2 1023"
  shows "f64_isfinite (f64_mul x y)"
    and "\<bar>f64_val (f64_mul x y) - f64_val x * f64_val y\<bar> \<le> \<bar>f64_val x * f64_val y\<bar> * pow2 (- 53)"
proof -
  let ?s = "f64_sign x \<noteq> f64_sign y" and ?p = "f64_val x * f64_val y"
  have "?p = (if ?s then - \<bar>?p\<bar> else \<bar>?p\<bar>)"
    using f64_val_signed [of x] f64_val_signed [of y] by (auto simp: abs_mult split: if_splits)
  note rel = f64_round_rel [OF assms(3,4) this]
  have "f64_mul x y = f64_make ?s (round_mag \<bar>?p\<bar>)"
    using assms(1,2) by (simp add: f64_mul_def f64_finite_not_nan f64_finite_not_inf abs_mult)
  with rel show "f64_isfinite (f64_mul x y)" "\<bar>f64_val (f64_mul x y) - ?p\<bar> \<le> \<bar>?p\<bar> * pow2 (- 53)"
    by simp_all
qed

lemma f64_div_error:
  assumes "f64_isfinite x" and "f64_isfinite y" and "f64_val y \<noteq> 0"
    and "pow2 (- 1022) \<le> \<bar>f64_val x / f64_val y\<bar>" and "\<bar>f64_val x / f64_val y\<bar> \<le> pow2 1023"
  shows "f64_isfinite (f64_div x y)"
    and "\<bar>f64_val (f64_div x y) - f64_val x / f64_val y\<bar> \<le> \<bar>f64_val x / f64_val y\<bar> * pow2 (- 53)"
proof -
  let ?s = "f64_sign x \<noteq> f64_sign y" and ?p = "f64_val x / f64_val y"
  have "?p = (if ?s then - \<bar>?p\<bar> else \<bar>?p\<bar>)"
    using f64_val_signed [of x] f64_val_signed [of y] by (auto simp: abs_divide split: if_splits)
  note rel = f64_round_rel [OF assms(4,5) this]
  have "f64_div x y = f64_make ?s (round_mag \<bar>?p\<bar>)"
    using assms(1-3)
    by (simp add: f64_div_def f64_finite_not_nan f64_finite_not_inf abs_divide f64_mag_pos)
  with rel show "f64_isfinite (f64_div x y)" "\<bar>f64_val (f64_div x y) - ?p\<bar> \<le> \<bar>?p\<bar> * pow2 (- 53)"
    by simp_all
qed

lemma f64_add_error:
  assumes "f64_isfinite x" and "f64_isfinite y"
    and "\<bar>f64_val x + f64_val y\<bar> \<le> pow2 k" and "- 1022 \<le> k" and "k \<le> 1023"
  shows "f64_isfinite (f64_add x y)"
    and "\<bar>f64_val (f64_add x y) - (f64_val x + f64_val y)\<bar> \<le> pow2 (k - 53)"
proof -
  let ?r = "f64_val x + f64_val y"
  note err = round_mag_abs_error [OF abs_ge_zero assms(3-5)]
  have add: "f64_add x y = (if ?r = 0 then f64_make (f64_sign x \<and> f64_sign y) 0
      else f64_make (?r < 0) (round_mag \<bar>?r\<bar>))"
    using assms(1,2) by (simp add: f64_add_def f64_finite_not_nan f64_finite_not_inf Let_def)
  show "f64_isfinite (f64_add x y)"
    unfolding add using err(2) by (auto simp: inf_mag_def)
  show "\<bar>f64_val (f64_add x y) - ?r\<bar> \<le> pow2 (k - 53)"
  proof (cases "?r = 0")
    case True
    then show ?thesis unfolding add by (simp add: f64_make_val)
  next
    case False
    then have "\<bar>f64_val (f64_add x y) - ?r\<bar> = \<bar>mag_val (round_mag \<bar>?r\<bar>) - \<bar>?r\<bar>\<bar>"
      unfolding add by (cases "?r < 0") (auto simp: f64_make_round_val)
    with err(1) show ?thesis by simp
  qed
qed

lemma f64_neg_val:
  "f64_val (f64_neg x) = - f64_val x" "f64_isfinite (f64_neg x) = f64_isfinite x"
proof -
  have "f64_mag x < 2 ^ 63" by (simp add: f64_mag_def)
  then show "f64_val (f64_neg x) = - f64_val x" "f64_isfinite (f64_neg x) = f64_isfinite x"
    by (simp_all add: f64_neg_def f64_val_def f64_isfinite_def)
qed

lemma f64_le_zero_val: "f64_isfinite x \<Longrightarrow> f64_le f64_zero x \<longleftrightarrow> 0 \<le> f64_val x"
  using f64_lt_val [of x f64_zero]
  by (auto simp: f64_le_iff_not_lt f64_finite_not_nan not_less)

lemma f64_trunc_bounds:
  assumes "f64_isfinite x"
  shows "0 < f64_val x \<Longrightarrow> of_int i \<le> f64_val x \<Longrightarrow> f64_val x < of_int i + 1 \<Longrightarrow> f64_trunc x = i"
    and "f64_val x < 0 \<Longrightarrow> f64_val x \<le> of_int i \<Longrightarrow> of_int i - 1 < f64_val x \<Longrightarrow> f64_trunc x = i"
proof -
  show "f64_trunc x = i" if *: "0 < f64_val x" "of_int i \<le> f64_val x" "f64_val x < of_int i + 1"
  proof -
    have "\<not> f64_sign x" using f64_val_signed [of x] *(1) by auto
    moreover have "\<lfloor>f64_val x\<rfloor> = i" using *(2,3) by (intro floor_unique) auto
    ultimately show ?thesis using *(1) by (simp add: f64_trunc_def)
  qed
  show "f64_trunc x = i" if *: "f64_val x < 0" "f64_val x \<le> of_int i" "of_int i - 1 < f64_val x"
  proof -
    have "f64_sign x" using f64_val_signed [of x] *(1) by (auto split: if_splits)
    moreover have "\<lfloor>- f64_val x\<rfloor> = - i" using *(2,3) by (intro floor_unique) auto
    ultimately show ?thesis using *(1) by (simp add: f64_trunc_def)
  qed
qed

text \<open>
  Rounding half away from zero by adding or subtracting one half and truncating: a value that
  is within \<open>1/8\<close> of a 16-bit integer gives this integer.
\<close>

definition f64_half :: f64 where
  "f64_half = f64_of_rat (1 / 2)"

lemma f64_half_val: "f64_isfinite f64_half" "f64_val f64_half = 1 / 2"
proof -
  have m: "mag_val (1022 * 2 ^ 52) = 1 / 2"
    by (simp add: mag_val_def pow2_def Let_def)
  have "round_mag (1 / 2) = 1022 * 2 ^ 52"
    using round_mag_exact [of "1022 * 2 ^ 52"] unfolding m by (simp add: inf_mag_def)
  then show "f64_isfinite f64_half" "f64_val f64_half = 1 / 2"
    using m by (simp_all add: f64_half_def f64_of_rat_def f64_make_val inf_mag_def)
qed

lemma f64_round_half:
  fixes r :: int
  assumes "f64_isfinite e" and "\<bar>f64_val e - of_int r\<bar> \<le> 1 / 8" and "\<bar>r\<bar> \<le> 2 ^ 15"
  defines "t \<equiv> if f64_le f64_zero e then f64_add e f64_half else f64_sub e f64_half"
  shows "f64_isfinite t" and "f64_trunc t = r"
proof -
  have r: "\<bar>of_int r :: rat\<bar> \<le> 2 ^ 15"
    using assms(3) by (metis of_int_abs of_int_le_iff of_int_numeral of_int_power)
  have b: "f64_val e \<le> of_int r + 1 / 8" "of_int r - 1 / 8 \<le> f64_val e"
    "of_int r \<le> (32768 :: rat)" "- 32768 \<le> (of_int r :: rat)"
    using assms(2) r unfolding abs_le_iff by auto
  have p16: "pow2 16 = 65536" "pow2 (16 - 53) \<le> 1 / 8" by (simp_all add: pow2_def)
  have "f64_isfinite t \<and> f64_trunc t = r"
  proof (cases "0 \<le> f64_val e")
    case True
    then have t: "t = f64_add e f64_half" using assms(1) by (simp add: t_def f64_le_zero_val)
    have "\<bar>f64_val e + f64_val f64_half\<bar> \<le> pow2 16"
      unfolding p16 f64_half_val using b by linarith
    note err = f64_add_error [OF assms(1) f64_half_val(1) this, folded t, simplified]
    have "0 \<le> r"
    proof -
      have "- 1 < (of_int r :: rat)" using True b by linarith
      then show ?thesis by linarith
    qed
    have "\<bar>f64_val t - (f64_val e + 1 / 2)\<bar> \<le> 1 / 8"
      using err(2) p16(2) by (simp add: f64_half_val)
    with b have "of_int r + 1 / 4 \<le> f64_val t" "f64_val t \<le> of_int r + 3 / 4" by linarith+
    moreover have "0 \<le> (of_int r :: rat)" using \<open>0 \<le> r\<close> by simp
    ultimately have "f64_trunc t = r"
      by (intro f64_trunc_bounds(1) [OF err(1)]) linarith+
    with err(1) show ?thesis by simp
  next
    case False
    then have t: "t = f64_add e (f64_neg f64_half)"
      using assms(1) by (simp add: t_def f64_le_zero_val f64_sub_def)
    have neg: "f64_isfinite (f64_neg f64_half)" "f64_val (f64_neg f64_half) = - 1 / 2"
      by (simp_all add: f64_neg_val f64_half_val)
    have "\<bar>f64_val e + f64_val (f64_neg f64_half)\<bar> \<le> pow2 16"
      unfolding p16 neg using b by linarith
    note err = f64_add_error [OF assms(1) neg(1) this, folded t, simplified]
    have "r \<le> 0"
    proof -
      have "(of_int r :: rat) < 1" using False b by linarith
      then show ?thesis by linarith
    qed
    have "\<bar>f64_val t - (f64_val e - 1 / 2)\<bar> \<le> 1 / 8"
      using err(2) p16(2) by (simp add: neg)
    with b have "of_int r - 3 / 4 \<le> f64_val t" "f64_val t \<le> of_int r - 1 / 4" by linarith+
    moreover have "(of_int r :: rat) \<le> 0" using \<open>r \<le> 0\<close> by simp
    ultimately have "f64_trunc t = r"
      by (intro f64_trunc_bounds(2) [OF err(1)]) linarith+
    with err(1) show ?thesis by simp
  qed
  then show "f64_isfinite t" "f64_trunc t = r" by simp_all
qed

end
