(* ===== verification/C_Stdlib.thy ===== *)
theory C_Stdlib
  imports C_Float64
begin

text \<open>
  The part of the C library the sources rely on, for an LP64 platform in the \<open>C\<close> locale:
  bytes and zero-terminated strings, \<open>fgets\<close> with its end-of-file flag, \<open>strtoul\<close>,
  \<open>strtol\<close> and \<open>strtod\<close> with their end pointer and \<open>ERANGE\<close> report, and the
  \<open>snprintf\<close> conversions \<open>%s\<close>, \<open>%u\<close> and \<open>%.3f\<close>.

  A C string is the list of its bytes without the terminator, so a pointer into a string is
  the suffix it points to: a conversion returns the unread suffix, and \<open>end == text\<close> is
  equality of that suffix with the text.  \<open>snprintf\<close> returns the length of the complete
  output and the truncated content of the buffer.
\<close>

section \<open>Bytes and strings\<close>

abbreviation NUL :: char where "NUL \<equiv> CHR 0x00"
abbreviation LF :: char where "LF \<equiv> CHR 0x0A"
abbreviation CR :: char where "CR \<equiv> CHR 0x0D"

text \<open>The string a byte buffer holds: what stands before the first zero byte.\<close>

definition cstr :: "string \<Rightarrow> string" where
  "cstr bs = takeWhile (\<lambda>c. c \<noteq> NUL) bs"

text \<open>A string that fits a \<open>char[n]\<close> member.\<close>

definition fits :: "nat \<Rightarrow> string \<Rightarrow> bool" where
  "fits n s = (length s < n \<and> NUL \<notin> set s)"

definition isspace :: "char \<Rightarrow> bool" where
  "isspace c = (c \<in> set [CHR '' '', CHR 0x09, LF, CHR 0x0B, CHR 0x0C, CR])"

definition is_digit :: "char \<Rightarrow> bool" where
  "is_digit c = (48 \<le> (of_char c :: nat) \<and> (of_char c :: nat) \<le> 57)"

definition digit_val :: "char \<Rightarrow> nat" where
  "digit_val c = of_char c - 48"

definition char_lower :: "char \<Rightarrow> char" where
  "char_lower c = (if 65 \<le> (of_char c :: nat) \<and> (of_char c :: nat) \<le> 90
                   then char_of (of_char c + 32 :: nat) else c)"

definition is_hex :: "char \<Rightarrow> bool" where
  "is_hex c = (is_digit c \<or> (97 \<le> (of_char (char_lower c) :: nat) \<and> (of_char (char_lower c) :: nat) \<le> 102))"

definition hex_val :: "char \<Rightarrow> nat" where
  "hex_val c = (if is_digit c then digit_val c else of_char (char_lower c) - 87)"

definition digits_val :: "string \<Rightarrow> nat" where
  "digits_val ds = foldl (\<lambda>a c. a * 10 + digit_val c) 0 ds"

definition hex_digits_val :: "string \<Rightarrow> nat" where
  "hex_digits_val ds = foldl (\<lambda>a c. a * 16 + hex_val c) 0 ds"

text \<open>An optional sign.\<close>

fun c_sign :: "string \<Rightarrow> bool \<times> string" where
  "c_sign [] = (False, [])"
| "c_sign (c # s) = (if c = CHR ''-'' then (True, s) else if c = CHR ''+'' then (False, s) else (False, c # s))"

section \<open>Reading a stream by lines\<close>

text \<open>
  \<open>read_upto k s\<close> is what \<open>fgets\<close> with a buffer of \<open>k + 1\<close> bytes takes from the stream:
  the bytes up to and with a line feed, at most \<open>k\<close>; the flag says that it met the end of
  the file, which is what \<open>feof\<close> reports afterwards.
\<close>

fun read_upto :: "nat \<Rightarrow> string \<Rightarrow> string \<times> string \<times> bool" where
  "read_upto 0 s = ([], s, False)"
| "read_upto (Suc k) [] = ([], [], True)"
| "read_upto (Suc k) (c # s) =
     (if c = LF then ([c], s, False)
      else let (line, rest, eof) = read_upto k s in (c # line, rest, eof))"

lemma read_upto_code [code]:
  "read_upto k s =
     (if k = 0 then ([], s, False)
      else case s of
        [] \<Rightarrow> ([], [], True)
      | c # s' \<Rightarrow>
          (if c = LF then ([c], s', False)
           else let (line, rest, eof) = read_upto (k - 1) s' in (c # line, rest, eof)))"
  by (cases k; cases s) simp_all

definition fgets :: "nat \<Rightarrow> string \<Rightarrow> (string \<times> string \<times> bool) option" where
  "fgets n s = (if s = [] then None else Some (read_upto (n - 1) s))"

section \<open>Text to number\<close>

definition ULONG_MAX :: nat where
  "ULONG_MAX = 18446744073709551615"

definition strtoul :: "string \<Rightarrow> u64 \<times> string \<times> bool" where
  "strtoul text =
     (let (neg, s) = c_sign (dropWhile isspace text);
          ds = takeWhile is_digit s;
          rest = dropWhile is_digit s;
          n = digits_val ds
      in if ds = [] then (0, text, False)
         else if n > ULONG_MAX then (of_nat ULONG_MAX, rest, True)
         else (if neg then - of_nat n else of_nat n, rest, False))"

definition strtol :: "string \<Rightarrow> int \<times> string \<times> bool" where
  "strtol text =
     (let (neg, s) = c_sign (dropWhile isspace text);
          ds = takeWhile is_digit s;
          rest = dropWhile is_digit s;
          n = (if neg then - int (digits_val ds) else int (digits_val ds))
      in if ds = [] then (0, text, False)
         else if n > 9223372036854775807 then (9223372036854775807, rest, True)
         else if n < - 9223372036854775808 then (- 9223372036854775808, rest, True)
         else (n, rest, False))"

definition rat_powi :: "rat \<Rightarrow> int \<Rightarrow> rat" where
  "rat_powi b e = (if 0 \<le> e then b ^ nat e else 1 / b ^ nat (- e))"

text \<open>
  The exact value is rounded once.  \<open>ERANGE\<close> is reported on overflow, and on underflow when
  the exact value is below the normal range and not representable (as the GNU library does).
\<close>

definition strtod_result :: "bool \<Rightarrow> rat \<Rightarrow> f64 \<times> bool" where
  "strtod_result neg r =
     (let m = round_mag r
      in (f64_make neg m, m = inf_mag \<or> (0 < r \<and> expo r < - 1022 \<and> mag_val m \<noteq> r)))"

definition ci_prefix :: "string \<Rightarrow> string \<Rightarrow> bool" where
  "ci_prefix p s = (map char_lower (take (length p) s) = p)"

text \<open>An exponent part introduced by \<open>c\<close> (in lower case); it is taken only with digits.\<close>

definition exponent_part :: "char \<Rightarrow> string \<Rightarrow> int \<times> string" where
  "exponent_part c s =
     (case s of
        [] \<Rightarrow> (0, s)
      | x # s1 \<Rightarrow>
          if char_lower x = c
          then let (neg, s2) = c_sign s1; ds = takeWhile is_digit s2
               in if ds = [] then (0, s)
                  else (if neg then - int (digits_val ds) else int (digits_val ds),
                        dropWhile is_digit s2)
          else (0, s))"

text \<open>The digits before and after an optional radix point.\<close>

definition fraction_part :: "(char \<Rightarrow> bool) \<Rightarrow> string \<Rightarrow> string \<times> string" where
  "fraction_part p s =
     (case s of
        [] \<Rightarrow> ([], [])
      | x # s1 \<Rightarrow> if x = CHR ''.'' then (takeWhile p s1, dropWhile p s1) else ([], s))"

definition strtod_dec :: "bool \<Rightarrow> string \<Rightarrow> (f64 \<times> string \<times> bool) option" where
  "strtod_dec neg s =
     (let ip = takeWhile is_digit s;
          (fp, s1) = fraction_part is_digit (dropWhile is_digit s);
          (e, rest) = exponent_part (CHR ''e'') s1;
          (x, range) = strtod_result neg (of_nat (digits_val (ip @ fp)) * rat_powi 10 (e - int (length fp)))
      in if ip = [] \<and> fp = [] then None else Some (x, rest, range))"

definition strtod_hex :: "bool \<Rightarrow> string \<Rightarrow> (f64 \<times> string \<times> bool) option" where
  "strtod_hex neg s =
     (let ip = takeWhile is_hex s;
          (fp, s1) = fraction_part is_hex (dropWhile is_hex s);
          (e, rest) = exponent_part (CHR ''p'') s1;
          (x, range) = strtod_result neg (of_nat (hex_digits_val (ip @ fp)) * pow2 (e - 4 * int (length fp)))
      in if ip = [] \<and> fp = [] then None else Some (x, rest, range))"

text \<open>The optional \<open>(...)\<close> after \<open>nan\<close>.\<close>

definition nan_suffix :: "string \<Rightarrow> string" where
  "nan_suffix s =
     (case s of
        [] \<Rightarrow> s
      | x # s1 \<Rightarrow>
          if x = CHR ''(''
          then (case dropWhile (\<lambda>c. is_digit c \<or> c = CHR ''_'' \<or>
                       (97 \<le> (of_char (char_lower c) :: nat) \<and> (of_char (char_lower c) :: nat) \<le> 122)) s1 of
                  [] \<Rightarrow> s
                | y # s2 \<Rightarrow> if y = CHR '')'' then s2 else s)
          else s)"

definition strtod :: "string \<Rightarrow> f64 \<times> string \<times> bool" where
  "strtod text =
     (let (neg, s) = c_sign (dropWhile isspace text);
          nothing = (f64_zero, text, False)
      in if ci_prefix ''infinity'' s then (f64_inf neg, drop 8 s, False)
         else if ci_prefix ''inf'' s then (f64_inf neg, drop 3 s, False)
         else if ci_prefix ''nan'' s then (f64_nan, nan_suffix (drop 3 s), False)
         else if ci_prefix ''0x'' s \<and> strtod_hex neg (drop 2 s) \<noteq> None
           then the (strtod_hex neg (drop 2 s))
         else (case strtod_dec neg s of None \<Rightarrow> nothing | Some r \<Rightarrow> r))"

section \<open>Formatted output\<close>

definition snprintf :: "nat \<Rightarrow> string \<Rightarrow> nat \<times> string" where
  "snprintf n full = (length full, take (n - 1) full)"

definition digit_char :: "nat \<Rightarrow> char" where
  "digit_char d = char_of (48 + d)"

text \<open>\<open>%u\<close> and the integer part of \<open>%.3f\<close>.\<close>

fun fmt_u :: "nat \<Rightarrow> string" where
  "fmt_u n = (if n < 10 then [digit_char n] else fmt_u (n div 10) @ [digit_char (n mod 10)])"

declare fmt_u.simps [simp del]

definition fmt_3f :: "f64 \<Rightarrow> string" where
  "fmt_3f x =
     (let sgn = (if f64_sign x then ''-'' else []) in
      if f64_isnan x then sgn @ ''nan''
      else if f64_isinf x then sgn @ ''inf''
      else let k = rne (\<bar>f64_val x\<bar> * 1000); f = k mod 1000
           in sgn @ fmt_u (k div 1000) @ ''.'' @
              [digit_char (f div 100), digit_char (f div 10 mod 10), digit_char (f mod 10)])"

section \<open>Lemmas on strings and streams\<close>

lemma cstr_no_nul [simp]: "NUL \<notin> set (cstr s)"
  by (auto simp: cstr_def dest: set_takeWhileD)

lemma length_cstr_le: "length (cstr s) \<le> length s"
  by (simp add: cstr_def length_takeWhile_le)

lemma cstr_id: "NUL \<notin> set s \<Longrightarrow> cstr s = s"
  unfolding cstr_def by (subst takeWhile_eq_all_conv) auto

lemma fits_nil [simp]: "0 < n \<Longrightarrow> fits n []"
  by (simp add: fits_def)

lemma read_upto_append:
  "read_upto k s = (line, rest, eof) \<Longrightarrow> s = line @ rest"
  by (induction k s arbitrary: line rest eof rule: read_upto.induct)
     (auto split: if_splits prod.splits)

lemma read_upto_length:
  "read_upto k s = (line, rest, eof) \<Longrightarrow> length line \<le> k"
  by (induction k s arbitrary: line rest eof rule: read_upto.induct)
     (auto split: if_splits prod.splits)

lemma read_upto_eof:
  "read_upto k s = (line, rest, True) \<Longrightarrow> rest = [] \<and> length line < k"
  by (induction k s arbitrary: line rest rule: read_upto.induct)
     (fastforce split: if_splits prod.splits)+

lemma fgets_shorter:
  assumes "fgets n s = Some (line, rest, eof)" and "1 < n"
  shows "length rest < length s"
proof -
  obtain k where k: "n - 1 = Suc k" using assms(2) by (metis Suc_diff_Suc diff_zero diff_Suc_1 One_nat_def)
  obtain c t where s: "s = c # t" using assms(1) by (cases s) (auto simp: fgets_def)
  have "line \<noteq> []"
    using assms(1) k by (auto simp: fgets_def s split: if_splits prod.splits)
  moreover have "s = line @ rest"
    using assms(1) by (auto simp: fgets_def split: if_splits intro: read_upto_append)
  ultimately show ?thesis by (cases line) auto
qed

text \<open>A line of at most \<open>k\<close> bytes that ends in a line feed is read whole.\<close>

lemma read_upto_line:
  assumes "LF \<notin> set l" and "length l < k"
  shows "read_upto k (l @ LF # s) = (l @ [LF], s, False)"
  using assms
proof (induction l arbitrary: k)
  case Nil
  then obtain j where "k = Suc j" by (metis list.size(3) not0_implies_Suc not_less_zero)
  then show ?case by simp
next
  case (Cons c l)
  then obtain j where "k = Suc j" by (metis Suc_lessE length_Cons)
  with Cons show ?case by auto
qed

section \<open>Lemmas on numbers\<close>

lemma digit_char_props:
  assumes "d < 10"
  shows "is_digit (digit_char d)" and "digit_val (digit_char d) = d"
  using assms by (simp_all add: is_digit_def digit_val_def digit_char_def)

lemma digits_val_snoc: "digits_val (ds @ [c]) = digits_val ds * 10 + digit_val c"
  by (simp add: digits_val_def)

lemma digits_val_fmt_u [simp]: "digits_val (fmt_u n) = n"
proof (induction n rule: fmt_u.induct)
  case (1 n)
  show ?case
  proof (cases "n < 10")
    case True
    then show ?thesis by (simp add: fmt_u.simps [of n] digits_val_def digit_char_props)
  next
    case False
    then have "fmt_u n = fmt_u (n div 10) @ [digit_char (n mod 10)]"
      by (simp add: fmt_u.simps [of n])
    with False "1.IH" show ?thesis by (simp add: digits_val_snoc digit_char_props)
  qed
qed

lemma fmt_u_digits: "c \<in> set (fmt_u n) \<Longrightarrow> is_digit c"
proof (induction n rule: fmt_u.induct)
  case (1 n)
  then show ?case
    by (cases "n < 10") (auto simp: fmt_u.simps [of n] digit_char_props)
qed

lemma fmt_u_nonempty [simp]: "fmt_u n \<noteq> []"
  by (subst fmt_u.simps) simp

lemma fmt_u_inj: "fmt_u a = fmt_u b \<longleftrightarrow> a = b"
  by (metis digits_val_fmt_u)

lemma length_fmt_u_le: "n < 10 ^ k \<Longrightarrow> 0 < k \<Longrightarrow> length (fmt_u n) \<le> k"
proof (induction n arbitrary: k rule: fmt_u.induct)
  case (1 n)
  show ?case
  proof (cases "n < 10")
    case True
    with "1.prems" show ?thesis by (simp add: fmt_u.simps [of n])
  next
    case False
    with "1.prems" obtain j where k: "k = Suc j" "0 < j"
      by (metis One_nat_def Suc_pred gr0I power_one_right)
    with "1.prems"(1) have "n div 10 < 10 ^ j" by (simp add: less_mult_imp_div_less mult.commute)
    with False "1.IH" k have "length (fmt_u (n div 10)) \<le> j" by blast
    with False k show ?thesis by (simp add: fmt_u.simps [of n])
  qed
qed

lemma length_fmt_u_ge: "10 ^ k \<le> n \<Longrightarrow> k < length (fmt_u n)"
proof (induction n arbitrary: k rule: fmt_u.induct)
  case (1 n)
  show ?case
  proof (cases k)
    case 0
    then show ?thesis by (simp add: length_greater_0_conv)
  next
    case (Suc j)
    with "1.prems" have n: "\<not> n < 10" "10 ^ j \<le> n div 10"
      by (auto simp: div_le_mono less_eq_div_iff_mult_less_eq mult.commute)
         (metis One_nat_def le_trans mult_le_mono2 nat_mult_1_right not_le one_le_numeral one_le_power)
    with "1.IH" have "j < length (fmt_u (n div 10))" by blast
    with n(1) Suc show ?thesis by (simp add: fmt_u.simps [of n])
  qed
qed

lemma isspace_not_digit: "is_digit c \<Longrightarrow> \<not> isspace c"
  by (auto simp: is_digit_def isspace_def)

lemma c_sign_digit: "is_digit c \<Longrightarrow> c_sign (c # s) = (False, c # s)"
  by (auto simp: is_digit_def)

text \<open>A text that starts with a digit is read from its first byte, without a sign.\<close>

lemma conversion_start:
  assumes "is_digit c"
  shows "c_sign (dropWhile isspace (c # s)) = (False, c # s)"
  using assms by (simp add: isspace_not_digit c_sign_digit del: c_sign.simps)

lemma fmt_u_scan:
  "c_sign (dropWhile isspace (fmt_u n)) = (False, fmt_u n)"
  "takeWhile is_digit (fmt_u n) = fmt_u n" "dropWhile is_digit (fmt_u n) = []"
proof -
  obtain c s where cs: "fmt_u n = c # s" by (cases "fmt_u n") auto
  have "is_digit c" using fmt_u_digits [of c n] cs by simp
  then show "c_sign (dropWhile isspace (fmt_u n)) = (False, fmt_u n)"
    unfolding cs by (rule conversion_start)
  show "takeWhile is_digit (fmt_u n) = fmt_u n" "dropWhile is_digit (fmt_u n) = []"
    using fmt_u_digits by (auto simp: takeWhile_eq_all_conv dropWhile_eq_Nil_conv)
qed

lemma strtoul_fmt_u:
  "strtoul (fmt_u n) =
     (if n \<le> ULONG_MAX then (of_nat n, [], False) else (of_nat ULONG_MAX, [], True))"
  by (simp add: strtoul_def Let_def fmt_u_scan)

lemma strtoul_minus_fmt_u:
  assumes "n \<le> ULONG_MAX"
  shows "strtoul (CHR ''-'' # fmt_u n) = (- of_nat n, [], False)"
proof -
  have "c_sign (dropWhile isspace (CHR ''-'' # fmt_u n)) = (True, fmt_u n)"
    by (simp add: isspace_def)
  with assms show ?thesis by (simp add: strtoul_def Let_def fmt_u_scan(2,3))
qed

text \<open>The length of a \<open>%.3f\<close> field grows with the number of digits before the point.\<close>

lemma fmt_3f_length_le:
  assumes "\<not> f64_isfinite x \<or> \<bar>f64_val x\<bar> \<le> 10 ^ k"
  shows "length (fmt_3f x) \<le> k + 6"
proof (cases "f64_isfinite x")
  case False
  then have "f64_isnan x \<or> f64_isinf x" using f64_class_cases [of x] by blast
  then show ?thesis by (auto simp: fmt_3f_def)
next
  case True
  let ?k = "rne (\<bar>f64_val x\<bar> * 1000)"
  have "\<bar>f64_val x\<bar> * 1000 \<le> of_nat (10 ^ k * 1000)"
    using assms True by simp
  from rne_mono_bounds(2) [OF _ this, of 0] have "?k \<le> 10 ^ k * 1000" by simp
  then have "?k div 1000 \<le> 10 ^ k" by (metis div_le_mono nonzero_mult_div_cancel_right zero_neq_numeral)
  then have "?k div 1000 < 10 ^ Suc k"
    by (rule le_less_trans) (simp add: power_strict_increasing)
  from length_fmt_u_le [OF this] have "length (fmt_u (?k div 1000)) \<le> Suc k" by simp
  with True show ?thesis
    by (simp add: fmt_3f_def f64_finite_not_nan f64_finite_not_inf Let_def)
qed

lemma fmt_3f_length_ge:
  assumes "f64_isfinite x" and "10 ^ k \<le> \<bar>f64_val x\<bar>"
  shows "k + 5 \<le> length (fmt_3f x)"
proof -
  let ?k = "rne (\<bar>f64_val x\<bar> * 1000)"
  have lo: "of_nat (10 ^ k * 1000) \<le> \<bar>f64_val x\<bar> * 1000" using assms(2) by simp
  have "\<bar>f64_val x\<bar> * 1000 \<le> of_nat (nat \<lceil>\<bar>f64_val x\<bar> * 1000\<rceil>)"
    by (simp add: of_nat_nat)
  from rne_mono_bounds(1) [OF lo this] have "10 ^ k * 1000 \<le> ?k" .
  then have "10 ^ k \<le> ?k div 1000" by (metis div_le_mono nonzero_mult_div_cancel_right zero_neq_numeral)
  from length_fmt_u_ge [OF this] assms(1) show ?thesis
    by (simp add: fmt_3f_def f64_finite_not_nan f64_finite_not_inf Let_def)
qed

text \<open>Whole numbers print with three zeros.\<close>

lemma digit_char_0: "digit_char 0 = CHR ''0''"
  by code_simp

lemma fmt_3f_of_int:
  assumes "0 \<le> i" and "i \<le> 2 ^ 53"
  shows "fmt_3f (f64_of_int i) = fmt_u (nat i) @ ''.000''"
proof -
  have i: "\<bar>i\<bar> \<le> 2 ^ 53" using assms by simp
  have s: "\<not> f64_sign (f64_of_int i)" using assms by (simp add: f64_of_int_def f64_of_rat_def)
  have "\<bar>f64_val (f64_of_int i)\<bar> * 1000 = of_nat (nat i * 1000)"
    using assms(1) by (simp add: f64_of_int_exact(2) [OF i])
  then have k: "rne (\<bar>f64_val (f64_of_int i)\<bar> * 1000) = nat i * 1000" by (simp only: rne_of_nat)
  show ?thesis
    using f64_of_int_exact(1) [OF i] s
    by (simp add: fmt_3f_def f64_finite_not_nan f64_finite_not_inf Let_def k) (simp add: digit_char_0)
qed

end
