(* ===== verification/Edge_Types.thy ===== *)
theory Edge_Types
  imports C_Stdlib
begin

text \<open>
  The shared in-memory model (\<open>include/edge_types.h\<close>, \<open>include/edge_limits.h\<close>) and the
  value conversions (\<open>include/edge_value.h\<close>).

  A fixed array with its count is the list of the used elements; a pointer into an array
  of the model is the index it points to (\<open>None\<close> for a null pointer); an index field keeps its
  32-bit width with \<open>edge_invalid_index\<close>.  An enumeration field is an option: \<open>None\<close> is the
  value 0 that \<open>memset\<close> leaves and that no enumerator has.  The flags \<open>writable\<close>,
  \<open>pending_write\<close> and \<open>active\<close>, which the code only sets to 0 or 1, are booleans.  The
  union \<open>EdgeValue\<close> is its eight bytes as a little-endian word, and a member access reads or
  replaces the low bytes of its width.

  A conversion of a double to an integer type that cannot hold its integral part is undefined
  in C.  \<open>c_impl\<close> stands for what the compiled program does there: an arbitrary value for each
  target type.  Results that do not depend on it are the defined ones.
\<close>

section \<open>Limits\<close>

definition EDGE_MAX_ID_LEN :: nat where "EDGE_MAX_ID_LEN = 64"
definition EDGE_MAX_NAME_LEN :: nat where "EDGE_MAX_NAME_LEN = 128"
definition EDGE_MAX_LINE_LEN :: nat where "EDGE_MAX_LINE_LEN = 512"
definition EDGE_MAX_ASSETS :: nat where "EDGE_MAX_ASSETS = 1024"
definition EDGE_MAX_NODES :: nat where "EDGE_MAX_NODES = 65536"
definition EDGE_MAX_EVENTS :: nat where "EDGE_MAX_EVENTS = 4096"
definition edge_invalid_index :: u32 where "edge_invalid_index = 4294967295"

lemmas edge_limits =
  EDGE_MAX_ID_LEN_def EDGE_MAX_NAME_LEN_def EDGE_MAX_LINE_LEN_def
  EDGE_MAX_ASSETS_def EDGE_MAX_NODES_def EDGE_MAX_EVENTS_def

section \<open>Types\<close>

datatype EdgeStatus = EDGE_STATUS_OK | EDGE_STATUS_ERROR | EDGE_STATUS_LIMIT | EDGE_STATUS_INVALID

datatype EdgeDataType =
  EDGE_DATA_BOOL | EDGE_DATA_INT16 | EDGE_DATA_INT32 | EDGE_DATA_UINT32 | EDGE_DATA_DOUBLE

datatype EdgeEventCondition = EDGE_EVENT_GREATER_THAN | EDGE_EVENT_LESS_THAN

type_synonym EdgeValue = "64 word"

record EdgeNode =
  n_id :: string
  n_name :: string
  n_asset_id :: string
  n_asset_index :: u32
  n_asset :: "nat option"
  n_data_type :: "EdgeDataType option"
  n_writable :: bool
  n_modbus_unit :: u16
  n_modbus_register :: u32
  n_scale :: f64
  n_value :: EdgeValue
  n_pending_write :: bool

record EdgeAsset =
  a_id :: string
  a_type :: string
  a_name :: string
  a_parent_id :: string
  a_parent_index :: u32
  a_parent :: "nat option"
  a_first_node_index :: u32
  a_node_count :: u32

record EdgeEvent =
  e_id :: string
  e_asset_id :: string
  e_source_node_id :: string
  e_asset_index :: u32
  e_source_node_index :: u32
  e_asset :: "nat option"
  e_source_node :: "nat option"
  e_condition :: "EdgeEventCondition option"
  e_threshold :: f64
  e_severity :: u16
  e_active :: bool

record EdgeModel =
  m_id :: string
  m_name :: string
  m_assets :: "EdgeAsset list"
  m_nodes :: "EdgeNode list"
  m_events :: "EdgeEvent list"

text \<open>What \<open>memset(\<dots>, 0, \<dots>)\<close> leaves.\<close>

definition zero_asset :: EdgeAsset where
  "zero_asset = \<lparr>a_id = [], a_type = [], a_name = [], a_parent_id = [], a_parent_index = 0,
     a_parent = None, a_first_node_index = 0, a_node_count = 0\<rparr>"

definition zero_node :: EdgeNode where
  "zero_node = \<lparr>n_id = [], n_name = [], n_asset_id = [], n_asset_index = 0, n_asset = None,
     n_data_type = None, n_writable = False, n_modbus_unit = 0, n_modbus_register = 0,
     n_scale = 0, n_value = 0, n_pending_write = False\<rparr>"

definition zero_event :: EdgeEvent where
  "zero_event = \<lparr>e_id = [], e_asset_id = [], e_source_node_id = [], e_asset_index = 0,
     e_source_node_index = 0, e_asset = None, e_source_node = None, e_condition = None,
     e_threshold = 0, e_severity = 0, e_active = False\<rparr>"

definition zero_model :: EdgeModel where
  "zero_model = \<lparr>m_id = [], m_name = [], m_assets = [], m_nodes = [], m_events = []\<rparr>"

section \<open>Union members\<close>

definition union_get :: "EdgeValue \<Rightarrow> 'a::len word" where
  "union_get v = ucast v"

definition union_put :: "'a::len word \<Rightarrow> EdgeValue \<Rightarrow> EdgeValue" where
  "union_put x v = (v AND NOT (mask LENGTH('a))) OR ucast x"

lemma union_get_put [simp]:
  assumes "LENGTH('a) \<le> 64"
  shows "union_get (union_put (x :: 'a::len word) v) = x"
proof (rule bit_word_eqI)
  fix n assume "n < LENGTH('a)"
  then show "bit (union_get (union_put x v) :: 'a word) n = bit x n"
    using assms by (auto simp: union_get_def union_put_def bit_simps)
qed

lemma union_put_double [simp]: "union_put (x :: 64 word) v = x"
  using union_get_put [of x v] by (simp add: union_get_def)

lemma union_get_zero [simp]: "union_get 0 = 0"
  by (simp add: union_get_def)

section \<open>Conversions of a node value\<close>

record c_impl =
  ub_int16 :: "f64 \<Rightarrow> u16"
  ub_int32 :: "f64 \<Rightarrow> u32"
  ub_uint32 :: "f64 \<Rightarrow> u32"
  ub_long :: "f64 \<Rightarrow> u64"

definition f64_to_int16 :: "c_impl \<Rightarrow> f64 \<Rightarrow> u16" where
  "f64_to_int16 cc d =
     (if f64_isfinite d \<and> - 32768 \<le> f64_trunc d \<and> f64_trunc d \<le> 32767
      then of_int (f64_trunc d) else ub_int16 cc d)"

definition f64_to_int32 :: "c_impl \<Rightarrow> f64 \<Rightarrow> u32" where
  "f64_to_int32 cc d =
     (if f64_isfinite d \<and> - 2147483648 \<le> f64_trunc d \<and> f64_trunc d \<le> 2147483647
      then of_int (f64_trunc d) else ub_int32 cc d)"

definition f64_to_uint32 :: "c_impl \<Rightarrow> f64 \<Rightarrow> u32" where
  "f64_to_uint32 cc d =
     (if f64_isfinite d \<and> 0 \<le> f64_trunc d \<and> f64_trunc d \<le> 4294967295
      then of_int (f64_trunc d) else ub_uint32 cc d)"

definition f64_to_long :: "c_impl \<Rightarrow> f64 \<Rightarrow> u64" where
  "f64_to_long cc d =
     (if f64_isfinite d \<and> - 9223372036854775808 \<le> f64_trunc d \<and> f64_trunc d \<le> 9223372036854775807
      then of_int (f64_trunc d) else ub_long cc d)"

definition edge_node_as_double :: "EdgeNode \<Rightarrow> f64" where
  "edge_node_as_double node =
     (case n_data_type node of
        Some EDGE_DATA_BOOL \<Rightarrow> f64_of_int (uint (union_get (n_value node) :: u8))
      | Some EDGE_DATA_INT16 \<Rightarrow> f64_of_int (sint (union_get (n_value node) :: u16))
      | Some EDGE_DATA_INT32 \<Rightarrow> f64_of_int (sint (union_get (n_value node) :: u32))
      | Some EDGE_DATA_UINT32 \<Rightarrow> f64_of_int (uint (union_get (n_value node) :: u32))
      | Some EDGE_DATA_DOUBLE \<Rightarrow> union_get (n_value node)
      | None \<Rightarrow> f64_zero)"

definition edge_node_set_from_double :: "c_impl \<Rightarrow> EdgeNode \<Rightarrow> f64 \<Rightarrow> EdgeNode" where
  "edge_node_set_from_double cc node d =
     (if \<not> f64_isfinite d
      then (if n_data_type node = Some EDGE_DATA_DOUBLE
            then node\<lparr>n_value := union_put d (n_value node)\<rparr>
            else node\<lparr>n_value := 0\<rparr>)
      else (case n_data_type node of
              Some EDGE_DATA_BOOL \<Rightarrow>
                node\<lparr>n_value := union_put (if f64_eq d f64_zero then 0 else 1 :: u8) (n_value node)\<rparr>
            | Some EDGE_DATA_INT16 \<Rightarrow> node\<lparr>n_value := union_put (f64_to_int16 cc d) (n_value node)\<rparr>
            | Some EDGE_DATA_INT32 \<Rightarrow> node\<lparr>n_value := union_put (f64_to_int32 cc d) (n_value node)\<rparr>
            | Some EDGE_DATA_UINT32 \<Rightarrow> node\<lparr>n_value := union_put (f64_to_uint32 cc d) (n_value node)\<rparr>
            | Some EDGE_DATA_DOUBLE \<Rightarrow> node\<lparr>n_value := union_put d (n_value node)\<rparr>
            | None \<Rightarrow> node))"

section \<open>The value of the member a data type selects\<close>

text \<open>
  \<open>node_member t v\<close> is the content of the union member that the code accesses for data type
  \<open>t\<close>, as a number read at its signedness (bits for a double).  \<open>bool_ok\<close> says that a boolean
  member holds 0 or 1, as every write of the program leaves it.
\<close>

definition node_member :: "EdgeDataType \<Rightarrow> EdgeValue \<Rightarrow> int" where
  "node_member t v =
     (case t of
        EDGE_DATA_BOOL \<Rightarrow> uint (union_get v :: u8)
      | EDGE_DATA_INT16 \<Rightarrow> sint (union_get v :: u16)
      | EDGE_DATA_INT32 \<Rightarrow> sint (union_get v :: u32)
      | EDGE_DATA_UINT32 \<Rightarrow> uint (union_get v :: u32)
      | EDGE_DATA_DOUBLE \<Rightarrow> uint v)"

definition bool_ok :: "EdgeNode \<Rightarrow> bool" where
  "bool_ok node =
     (n_data_type node = Some EDGE_DATA_BOOL \<longrightarrow>
        (union_get (n_value node) :: u8) \<in> {0, 1})"

lemma set_from_double_frame [frame_simps]:
  "n_id (edge_node_set_from_double cc n d) = n_id n"
  "n_name (edge_node_set_from_double cc n d) = n_name n"
  "n_asset_id (edge_node_set_from_double cc n d) = n_asset_id n"
  "n_asset_index (edge_node_set_from_double cc n d) = n_asset_index n"
  "n_asset (edge_node_set_from_double cc n d) = n_asset n"
  "n_data_type (edge_node_set_from_double cc n d) = n_data_type n"
  "n_writable (edge_node_set_from_double cc n d) = n_writable n"
  "n_modbus_unit (edge_node_set_from_double cc n d) = n_modbus_unit n"
  "n_modbus_register (edge_node_set_from_double cc n d) = n_modbus_register n"
  "n_scale (edge_node_set_from_double cc n d) = n_scale n"
  "n_pending_write (edge_node_set_from_double cc n d) = n_pending_write n"
  by (auto simp: edge_node_set_from_double_def split: option.splits EdgeDataType.splits)

lemma int_member_exact:
  "\<bar>sint (w16 :: u16)\<bar> \<le> 2 ^ 53" "\<bar>sint (w32 :: u32)\<bar> \<le> 2 ^ 53"
  "\<bar>uint (w32 :: u32)\<bar> \<le> 2 ^ 53" "\<bar>uint (w8 :: u8)\<bar> \<le> 2 ^ 53"
proof -
  have "uint w32 < 2 ^ 32" "0 \<le> uint w32" "uint w8 < 2 ^ 8" "0 \<le> uint w8"
    using unsigned_less [of w32] unsigned_less [of w8] by simp_all
  then show "\<bar>uint w32\<bar> \<le> 2 ^ 53" "\<bar>uint w8\<bar> \<le> 2 ^ 53" by simp_all
  show "\<bar>sint w16\<bar> \<le> 2 ^ 53" "\<bar>sint w32\<bar> \<le> 2 ^ 53"
    using sint_bounds16 [of w16] sint_bounds32 [of w32] by auto
qed

text \<open>Converting the value of an integer member to double and back is the identity on the member.\<close>

lemma f64_to_int16_exact: "f64_to_int16 cc (f64_of_int (sint w)) = w"
  using sint_bounds16 [of w] int_member_exact(1) [of w]
  by (simp add: f64_to_int16_def f64_of_int_exact f64_trunc_of_int)

lemma f64_to_int32_exact: "f64_to_int32 cc (f64_of_int (sint w)) = w"
  using sint_bounds32 [of w] int_member_exact(2) [of w]
  by (simp add: f64_to_int32_def f64_of_int_exact f64_trunc_of_int)

lemma f64_to_uint32_exact: "f64_to_uint32 cc (f64_of_int (uint w)) = w"
proof -
  have "uint w < 2 ^ 32" using unsigned_less [of w] by simp
  then show ?thesis
    using int_member_exact(3) [of w]
    by (simp add: f64_to_uint32_def f64_of_int_exact f64_trunc_of_int)
qed

lemma f64_of_int_eq_zero:
  assumes "\<bar>i\<bar> \<le> 2 ^ 53"
  shows "f64_eq (f64_of_int i) f64_zero \<longleftrightarrow> i = 0"
  using assms by (simp add: f64_eq_val f64_of_int_exact)

lemma value_roundtrip:
  assumes "n_data_type n = Some t" and "n_data_type n0 = Some t" and "bool_ok n"
  shows "node_member t (n_value (edge_node_set_from_double cc n0 (edge_node_as_double n))) =
         node_member t (n_value n)"
proof (cases t)
  case EDGE_DATA_BOOL
  then have "(union_get (n_value n) :: u8) = 0 \<or> (union_get (n_value n) :: u8) = 1"
    using assms(1,3) by (auto simp: bool_ok_def)
  moreover have "f64_isfinite (f64_of_int (uint (union_get (n_value n) :: u8)))"
    by (intro f64_of_int_exact(1) int_member_exact)
  ultimately show ?thesis
    using assms(1,2) EDGE_DATA_BOOL int_member_exact(4) [of "union_get (n_value n)"]
    by (auto simp: node_member_def edge_node_set_from_double_def edge_node_as_double_def
        f64_of_int_eq_zero)
next
  case EDGE_DATA_INT16
  have "f64_isfinite (f64_of_int (sint (union_get (n_value n) :: u16)))"
    by (intro f64_of_int_exact(1) int_member_exact)
  with assms(1,2) EDGE_DATA_INT16 show ?thesis
    by (simp add: node_member_def edge_node_set_from_double_def edge_node_as_double_def
        f64_to_int16_exact)
next
  case EDGE_DATA_INT32
  have "f64_isfinite (f64_of_int (sint (union_get (n_value n) :: u32)))"
    by (intro f64_of_int_exact(1) int_member_exact)
  with assms(1,2) EDGE_DATA_INT32 show ?thesis
    by (simp add: node_member_def edge_node_set_from_double_def edge_node_as_double_def
        f64_to_int32_exact)
next
  case EDGE_DATA_UINT32
  have "f64_isfinite (f64_of_int (uint (union_get (n_value n) :: u32)))"
    by (intro f64_of_int_exact(1) int_member_exact)
  with assms(1,2) EDGE_DATA_UINT32 show ?thesis
    by (simp add: node_member_def edge_node_set_from_double_def edge_node_as_double_def
        f64_to_uint32_exact)
next
  case EDGE_DATA_DOUBLE
  with assms(1,2) show ?thesis
    by (simp add: node_member_def edge_node_set_from_double_def edge_node_as_double_def
        union_get_def)
qed

text \<open>C30: what the persistence layer stores of a node restores the node's value exactly: for
  every data type, setting a node of that type from the double read off another node of the type
  gives the same member, whatever the old content and with no use of an undefined conversion.\<close>

theorem edge_value_roundtrip:
  assumes "n_data_type n = Some t" and "n_data_type n0 = Some t" and "bool_ok n"
  shows "node_member t (n_value (edge_node_set_from_double cc n0 (edge_node_as_double n))) =
         node_member t (n_value n)"
  by (rule value_roundtrip [OF assms])

theorem edge_value_roundtrip_witness:
  "\<forall>cc. node_member EDGE_DATA_INT16 (n_value (edge_node_set_from_double cc
      (zero_node\<lparr>n_data_type := Some EDGE_DATA_INT16, n_value := 77\<rparr>)
      (edge_node_as_double (zero_node\<lparr>n_data_type := Some EDGE_DATA_INT16, n_value := 65535\<rparr>)))) = - 1"
proof
  fix cc
  let ?n = "zero_node\<lparr>n_data_type := Some EDGE_DATA_INT16, n_value := 65535\<rparr>"
  have "node_member EDGE_DATA_INT16 (n_value ?n) = - 1" by code_simp
  with edge_value_roundtrip [of ?n EDGE_DATA_INT16 "zero_node\<lparr>n_data_type := Some EDGE_DATA_INT16, n_value := 77\<rparr>" cc]
  show "node_member EDGE_DATA_INT16 (n_value (edge_node_set_from_double cc
      (zero_node\<lparr>n_data_type := Some EDGE_DATA_INT16, n_value := 77\<rparr>) (edge_node_as_double ?n))) = - 1"
    by (simp add: bool_ok_def)
qed

end
