(* ===== verification/Edge_Server.thy ===== *)
theory Edge_Server
  imports Edge_Types
begin

text \<open>
  The lifecycle of the OPC UA server, \<open>src/edge_server.c\<close>.  \<open>ua_api\<close> collects the open62541
  functions that the gateway calls, as functions on a state \<open>'u\<close> of everything behind them; a
  \<open>UA_Server *\<close> is a \<open>'v option\<close> with \<open>None\<close> for the null pointer, a status code its 32-bit value, a
  string node id its namespace index and text, and a numeric node id its number in namespace 0.  A
  \<open>UA_Variant\<close> is its content: a scalar of one of the five types that the gateway uses, or anything
  else.  The value source of a variable is the index of the \<open>EdgeNode\<close> that its callbacks get as
  context, with the flag whether there is a write callback.
\<close>

datatype ua_nodeid = UaString u16 string | UaNumeric nat

datatype ua_data_type = UA_BOOLEAN | UA_INT16 | UA_INT32 | UA_UINT32 | UA_DOUBLE

datatype ua_variant = UaBoolean bool | UaInt16 u16 | UaInt32 u32 | UaUInt32 u32 | UaDouble f64 | UaOther

text \<open>A localized text is its locale and its text.\<close>

record ua_object_attr =
  oa_display_name :: "string \<times> string"
  oa_event_notifier :: u8

record ua_variable_attr =
  va_display_name :: "string \<times> string"
  va_data_type :: ua_data_type
  va_access_level :: u8
  va_value :: ua_variant

record ('v, 'u) ua_api =
  UA_ServerConfig_setMinimal :: "u16 \<Rightarrow> 'u \<Rightarrow> u32 \<times> 'u"
  UA_Server_newWithConfig :: "'u \<Rightarrow> 'v option \<times> 'u"
  UA_ServerConfig_clear :: "'u \<Rightarrow> 'u"
  UA_Server_run_startup :: "'v option \<Rightarrow> 'u \<Rightarrow> u32 \<times> 'u"
  UA_Server_run_shutdown :: "'v option \<Rightarrow> 'u \<Rightarrow> 'u"
  UA_Server_delete :: "'v option \<Rightarrow> 'u \<Rightarrow> 'u"
  UA_Server_addNamespace :: "'v option \<Rightarrow> string \<Rightarrow> 'u \<Rightarrow> u16 \<times> 'u"
  UA_Server_getNamespaceByName :: "'v option \<Rightarrow> string \<Rightarrow> u64 \<Rightarrow> 'u \<Rightarrow> u32 \<times> u64 \<times> 'u"
  UA_Server_addObjectNode :: "'v option \<Rightarrow> ua_nodeid \<Rightarrow> ua_nodeid \<Rightarrow> nat \<Rightarrow> u16 \<times> string \<Rightarrow> nat \<Rightarrow>
      ua_object_attr \<Rightarrow> 'u \<Rightarrow> u32 \<times> 'u"
  UA_Server_addCallbackValueSourceVariableNode :: "'v option \<Rightarrow> ua_nodeid \<Rightarrow> ua_nodeid \<Rightarrow> nat \<Rightarrow>
      u16 \<times> string \<Rightarrow> nat \<Rightarrow> ua_variable_attr \<Rightarrow> nat \<times> bool \<Rightarrow> 'u \<Rightarrow> u32 \<times> 'u"
  UA_KeyValueMap_setScalar :: "u16 \<times> string \<Rightarrow> string \<Rightarrow> 'u \<Rightarrow> u32 \<times> 'u"
  UA_KeyValueMap_clear :: "'u \<Rightarrow> 'u"
  UA_Server_createEvent :: "'v option \<Rightarrow> ua_nodeid \<Rightarrow> nat \<Rightarrow> u16 \<Rightarrow> string \<times> string \<Rightarrow> 'u \<Rightarrow> u32 \<times> 'u"
  UA_Server_addRepeatedCallback :: "'v option \<Rightarrow> f64 \<Rightarrow> 'u \<Rightarrow> u32 \<times> u64 \<times> 'u"
  UA_Server_removeCallback :: "'v option \<Rightarrow> u64 \<Rightarrow> 'u \<Rightarrow> 'u"

definition UA_STATUSCODE_GOOD :: u32 where "UA_STATUSCODE_GOOD = 0"

definition edge_namespace :: string where "edge_namespace = ''urn:twinedge:opcua-edge''"

text \<open>\<open>sv_model\<close> says whether the model pointer is set; the model itself is passed along.\<close>

record 'v EdgeServer =
  sv_ua :: "'v option"
  sv_model :: bool

definition edge_server_init :: "('v, 'u) ua_api \<Rightarrow> 'v EdgeServer \<Rightarrow> u16 \<Rightarrow> 'u \<Rightarrow> EdgeStatus \<times> 'v EdgeServer \<times> 'u" where
  "edge_server_init api server port u =
     (let (status, u1) = UA_ServerConfig_setMinimal api port u in
      if status \<noteq> UA_STATUSCODE_GOOD then (EDGE_STATUS_ERROR, server\<lparr>sv_ua := None, sv_model := False\<rparr>, u1)
      else let (ua, u2) = UA_Server_newWithConfig api u1 in
           if ua = None
           then (EDGE_STATUS_ERROR, server\<lparr>sv_ua := None, sv_model := False\<rparr>, UA_ServerConfig_clear api u2)
           else (EDGE_STATUS_OK, server\<lparr>sv_ua := ua, sv_model := True\<rparr>, u2))"

definition edge_server_clear :: "('v, 'u) ua_api \<Rightarrow> 'v EdgeServer \<Rightarrow> 'u \<Rightarrow> 'v EdgeServer \<times> 'u" where
  "edge_server_clear api server u =
     (if sv_ua server \<noteq> None
      then (server\<lparr>sv_ua := None, sv_model := False\<rparr>, UA_Server_delete api (sv_ua server) u)
      else (server\<lparr>sv_model := False\<rparr>, u))"

section \<open>A server in memory\<close>

text \<open>
  The address space as clients see it, and a server in memory that keeps it together with the events
  it was asked to create: it shows that the behaviour which later theorems ask of open62541 can be
  had, and serves to evaluate the model.
\<close>

datatype ua_entry =
  UaObjectEntry ua_nodeid "u16 \<times> string" ua_object_attr
| UaVariableEntry ua_nodeid "u16 \<times> string" ua_variable_attr "nat \<times> bool"

fun entry_parent :: "ua_entry \<Rightarrow> ua_nodeid" where
  "entry_parent (UaObjectEntry p q a) = p"
| "entry_parent (UaVariableEntry p q a s) = p"

type_synonym ua_space = "ua_nodeid \<rightharpoonup> ua_entry"
type_synonym ua_event = "ua_nodeid \<times> u16 \<times> string"

fun variant_has_type :: "ua_variant \<Rightarrow> ua_data_type \<Rightarrow> bool" where
  "variant_has_type (UaBoolean x) t = (t = UA_BOOLEAN)"
| "variant_has_type (UaInt16 x) t = (t = UA_INT16)"
| "variant_has_type (UaInt32 x) t = (t = UA_INT32)"
| "variant_has_type (UaUInt32 x) t = (t = UA_UINT32)"
| "variant_has_type (UaDouble x) t = (t = UA_DOUBLE)"
| "variant_has_type UaOther t = False"

record mem_server =
  ms_space :: ua_space
  ms_events :: "ua_event list"

definition mem_insert :: "bool \<Rightarrow> ua_nodeid \<Rightarrow> ua_entry \<Rightarrow> mem_server \<Rightarrow> u32 \<times> mem_server" where
  "mem_insert ok i e u =
     (if ok \<and> ms_space u i = None \<and> ms_space u (entry_parent e) \<noteq> None
      then (0, u\<lparr>ms_space := (ms_space u)(i \<mapsto> e)\<rparr>) else (0x805E0000, u))"

definition mem_ua :: "(unit, mem_server) ua_api" where
  "mem_ua = \<lparr>UA_ServerConfig_setMinimal = (\<lambda>port u. (0, u)), UA_Server_newWithConfig = (\<lambda>u. (Some (), u)),
     UA_ServerConfig_clear = (\<lambda>u. u), UA_Server_run_startup = (\<lambda>v u. (0, u)), UA_Server_run_shutdown = (\<lambda>v u. u),
     UA_Server_delete = (\<lambda>v u. u), UA_Server_addNamespace = (\<lambda>v uri u. (2, u)),
     UA_Server_getNamespaceByName = (\<lambda>v uri n u. (0, 2, u)),
     UA_Server_addObjectNode = (\<lambda>v i p r q t a. mem_insert True i (UaObjectEntry p q a)),
     UA_Server_addCallbackValueSourceVariableNode = (\<lambda>v i p r q t a src.
       mem_insert (variant_has_type (va_value a) (va_data_type a)) i (UaVariableEntry p q a src)),
     UA_KeyValueMap_setScalar = (\<lambda>k x u. (0, u)), UA_KeyValueMap_clear = (\<lambda>u. u),
     UA_Server_createEvent = (\<lambda>v i ty sev msg u. (0, u\<lparr>ms_events := ms_events u @ [(i, sev, snd msg)]\<rparr>)),
     UA_Server_addRepeatedCallback = (\<lambda>v ms u. (0, 7, u)), UA_Server_removeCallback = (\<lambda>v n u. u)\<rparr>"

text \<open>A fresh server: only the Objects folder of namespace 0.\<close>

definition mem_fresh :: mem_server where
  "mem_fresh = \<lparr>ms_space = [UaNumeric 85 \<mapsto> UaObjectEntry (UaNumeric 84) (0, ''Objects'')
     \<lparr>oa_display_name = (''en-US'', ''Objects''), oa_event_notifier = 0\<rparr>], ms_events = []\<rparr>"

definition mem_server_on :: "unit EdgeServer" where
  "mem_server_on = \<lparr>sv_ua = Some (), sv_model = True\<rparr>"

end
