(* ===== verification/Edge_Store.thy ===== *)
theory Edge_Store
  imports Edge_Types
begin

text \<open>
  The SQLite store of \<open>src/edge_store.c\<close> and the clock of \<open>src/edge_time.c\<close>.  \<open>sqlite_api\<close> collects
  the SQLite functions that the file calls, as functions on a state \<open>'d\<close> of everything behind them;
  a \<open>sqlite3 *\<close> is a \<open>'h option\<close> and a \<open>sqlite3_stmt *\<close> a \<open>'s option\<close>, with \<open>None\<close> for the null
  pointer.  The SQL texts are the literals of the source.
\<close>

section \<open>The library below\<close>

record ('h, 's, 'd) sqlite_api =
  sqlite3_open_v2 :: "string \<Rightarrow> int \<Rightarrow> 'd \<Rightarrow> int \<times> 'h option \<times> 'd"
  sqlite3_close :: "'h option \<Rightarrow> 'd \<Rightarrow> 'd"
  sqlite3_exec :: "'h option \<Rightarrow> string \<Rightarrow> 'd \<Rightarrow> int \<times> 'd"
  sqlite3_prepare_v2 :: "'h option \<Rightarrow> string \<Rightarrow> 'd \<Rightarrow> int \<times> 's option \<times> 'd"
  sqlite3_bind_text :: "'s option \<Rightarrow> nat \<Rightarrow> string \<Rightarrow> 'd \<Rightarrow> 'd"
  sqlite3_bind_int :: "'s option \<Rightarrow> nat \<Rightarrow> int \<Rightarrow> 'd \<Rightarrow> 'd"
  sqlite3_bind_int64 :: "'s option \<Rightarrow> nat \<Rightarrow> int \<Rightarrow> 'd \<Rightarrow> 'd"
  sqlite3_bind_double :: "'s option \<Rightarrow> nat \<Rightarrow> f64 \<Rightarrow> 'd \<Rightarrow> 'd"
  sqlite3_bind_null :: "'s option \<Rightarrow> nat \<Rightarrow> 'd \<Rightarrow> 'd"
  sqlite3_reset :: "'s option \<Rightarrow> 'd \<Rightarrow> 'd"
  sqlite3_clear_bindings :: "'s option \<Rightarrow> 'd \<Rightarrow> 'd"
  sqlite3_step :: "'s option \<Rightarrow> 'd \<Rightarrow> int \<times> 'd"
  sqlite3_finalize :: "'s option \<Rightarrow> 'd \<Rightarrow> 'd"
  sqlite3_column_int :: "'s option \<Rightarrow> nat \<Rightarrow> 'd \<Rightarrow> int"
  sqlite3_column_double :: "'s option \<Rightarrow> nat \<Rightarrow> 'd \<Rightarrow> f64"
  store_clock_gettime :: "'d \<Rightarrow> (u64 \<times> u64) \<times> 'd"

definition SQLITE_OK :: int where "SQLITE_OK = 0"
definition SQLITE_ROW :: int where "SQLITE_ROW = 100"
definition SQLITE_DONE :: int where "SQLITE_DONE = 101"
definition SQLITE_OPEN_READWRITE_CREATE :: int where "SQLITE_OPEN_READWRITE_CREATE = 6"

lemmas sqlite_codes = SQLITE_OK_def SQLITE_ROW_def SQLITE_DONE_def

section \<open>The clock\<close>

definition edge_time_now_ms :: "('w \<Rightarrow> (u64 \<times> u64) \<times> 'w) \<Rightarrow> 'w \<Rightarrow> u64 \<times> 'w" where
  "edge_time_now_ms clock w =
     (let ((tv_sec, tv_nsec), w') = clock w in (tv_sec * 1000 + tv_nsec div 1000000, w'))"

section \<open>SQL texts\<close>

definition schema_sql :: string where
  "schema_sql =
     ''CREATE TABLE IF NOT EXISTS plants ('' @
     ''id TEXT PRIMARY KEY,'' @
     ''name TEXT NOT NULL'' @
     '');'' @
     ''CREATE TABLE IF NOT EXISTS assets ('' @
     ''id TEXT PRIMARY KEY,'' @
     ''plant_id TEXT NOT NULL,'' @
     ''parent_id TEXT,'' @
     ''type TEXT NOT NULL,'' @
     ''name TEXT NOT NULL'' @
     '');'' @
     ''CREATE TABLE IF NOT EXISTS nodes ('' @
     ''node_key TEXT PRIMARY KEY,'' @
     ''id TEXT NOT NULL,'' @
     ''asset_id TEXT NOT NULL,'' @
     ''name TEXT NOT NULL,'' @
     ''data_type INTEGER NOT NULL,'' @
     ''writable INTEGER NOT NULL,'' @
     ''modbus_unit INTEGER,'' @
     ''modbus_register INTEGER,'' @
     ''scale REAL NOT NULL'' @
     '');'' @
     ''CREATE TABLE IF NOT EXISTS event_definitions ('' @
     ''id TEXT PRIMARY KEY,'' @
     ''asset_id TEXT NOT NULL,'' @
     ''source_node_key TEXT NOT NULL,'' @
     ''condition_type INTEGER NOT NULL,'' @
     ''threshold REAL NOT NULL,'' @
     ''severity INTEGER NOT NULL'' @
     '');'' @
     ''CREATE TABLE IF NOT EXISTS event_history ('' @
     ''id INTEGER PRIMARY KEY AUTOINCREMENT,'' @
     ''event_id TEXT NOT NULL,'' @
     ''value REAL NOT NULL,'' @
     ''threshold REAL NOT NULL,'' @
     ''severity INTEGER NOT NULL,'' @
     ''created_ms INTEGER NOT NULL'' @
     '');'' @
     ''CREATE TABLE IF NOT EXISTS latest_values ('' @
     ''node_id TEXT PRIMARY KEY,'' @
     ''double_value REAL NOT NULL,'' @
     ''updated_ms INTEGER NOT NULL'' @
     '');'' @
     ''CREATE TABLE IF NOT EXISTS benchmark_runs ('' @
     ''id INTEGER PRIMARY KEY AUTOINCREMENT,'' @
     ''benchmark_name TEXT NOT NULL,'' @
     ''tag_count INTEGER NOT NULL,'' @
     ''asset_count INTEGER NOT NULL,'' @
     ''event_count INTEGER NOT NULL,'' @
     ''duration_us INTEGER NOT NULL DEFAULT 0,'' @
     ''startup_us INTEGER NOT NULL DEFAULT 0,'' @
     ''reads_per_second INTEGER NOT NULL,'' @
     ''writes_per_second INTEGER NOT NULL,'' @
     ''events_per_second INTEGER NOT NULL,'' @
     ''avg_latency_us INTEGER NOT NULL DEFAULT 0,'' @
     ''p95_latency_us INTEGER NOT NULL DEFAULT 0,'' @
     ''p99_latency_us INTEGER NOT NULL DEFAULT 0,'' @
     ''cpu_percent_avg REAL NOT NULL DEFAULT 0.0,'' @
     ''rss_memory_kb_start INTEGER NOT NULL DEFAULT 0,'' @
     ''rss_memory_kb_peak INTEGER NOT NULL,'' @
     ''rss_memory_kb_end INTEGER NOT NULL DEFAULT 0,'' @
     ''error_count INTEGER NOT NULL DEFAULT 0,'' @
     ''created_utc TEXT NOT NULL DEFAULT CURRENT_TIMESTAMP'' @
     '');''"

definition migration_sql :: string where
  "migration_sql =
     ''ALTER TABLE benchmark_runs ADD COLUMN duration_us INTEGER NOT NULL DEFAULT 0;'' @
     ''ALTER TABLE benchmark_runs ADD COLUMN startup_us INTEGER NOT NULL DEFAULT 0;'' @
     ''ALTER TABLE benchmark_runs ADD COLUMN avg_latency_us INTEGER NOT NULL DEFAULT 0;'' @
     ''ALTER TABLE benchmark_runs ADD COLUMN p95_latency_us INTEGER NOT NULL DEFAULT 0;'' @
     ''ALTER TABLE benchmark_runs ADD COLUMN p99_latency_us INTEGER NOT NULL DEFAULT 0;'' @
     ''ALTER TABLE benchmark_runs ADD COLUMN cpu_percent_avg REAL NOT NULL DEFAULT 0.0;'' @
     ''ALTER TABLE benchmark_runs ADD COLUMN rss_memory_kb_start INTEGER NOT NULL DEFAULT 0;'' @
     ''ALTER TABLE benchmark_runs ADD COLUMN rss_memory_kb_end INTEGER NOT NULL DEFAULT 0;'' @
     ''ALTER TABLE benchmark_runs ADD COLUMN error_count INTEGER NOT NULL DEFAULT 0;''"

definition sql_upsert_plant :: string where
  "sql_upsert_plant =
     ''INSERT INTO plants (id, name) VALUES (?, ?) '' @
     ''ON CONFLICT(id) DO UPDATE SET name=excluded.name;''"

definition sql_upsert_asset :: string where
  "sql_upsert_asset =
     ''INSERT INTO assets (id, plant_id, parent_id, type, name) '' @
     ''VALUES (?, ?, ?, ?, ?) '' @
     ''ON CONFLICT(id) DO UPDATE SET '' @
     ''plant_id=excluded.plant_id,'' @
     ''parent_id=excluded.parent_id,'' @
     ''type=excluded.type,'' @
     ''name=excluded.name;''"

definition sql_upsert_node :: string where
  "sql_upsert_node =
     ''INSERT INTO nodes '' @
     ''(node_key, id, asset_id, name, data_type, writable, modbus_unit, modbus_register, scale) '' @
     ''VALUES (?, ?, ?, ?, ?, ?, ?, ?, ?) '' @
     ''ON CONFLICT(node_key) DO UPDATE SET '' @
     ''id=excluded.id,'' @
     ''asset_id=excluded.asset_id,'' @
     ''name=excluded.name,'' @
     ''data_type=excluded.data_type,'' @
     ''writable=excluded.writable,'' @
     ''modbus_unit=excluded.modbus_unit,'' @
     ''modbus_register=excluded.modbus_register,'' @
     ''scale=excluded.scale;''"

definition sql_upsert_event :: string where
  "sql_upsert_event =
     ''INSERT INTO event_definitions '' @
     ''(id, asset_id, source_node_key, condition_type, threshold, severity) '' @
     ''VALUES (?, ?, ?, ?, ?, ?) '' @
     ''ON CONFLICT(id) DO UPDATE SET '' @
     ''asset_id=excluded.asset_id,'' @
     ''source_node_key=excluded.source_node_key,'' @
     ''condition_type=excluded.condition_type,'' @
     ''threshold=excluded.threshold,'' @
     ''severity=excluded.severity;''"

definition sql_select_latest :: string where
  "sql_select_latest =
     ''SELECT double_value FROM latest_values WHERE node_id=?;''"

definition sql_upsert_latest :: string where
  "sql_upsert_latest =
     ''INSERT INTO latest_values (node_id, double_value, updated_ms) '' @
     ''VALUES (?, ?, ?) '' @
     ''ON CONFLICT(node_id) DO UPDATE SET '' @
     ''double_value=excluded.double_value,'' @
     ''updated_ms=excluded.updated_ms;''"

definition sql_insert_history :: string where
  "sql_insert_history =
     ''INSERT INTO event_history '' @
     ''(event_id, value, threshold, severity, created_ms) '' @
     ''VALUES (?, ?, ?, ?, ?);''"

definition sql_begin :: string where "sql_begin = ''BEGIN IMMEDIATE;''"
definition sql_commit :: string where "sql_commit = ''COMMIT;''"
definition sql_rollback :: string where "sql_rollback = ''ROLLBACK;''"
definition sql_get_version :: string where "sql_get_version = ''PRAGMA user_version;''"

section \<open>Helpers\<close>

record 'h EdgeStore =
  es_db :: "'h option"

definition EDGE_STORE_KEY_LEN :: nat where "EDGE_STORE_KEY_LEN = 160"
definition edge_store_schema_version :: int where "edge_store_schema_version = 2"

definition exec_sql :: "('h, 's, 'd) sqlite_api \<Rightarrow> 'h EdgeStore \<Rightarrow> string \<Rightarrow> 'd \<Rightarrow> EdgeStatus \<times> 'd" where
  "exec_sql api store sql d =
     (let (rc, d') = sqlite3_exec api (es_db store) sql d
      in if rc \<noteq> SQLITE_OK then (EDGE_STATUS_ERROR, d') else (EDGE_STATUS_OK, d'))"

definition make_key :: "string \<Rightarrow> string \<Rightarrow> nat \<Rightarrow> EdgeStatus \<times> string" where
  "make_key aid nid dst_size =
     (let (written, dst) = snprintf dst_size (''node:'' @ aid @ ''.'' @ nid)
      in if written \<ge> dst_size then (EDGE_STATUS_LIMIT, dst) else (EDGE_STATUS_OK, dst))"

definition make_node_key :: "EdgeNode \<Rightarrow> nat \<Rightarrow> EdgeStatus \<times> string" where
  "make_node_key node dst_size = make_key (n_asset_id node) (n_id node) dst_size"

definition make_event_source_node_key :: "EdgeEvent \<Rightarrow> nat \<Rightarrow> EdgeStatus \<times> string" where
  "make_event_source_node_key event dst_size = make_key (e_asset_id event) (e_source_node_id event) dst_size"

definition prepare :: "('h, 's, 'd) sqlite_api \<Rightarrow> 'h option \<Rightarrow> string \<Rightarrow> 'd \<Rightarrow> EdgeStatus \<times> 's option \<times> 'd" where
  "prepare api db sql d =
     (let (rc, stmt, d') = sqlite3_prepare_v2 api db sql d
      in if rc \<noteq> SQLITE_OK then (EDGE_STATUS_ERROR, stmt, d') else (EDGE_STATUS_OK, stmt, d'))"

definition step_done :: "('h, 's, 'd) sqlite_api \<Rightarrow> 's option \<Rightarrow> 'd \<Rightarrow> EdgeStatus \<times> 'd" where
  "step_done api stmt d =
     (let (rc, d') = sqlite3_step api stmt d
      in if rc \<noteq> SQLITE_DONE then (EDGE_STATUS_ERROR, d') else (EDGE_STATUS_OK, d'))"

section \<open>Opening and the schema\<close>

definition edge_store_open ::
    "('h, 's, 'd) sqlite_api \<Rightarrow> 'h EdgeStore \<Rightarrow> string \<Rightarrow> 'd \<Rightarrow> EdgeStatus \<times> 'h EdgeStore \<times> 'd" where
  "edge_store_open api store path d =
     (if es_db store \<noteq> None then (EDGE_STATUS_INVALID, store, d)
      else let (rc, db, d') = sqlite3_open_v2 api path SQLITE_OPEN_READWRITE_CREATE d;
               store' = store\<lparr>es_db := db\<rparr>
           in if rc \<noteq> SQLITE_OK then (EDGE_STATUS_ERROR, store', d') else (EDGE_STATUS_OK, store', d'))"

definition edge_store_close :: "('h, 's, 'd) sqlite_api \<Rightarrow> 'h EdgeStore \<Rightarrow> 'd \<Rightarrow> 'h EdgeStore \<times> 'd" where
  "edge_store_close api store d =
     (if es_db store \<noteq> None then (store\<lparr>es_db := None\<rparr>, sqlite3_close api (es_db store) d)
      else (store, d))"

definition edge_store_init_schema :: "('h, 's, 'd) sqlite_api \<Rightarrow> 'h EdgeStore \<Rightarrow> 'd \<Rightarrow> EdgeStatus \<times> 'd" where
  "edge_store_init_schema api store d =
     (let (rc, d1) = exec_sql api store schema_sql d in
      if rc \<noteq> EDGE_STATUS_OK then (rc, d1)
      else let (prc, stmt, d2) = sqlite3_prepare_v2 api (es_db store) sql_get_version d1 in
      if prc \<noteq> SQLITE_OK then (EDGE_STATUS_ERROR, d2)
      else let (src, d3) = sqlite3_step api stmt d2;
               current_version = (if src = SQLITE_ROW then sqlite3_column_int api stmt 0 d3 else 0);
               d4 = sqlite3_finalize api stmt d3
           in if current_version > edge_store_schema_version then (EDGE_STATUS_ERROR, d4)
              else let (mrc, d5, version) =
                     (if current_version = 1
                      then let (rc, d') = exec_sql api store migration_sql d4
                           in (rc, d', if rc \<noteq> EDGE_STATUS_OK then current_version else edge_store_schema_version)
                      else (EDGE_STATUS_OK, d4, current_version))
                   in if mrc \<noteq> EDGE_STATUS_OK then (mrc, d5)
                      else if version > 0 \<and> version < edge_store_schema_version then (EDGE_STATUS_ERROR, d5)
                      else if version = 0 \<or> version = edge_store_schema_version
                      then let pragma = snd (snprintf 64 (''PRAGMA user_version = '' @ fmt_u (nat edge_store_schema_version) @ '';''));
                               (rc, d6) = exec_sql api store pragma d5
                           in if rc \<noteq> EDGE_STATUS_OK then (rc, d6) else (EDGE_STATUS_OK, d6)
                      else (EDGE_STATUS_OK, d5))"

section \<open>The configuration snapshot\<close>

definition persist_plant :: "('h, 's, 'd) sqlite_api \<Rightarrow> 'h EdgeStore \<Rightarrow> EdgeModel \<Rightarrow> 'd \<Rightarrow> EdgeStatus \<times> 'd" where
  "persist_plant api store model d =
     (let (status, stmt, d1) = prepare api (es_db store) sql_upsert_plant d in
      if status \<noteq> EDGE_STATUS_OK then (status, d1)
      else let d2 = sqlite3_bind_text api stmt 1 (m_id model) d1;
               d3 = sqlite3_bind_text api stmt 2 (m_name model) d2;
               (st, d4) = step_done api stmt d3
           in (st, sqlite3_finalize api stmt d4))"

text \<open>The value bound for an enumerator: its number in the source, 0 when unset.\<close>

definition data_type_code :: "EdgeDataType option \<Rightarrow> int" where
  "data_type_code t = (case t of None \<Rightarrow> 0
     | Some EDGE_DATA_BOOL \<Rightarrow> 1 | Some EDGE_DATA_INT16 \<Rightarrow> 2 | Some EDGE_DATA_INT32 \<Rightarrow> 3
     | Some EDGE_DATA_UINT32 \<Rightarrow> 4 | Some EDGE_DATA_DOUBLE \<Rightarrow> 5)"

definition condition_code :: "EdgeEventCondition option \<Rightarrow> int" where
  "condition_code c = (case c of None \<Rightarrow> 0 | Some EDGE_EVENT_GREATER_THAN \<Rightarrow> 1 | Some EDGE_EVENT_LESS_THAN \<Rightarrow> 2)"

text \<open>The end of a row: step, and on failure finalize and return.\<close>

definition row_done :: "('h, 's, 'd) sqlite_api \<Rightarrow> 's option \<Rightarrow> 'd \<Rightarrow> EdgeStatus option \<times> 'd" where
  "row_done api stmt d =
     (let (st, d') = step_done api stmt d
      in if st \<noteq> EDGE_STATUS_OK then (Some EDGE_STATUS_ERROR, sqlite3_finalize api stmt d') else (None, d'))"

definition fresh_row :: "('h, 's, 'd) sqlite_api \<Rightarrow> 's option \<Rightarrow> 'd \<Rightarrow> 'd" where
  "fresh_row api stmt d = sqlite3_clear_bindings api stmt (sqlite3_reset api stmt d)"

definition persist_asset :: "('h, 's, 'd) sqlite_api \<Rightarrow> EdgeModel \<Rightarrow> 's option \<Rightarrow> nat \<Rightarrow> 'd \<Rightarrow> EdgeStatus option \<times> 'd" where
  "persist_asset api model stmt i d =
     (let asset = m_assets model ! i;
          d1 = fresh_row api stmt d;
          d2 = sqlite3_bind_text api stmt 1 (a_id asset) d1;
          d3 = sqlite3_bind_text api stmt 2 (m_id model) d2;
          d4 = (if a_parent_id asset \<noteq> [] then sqlite3_bind_text api stmt 3 (a_parent_id asset) d3
                else sqlite3_bind_null api stmt 3 d3);
          d5 = sqlite3_bind_text api stmt 4 (a_type asset) d4;
          d6 = sqlite3_bind_text api stmt 5 (a_name asset) d5
      in row_done api stmt d6)"

definition persist_node :: "('h, 's, 'd) sqlite_api \<Rightarrow> EdgeModel \<Rightarrow> 's option \<Rightarrow> nat \<Rightarrow> 'd \<Rightarrow> EdgeStatus option \<times> 'd" where
  "persist_node api model stmt i d =
     (let node = m_nodes model ! i;
          (kst, node_key) = make_node_key node EDGE_STORE_KEY_LEN
      in if kst \<noteq> EDGE_STATUS_OK then (Some EDGE_STATUS_LIMIT, sqlite3_finalize api stmt d)
         else let d1 = fresh_row api stmt d;
                  d2 = sqlite3_bind_text api stmt 1 node_key d1;
                  d3 = sqlite3_bind_text api stmt 2 (n_id node) d2;
                  d4 = sqlite3_bind_text api stmt 3 (n_asset_id node) d3;
                  d5 = sqlite3_bind_text api stmt 4 (n_name node) d4;
                  d6 = sqlite3_bind_int api stmt 5 (data_type_code (n_data_type node)) d5;
                  d7 = sqlite3_bind_int api stmt 6 (if n_writable node then 1 else 0) d6;
                  d8 = sqlite3_bind_int api stmt 7 (uint (n_modbus_unit node)) d7;
                  d9 = sqlite3_bind_int64 api stmt 8 (uint (n_modbus_register node)) d8;
                  d10 = sqlite3_bind_double api stmt 9 (n_scale node) d9
              in row_done api stmt d10)"

definition persist_event :: "('h, 's, 'd) sqlite_api \<Rightarrow> EdgeModel \<Rightarrow> 's option \<Rightarrow> nat \<Rightarrow> 'd \<Rightarrow> EdgeStatus option \<times> 'd" where
  "persist_event api model stmt i d =
     (let event = m_events model ! i;
          (kst, source_node_key) = make_event_source_node_key event EDGE_STORE_KEY_LEN
      in if kst \<noteq> EDGE_STATUS_OK then (Some EDGE_STATUS_LIMIT, sqlite3_finalize api stmt d)
         else let d1 = fresh_row api stmt d;
                  d2 = sqlite3_bind_text api stmt 1 (e_id event) d1;
                  d3 = sqlite3_bind_text api stmt 2 (e_asset_id event) d2;
                  d4 = sqlite3_bind_text api stmt 3 source_node_key d3;
                  d5 = sqlite3_bind_int api stmt 4 (condition_code (e_condition event)) d4;
                  d6 = sqlite3_bind_double api stmt 5 (e_threshold event) d5;
                  d7 = sqlite3_bind_int api stmt 6 (uint (e_severity event)) d6
              in row_done api stmt d7)"

text \<open>Prepare, loop over the rows, finalize: the frame shared by the three array writers.\<close>

definition persist_rows ::
    "('h, 's, 'd) sqlite_api \<Rightarrow> 'h EdgeStore \<Rightarrow> string \<Rightarrow> nat \<Rightarrow> ('s option \<Rightarrow> nat \<Rightarrow> 'd \<Rightarrow> EdgeStatus option \<times> 'd) \<Rightarrow>
     'd \<Rightarrow> EdgeStatus \<times> 'd" where
  "persist_rows api store sql n row d =
     (let (status, stmt, d1) = prepare api (es_db store) sql d in
      if status \<noteq> EDGE_STATUS_OK then (status, d1)
      else case for_upto n (row stmt) d1 of
             (Some st, d2) \<Rightarrow> (st, d2)
           | (None, d2) \<Rightarrow> (EDGE_STATUS_OK, sqlite3_finalize api stmt d2))"

definition persist_assets where
  "persist_assets api store model = persist_rows api store sql_upsert_asset (length (m_assets model)) (persist_asset api model)"

definition persist_nodes where
  "persist_nodes api store model = persist_rows api store sql_upsert_node (length (m_nodes model)) (persist_node api model)"

definition persist_events where
  "persist_events api store model = persist_rows api store sql_upsert_event (length (m_events model)) (persist_event api model)"

text \<open>The operands of the source's \<open>||\<close>, run until one fails.\<close>

definition status_seq :: "('d \<Rightarrow> EdgeStatus \<times> 'd) list \<Rightarrow> 'd \<Rightarrow> bool \<times> 'd" where
  "status_seq fs d =
     (case for_in fs (\<lambda>f d. let (st, d') = f d in (if st \<noteq> EDGE_STATUS_OK then Some () else None, d')) d of
        (Some _, d') \<Rightarrow> (False, d') | (None, d') \<Rightarrow> (True, d'))"

definition edge_store_persist_model :: "('h, 's, 'd) sqlite_api \<Rightarrow> 'h EdgeStore \<Rightarrow> EdgeModel \<Rightarrow> 'd \<Rightarrow> EdgeStatus \<times> 'd" where
  "edge_store_persist_model api store model d =
     (let (st, d1) = exec_sql api store sql_begin d in
      if st \<noteq> EDGE_STATUS_OK then (EDGE_STATUS_ERROR, d1)
      else let (ok, d2) = status_seq [persist_plant api store model, persist_assets api store model,
                 persist_nodes api store model, persist_events api store model] d1
           in if \<not> ok then (EDGE_STATUS_ERROR, snd (exec_sql api store sql_rollback d2))
              else let (st, d3) = exec_sql api store sql_commit d2
                   in if st \<noteq> EDGE_STATUS_OK then (EDGE_STATUS_ERROR, d3) else (EDGE_STATUS_OK, d3))"

section \<open>Latest values\<close>

definition load_value :: "c_impl \<Rightarrow> ('h, 's, 'd) sqlite_api \<Rightarrow> 's option \<Rightarrow> nat \<Rightarrow> EdgeModel \<times> 'd \<Rightarrow>
    EdgeStatus option \<times> EdgeModel \<times> 'd" where
  "load_value cc api stmt i s =
     (let (model, d) = s; (kst, node_key) = make_node_key (m_nodes model ! i) EDGE_STORE_KEY_LEN in
      if kst \<noteq> EDGE_STATUS_OK then (Some EDGE_STATUS_LIMIT, model, sqlite3_finalize api stmt d)
      else let d1 = fresh_row api stmt d;
               d2 = sqlite3_bind_text api stmt 1 node_key d1;
               (rc, d3) = sqlite3_step api stmt d2
           in if rc = SQLITE_ROW
              then (None, model\<lparr>m_nodes := (m_nodes model)[i := edge_node_set_from_double cc (m_nodes model ! i)
                      (sqlite3_column_double api stmt 0 d3)]\<rparr>, d3)
              else (None, model, d3))"

definition edge_store_load_latest_values ::
    "c_impl \<Rightarrow> ('h, 's, 'd) sqlite_api \<Rightarrow> 'h EdgeStore \<Rightarrow> EdgeModel \<Rightarrow> 'd \<Rightarrow> EdgeStatus \<times> EdgeModel \<times> 'd" where
  "edge_store_load_latest_values cc api store model d =
     (let (status, stmt, d1) = prepare api (es_db store) sql_select_latest d in
      if status \<noteq> EDGE_STATUS_OK then (EDGE_STATUS_ERROR, model, d1)
      else case for_upto (length (m_nodes model)) (load_value cc api stmt) (model, d1) of
             (Some st, m', d2) \<Rightarrow> (st, m', d2)
           | (None, m', d2) \<Rightarrow> (EDGE_STATUS_OK, m', sqlite3_finalize api stmt d2))"

definition persist_value :: "('h, 's, 'd) sqlite_api \<Rightarrow> 'h EdgeStore \<Rightarrow> EdgeModel \<Rightarrow> u64 \<Rightarrow> 's option \<Rightarrow> nat \<Rightarrow> 'd \<Rightarrow>
    EdgeStatus option \<times> 'd" where
  "persist_value api store model now_ms stmt i d =
     (let node = m_nodes model ! i; (kst, node_key) = make_node_key node EDGE_STORE_KEY_LEN in
      if kst \<noteq> EDGE_STATUS_OK
      then (Some EDGE_STATUS_LIMIT, snd (exec_sql api store sql_rollback (sqlite3_finalize api stmt d)))
      else let d1 = fresh_row api stmt d;
               d2 = sqlite3_bind_text api stmt 1 node_key d1;
               d3 = sqlite3_bind_double api stmt 2 (edge_node_as_double node) d2;
               d4 = sqlite3_bind_int64 api stmt 3 (sint now_ms) d3;
               (st, d5) = step_done api stmt d4
           in if st \<noteq> EDGE_STATUS_OK
              then (Some EDGE_STATUS_ERROR, snd (exec_sql api store sql_rollback (sqlite3_finalize api stmt d5)))
              else (None, d5))"

definition edge_store_persist_latest_values ::
    "('h, 's, 'd) sqlite_api \<Rightarrow> 'h EdgeStore \<Rightarrow> EdgeModel \<Rightarrow> 'd \<Rightarrow> EdgeStatus \<times> 'd" where
  "edge_store_persist_latest_values api store model d =
     (let (now_ms, d0) = edge_time_now_ms (store_clock_gettime api) d;
          (status, stmt, d1) = prepare api (es_db store) sql_upsert_latest d0 in
      if status \<noteq> EDGE_STATUS_OK then (EDGE_STATUS_ERROR, d1)
      else let (st, d2) = exec_sql api store sql_begin d1 in
      if st \<noteq> EDGE_STATUS_OK then (EDGE_STATUS_ERROR, sqlite3_finalize api stmt d2)
      else case for_upto (length (m_nodes model)) (persist_value api store model now_ms stmt) d2 of
             (Some st, d3) \<Rightarrow> (st, d3)
           | (None, d3) \<Rightarrow>
               (let d4 = sqlite3_finalize api stmt d3; (st, d5) = exec_sql api store sql_commit d4
                in if st \<noteq> EDGE_STATUS_OK then (EDGE_STATUS_ERROR, d5) else (EDGE_STATUS_OK, d5)))"

section \<open>Event history\<close>

definition edge_store_insert_event_history ::
    "('h, 's, 'd) sqlite_api \<Rightarrow> 'h EdgeStore \<Rightarrow> EdgeEvent \<Rightarrow> f64 \<Rightarrow> u64 \<Rightarrow> 'd \<Rightarrow> EdgeStatus \<times> 'd" where
  "edge_store_insert_event_history api store event x created_ms d =
     (let (status, stmt, d1) = prepare api (es_db store) sql_insert_history d in
      if status \<noteq> EDGE_STATUS_OK then (status, d1)
      else let d2 = sqlite3_bind_text api stmt 1 (e_id event) d1;
               d3 = sqlite3_bind_double api stmt 2 x d2;
               d4 = sqlite3_bind_double api stmt 3 (e_threshold event) d3;
               d5 = sqlite3_bind_int api stmt 4 (uint (e_severity event)) d4;
               d6 = sqlite3_bind_int64 api stmt 5 (sint created_ms) d5;
               (st, d7) = step_done api stmt d6
           in (st, sqlite3_finalize api stmt d7))"

end
