(* ===== verification/Edge_Store_Values.thy ===== *)
theory Edge_Store_Values
  imports Edge_Store
begin

text \<open>
  What the store guarantees over a database that works.  \<open>sqlite_laws\<close> states the documented
  behaviour of SQLite for the statements that the code prepares, through a view of the database: the
  content of \<open>latest_values\<close> and \<open>event_history\<close> as this connection sees it, the content that a
  rollback restores, and the prepared statements with their bindings.  A NaN that is bound is stored
  as NULL, so that a NOT NULL column rejects the row.  An in-memory database satisfies the laws.
\<close>

section \<open>Keys\<close>

definition node_key :: "EdgeNode \<Rightarrow> string" where
  "node_key n = ''node:'' @ n_asset_id n @ ''.'' @ n_id n"

lemma make_node_key_ok:
  assumes "fits EDGE_MAX_ID_LEN (n_asset_id n)" and "fits EDGE_MAX_ID_LEN (n_id n)"
  shows "make_node_key n EDGE_STORE_KEY_LEN = (EDGE_STATUS_OK, node_key n)"
proof -
  have "length (n_asset_id n) < 64" "length (n_id n) < 64"
    using assms by (simp_all add: fits_def edge_limits)
  then have k: "length (node_key n) < 159" by (simp add: node_key_def)
  have "make_node_key n EDGE_STORE_KEY_LEN = (let (written, dst) = snprintf 160 (node_key n)
      in if written \<ge> 160 then (EDGE_STATUS_LIMIT, dst) else (EDGE_STATUS_OK, dst))"
    by (simp only: make_node_key_def make_key_def node_key_def EDGE_STORE_KEY_LEN_def)
  with k show ?thesis by (simp add: snprintf_def)
qed

lemma split_at_separator:
  assumes "c \<notin> set a" and "c \<notin> set b" and "a @ c # x = b @ c # y"
  shows "a = b \<and> x = y"
  using assms by (induction a arbitrary: b) (auto simp: Cons_eq_append_conv append_eq_Cons_conv)

lemma node_key_inj:
  assumes "CHR ''.'' \<notin> set (n_asset_id n)" and "CHR ''.'' \<notin> set (n_asset_id n')"
  shows "node_key n = node_key n' \<longleftrightarrow> n_asset_id n = n_asset_id n' \<and> n_id n = n_id n'"
  using split_at_separator [OF assms, of "n_id n" "n_id n'"] by (auto simp: node_key_def)

section \<open>The database as the code sees it\<close>

datatype sql_value = SqlText string | SqlInt int | SqlReal f64 | SqlNull

type_synonym history_row = "string \<times> f64 \<times> f64 \<times> int \<times> int"
type_synonym latest_table = "string \<rightharpoonup> f64"

record 's db_view =
  dv_latest :: latest_table
  dv_history :: "history_row list"
  dv_saved :: "latest_table \<times> history_row list"
  dv_stmts :: "'s \<rightharpoonup> string \<times> (nat \<rightharpoonup> sql_value)"

definition set_stmt :: "'s \<Rightarrow> string \<times> (nat \<rightharpoonup> sql_value) \<Rightarrow> 's db_view \<Rightarrow> 's db_view" where
  "set_stmt s x v = v\<lparr>dv_stmts := (dv_stmts v)(s \<mapsto> x)\<rparr>"

text \<open>A double as it arrives in a column.\<close>

definition real_column :: "f64 \<Rightarrow> sql_value" where
  "real_column x = (if f64_isnan x then SqlNull else SqlReal x)"

text \<open>The effect of stepping the two inserting statements, when the constraints allow the row.\<close>

definition upsert_latest :: "(nat \<rightharpoonup> sql_value) \<Rightarrow> 's db_view \<Rightarrow> 's db_view option" where
  "upsert_latest b v =
     (case (b 1, b 2, b 3) of
        (Some (SqlText k), Some (SqlReal x), Some (SqlInt t)) \<Rightarrow>
          Some (v\<lparr>dv_latest := (dv_latest v)(k \<mapsto> x)\<rparr>)
      | _ \<Rightarrow> None)"

definition insert_history :: "(nat \<rightharpoonup> sql_value) \<Rightarrow> 's db_view \<Rightarrow> 's db_view option" where
  "insert_history b v =
     (case (b 1, b 2, b 3, b 4, b 5) of
        (Some (SqlText e), Some (SqlReal x), Some (SqlReal th), Some (SqlInt sv), Some (SqlInt t)) \<Rightarrow>
          Some (v\<lparr>dv_history := dv_history v @ [(e, x, th, sv, t)]\<rparr>)
      | _ \<Rightarrow> None)"

definition binding_laws :: "('h, 's, 'd) sqlite_api \<Rightarrow> ('d \<Rightarrow> 's db_view) \<Rightarrow> bool" where
  "binding_laws api view =
     (\<forall>d s sql b. dv_stmts (view d) s = Some (sql, b) \<longrightarrow>
        (\<forall>i t. view (sqlite3_bind_text api (Some s) i t d) = set_stmt s (sql, b(i \<mapsto> SqlText t)) (view d)) \<and>
        (\<forall>i n. view (sqlite3_bind_int api (Some s) i n d) = set_stmt s (sql, b(i \<mapsto> SqlInt n)) (view d)) \<and>
        (\<forall>i n. view (sqlite3_bind_int64 api (Some s) i n d) = set_stmt s (sql, b(i \<mapsto> SqlInt n)) (view d)) \<and>
        (\<forall>i x. view (sqlite3_bind_double api (Some s) i x d) = set_stmt s (sql, b(i \<mapsto> real_column x)) (view d)) \<and>
        view (sqlite3_reset api (Some s) d) = view d \<and>
        view (sqlite3_clear_bindings api (Some s) d) = set_stmt s (sql, Map.empty) (view d) \<and>
        view (sqlite3_finalize api (Some s) d) = (view d)\<lparr>dv_stmts := (dv_stmts (view d))(s := None)\<rparr>)"

definition step_laws :: "('h, 's, 'd) sqlite_api \<Rightarrow> ('d \<Rightarrow> 's db_view) \<Rightarrow> bool" where
  "step_laws api view =
     (\<forall>d s b.
        (dv_stmts (view d) s = Some (sql_upsert_latest, b) \<longrightarrow>
           (\<exists>rc d'. sqlite3_step api (Some s) d = (rc, d') \<and>
              (case upsert_latest b (view d) of
                 Some v \<Rightarrow> rc = SQLITE_DONE \<and> view d' = v
               | None \<Rightarrow> rc \<noteq> SQLITE_DONE \<and> view d' = view d))) \<and>
        (dv_stmts (view d) s = Some (sql_insert_history, b) \<longrightarrow>
           (\<exists>rc d'. sqlite3_step api (Some s) d = (rc, d') \<and>
              (case insert_history b (view d) of
                 Some v \<Rightarrow> rc = SQLITE_DONE \<and> view d' = v
               | None \<Rightarrow> rc \<noteq> SQLITE_DONE \<and> view d' = view d))) \<and>
        (\<forall>k. dv_stmts (view d) s = Some (sql_select_latest, b) \<and> b 1 = Some (SqlText k) \<longrightarrow>
           (\<exists>d'. sqlite3_step api (Some s) d = (case dv_latest (view d) k of None \<Rightarrow> SQLITE_DONE | Some _ \<Rightarrow> SQLITE_ROW, d') \<and>
              view d' = view d \<and>
              (\<forall>x. dv_latest (view d) k = Some x \<longrightarrow> sqlite3_column_double api (Some s) 0 d' = x))))"

definition exec_laws :: "('h, 's, 'd) sqlite_api \<Rightarrow> 'h \<Rightarrow> ('d \<Rightarrow> 's db_view) \<Rightarrow> bool" where
  "exec_laws api h view =
     (\<forall>d. (\<forall>sql. sql \<in> {sql_upsert_latest, sql_select_latest, sql_insert_history} \<longrightarrow>
             (\<exists>s d'. sqlite3_prepare_v2 api (Some h) sql d = (SQLITE_OK, Some s, d') \<and>
                view d' = set_stmt s (sql, Map.empty) (view d))) \<and>
          (\<exists>d'. sqlite3_exec api (Some h) sql_begin d = (SQLITE_OK, d') \<and>
             view d' = (view d)\<lparr>dv_saved := (dv_latest (view d), dv_history (view d))\<rparr>) \<and>
          (\<exists>d'. sqlite3_exec api (Some h) sql_commit d = (SQLITE_OK, d') \<and> view d' = view d) \<and>
          (\<exists>d'. sqlite3_exec api (Some h) sql_rollback d = (SQLITE_OK, d') \<and>
             view d' = (view d)\<lparr>dv_latest := fst (dv_saved (view d)), dv_history := snd (dv_saved (view d))\<rparr>) \<and>
          view (snd (store_clock_gettime api d)) = view d)"

definition sqlite_laws :: "('h, 's, 'd) sqlite_api \<Rightarrow> 'h \<Rightarrow> ('d \<Rightarrow> 's db_view) \<Rightarrow> bool" where
  "sqlite_laws api h view = (binding_laws api view \<and> step_laws api view \<and> exec_laws api h view)"

section \<open>An in-memory database\<close>

record mem_db =
  md_view :: "nat db_view"
  md_next :: nat
  md_column :: "nat \<Rightarrow> f64"

definition mem_bind :: "nat option \<Rightarrow> nat \<Rightarrow> sql_value \<Rightarrow> mem_db \<Rightarrow> mem_db" where
  "mem_bind st i x d =
     (case st of None \<Rightarrow> d | Some s \<Rightarrow>
        (case dv_stmts (md_view d) s of None \<Rightarrow> d
         | Some (sql, b) \<Rightarrow> d\<lparr>md_view := set_stmt s (sql, b(i \<mapsto> x)) (md_view d)\<rparr>))"

definition mem_step :: "nat option \<Rightarrow> mem_db \<Rightarrow> int \<times> mem_db" where
  "mem_step st d =
     (case st of None \<Rightarrow> (21, d) | Some s \<Rightarrow>
        (case dv_stmts (md_view d) s of None \<Rightarrow> (21, d)
         | Some (sql, b) \<Rightarrow>
             if sql = sql_upsert_latest
             then (case upsert_latest b (md_view d) of None \<Rightarrow> (19, d) | Some v \<Rightarrow> (SQLITE_DONE, d\<lparr>md_view := v\<rparr>))
             else if sql = sql_insert_history
             then (case insert_history b (md_view d) of None \<Rightarrow> (19, d) | Some v \<Rightarrow> (SQLITE_DONE, d\<lparr>md_view := v\<rparr>))
             else if sql = sql_select_latest
             then (case b 1 of
                     Some (SqlText k) \<Rightarrow>
                       (case dv_latest (md_view d) k of None \<Rightarrow> (SQLITE_DONE, d)
                        | Some x \<Rightarrow> (SQLITE_ROW, d\<lparr>md_column := (md_column d)(s := x)\<rparr>))
                   | _ \<Rightarrow> (SQLITE_DONE, d))
             else (SQLITE_DONE, d)))"

definition mem_exec :: "string \<Rightarrow> mem_db \<Rightarrow> mem_db" where
  "mem_exec sql d =
     (if sql = sql_begin
      then d\<lparr>md_view := (md_view d)\<lparr>dv_saved := (dv_latest (md_view d), dv_history (md_view d))\<rparr>\<rparr>
      else if sql = sql_rollback
      then d\<lparr>md_view := (md_view d)\<lparr>dv_latest := fst (dv_saved (md_view d)), dv_history := snd (dv_saved (md_view d))\<rparr>\<rparr>
      else d)"

definition mem_api :: "(unit, nat, mem_db) sqlite_api" where
  "mem_api = \<lparr>sqlite3_open_v2 = (\<lambda>path flags d. (SQLITE_OK, Some (), d)),
     sqlite3_close = (\<lambda>h d. d),
     sqlite3_exec = (\<lambda>h sql d. (SQLITE_OK, mem_exec sql d)),
     sqlite3_prepare_v2 = (\<lambda>h sql d. (SQLITE_OK, Some (md_next d),
        d\<lparr>md_view := set_stmt (md_next d) (sql, Map.empty) (md_view d), md_next := md_next d + 1\<rparr>)),
     sqlite3_bind_text = (\<lambda>s i t. mem_bind s i (SqlText t)),
     sqlite3_bind_int = (\<lambda>s i n. mem_bind s i (SqlInt n)),
     sqlite3_bind_int64 = (\<lambda>s i n. mem_bind s i (SqlInt n)),
     sqlite3_bind_double = (\<lambda>s i x. mem_bind s i (real_column x)),
     sqlite3_bind_null = (\<lambda>s i. mem_bind s i SqlNull),
     sqlite3_reset = (\<lambda>s d. d),
     sqlite3_clear_bindings = (\<lambda>st d. case st of None \<Rightarrow> d | Some s \<Rightarrow>
        (case dv_stmts (md_view d) s of None \<Rightarrow> d
         | Some (sql, b) \<Rightarrow> d\<lparr>md_view := set_stmt s (sql, Map.empty) (md_view d)\<rparr>)),
     sqlite3_step = mem_step,
     sqlite3_finalize = (\<lambda>st d. case st of None \<Rightarrow> d | Some s \<Rightarrow>
        d\<lparr>md_view := (md_view d)\<lparr>dv_stmts := (dv_stmts (md_view d))(s := None)\<rparr>\<rparr>),
     sqlite3_column_int = (\<lambda>s i d. 0),
     sqlite3_column_double = (\<lambda>st i d. case st of None \<Rightarrow> 0 | Some s \<Rightarrow> md_column d s),
     store_clock_gettime = (\<lambda>d. ((5, 0), d))\<rparr>"

definition mem_empty :: mem_db where
  "mem_empty = \<lparr>md_view = \<lparr>dv_latest = Map.empty, dv_history = [], dv_saved = (Map.empty, []),
     dv_stmts = Map.empty\<rparr>, md_next = 0, md_column = (\<lambda>_. 0)\<rparr>"

lemma sql_distinct:
  "sql_select_latest \<noteq> sql_upsert_latest" "sql_select_latest \<noteq> sql_insert_history"
  "sql_insert_history \<noteq> sql_upsert_latest" "sql_commit \<noteq> sql_begin" "sql_commit \<noteq> sql_rollback"
  "sql_rollback \<noteq> sql_begin"
  by (simp_all add: sql_select_latest_def sql_upsert_latest_def sql_insert_history_def
      sql_commit_def sql_begin_def sql_rollback_def)

lemma mem_laws: "sqlite_laws mem_api () md_view"
proof -
  have "binding_laws mem_api md_view"
    by (simp add: binding_laws_def mem_api_def mem_bind_def)
  moreover have "step_laws mem_api md_view"
    using sql_distinct
    by (auto simp: step_laws_def mem_api_def mem_step_def sqlite_codes split: option.splits)
  moreover have "exec_laws mem_api () md_view"
    using sql_distinct
    by (simp add: exec_laws_def mem_api_def mem_exec_def)
  ultimately show ?thesis by (simp add: sqlite_laws_def)
qed

section \<open>Symbolic execution of the statements\<close>

text \<open>A statement that is prepared on the connection, with the tables as given.\<close>

definition ready :: "('d \<Rightarrow> 's db_view) \<Rightarrow> 's \<Rightarrow> string \<Rightarrow> 'd \<Rightarrow> bool" where
  "ready view s sql d = (\<exists>b. dv_stmts (view d) s = Some (sql, b))"

lemma set_stmt_simps [simp]:
  "dv_latest (set_stmt s x v) = dv_latest v" "dv_history (set_stmt s x v) = dv_history v"
  "dv_saved (set_stmt s x v) = dv_saved v" "dv_stmts (set_stmt s x v) s = Some x"
  "set_stmt s x (set_stmt s y v) = set_stmt s x v"
  by (simp_all add: set_stmt_def)

lemma bind_simps:
  assumes "sqlite_laws api h view" and "dv_stmts (view d) s = Some (sql, b)"
  shows "view (sqlite3_bind_text api (Some s) i t d) = set_stmt s (sql, b(i \<mapsto> SqlText t)) (view d)"
    and "view (sqlite3_bind_int api (Some s) i n d) = set_stmt s (sql, b(i \<mapsto> SqlInt n)) (view d)"
    and "view (sqlite3_bind_int64 api (Some s) i n d) = set_stmt s (sql, b(i \<mapsto> SqlInt n)) (view d)"
    and "view (sqlite3_bind_double api (Some s) i x d) = set_stmt s (sql, b(i \<mapsto> real_column x)) (view d)"
    and "view (sqlite3_reset api (Some s) d) = view d"
    and "view (sqlite3_clear_bindings api (Some s) d) = set_stmt s (sql, Map.empty) (view d)"
    and "view (sqlite3_finalize api (Some s) d) = (view d)\<lparr>dv_stmts := (dv_stmts (view d))(s := None)\<rparr>"
  using assms unfolding sqlite_laws_def binding_laws_def by metis+

lemma fresh_row_view:
  assumes "sqlite_laws api h view" and "ready view s sql d"
  shows "view (fresh_row api (Some s) d) = set_stmt s (sql, Map.empty) (view d)"
proof -
  from assms(2) obtain b where b: "dv_stmts (view d) s = Some (sql, b)" by (auto simp: ready_def)
  then have "dv_stmts (view (sqlite3_reset api (Some s) d)) s = Some (sql, b)"
    by (simp add: bind_simps(5) [OF assms(1) b])
  from bind_simps(6) [OF assms(1) this] show ?thesis
    by (simp add: fresh_row_def bind_simps(5) [OF assms(1) b])
qed

lemma finalize_view:
  assumes "sqlite_laws api h view" and "ready view s sql d"
  shows "dv_latest (view (sqlite3_finalize api (Some s) d)) = dv_latest (view d)"
    and "dv_history (view (sqlite3_finalize api (Some s) d)) = dv_history (view d)"
    and "dv_saved (view (sqlite3_finalize api (Some s) d)) = dv_saved (view d)"
  using assms(2) bind_simps(7) [OF assms(1)] by (auto simp: ready_def)

lemma exec_view:
  assumes "sqlite_laws api h view"
  obtains d1 d2 d3 where
    "exec_sql api \<lparr>es_db = Some h\<rparr> sql_begin d = (EDGE_STATUS_OK, d1)"
    "view d1 = (view d)\<lparr>dv_saved := (dv_latest (view d), dv_history (view d))\<rparr>"
    "exec_sql api \<lparr>es_db = Some h\<rparr> sql_commit d = (EDGE_STATUS_OK, d2)" "view d2 = view d"
    "exec_sql api \<lparr>es_db = Some h\<rparr> sql_rollback d = (EDGE_STATUS_OK, d3)"
    "view d3 = (view d)\<lparr>dv_latest := fst (dv_saved (view d)), dv_history := snd (dv_saved (view d))\<rparr>"
proof -
  from assms have "exec_laws api h view" by (simp add: sqlite_laws_def)
  from this [unfolded exec_laws_def, THEN spec, of d] that show ?thesis
    unfolding exec_sql_def by (elim conjE exE) simp
qed

lemma prepare_view:
  assumes "sqlite_laws api h view"
    and "sql \<in> {sql_upsert_latest, sql_select_latest, sql_insert_history}"
  obtains s d' where "prepare api (Some h) sql d = (EDGE_STATUS_OK, Some s, d')"
    "view d' = set_stmt s (sql, Map.empty) (view d)"
proof -
  from assms(1) have "exec_laws api h view" by (simp add: sqlite_laws_def)
  from this [unfolded exec_laws_def, THEN spec, of d, THEN conjunct1, THEN spec, THEN mp, OF assms(2)]
  show ?thesis using that by (elim exE conjE) (simp add: prepare_def)
qed

lemma step_upsert:
  assumes "sqlite_laws api h view" and "dv_stmts (view d) s = Some (sql_upsert_latest, b)"
  shows "upsert_latest b (view d) = Some v \<Longrightarrow>
      \<exists>d'. step_done api (Some s) d = (EDGE_STATUS_OK, d') \<and> view d' = v"
    and "upsert_latest b (view d) = None \<Longrightarrow>
      \<exists>d'. step_done api (Some s) d = (EDGE_STATUS_ERROR, d') \<and> view d' = view d"
proof -
  from assms have "\<exists>rc d'. sqlite3_step api (Some s) d = (rc, d') \<and>
      (case upsert_latest b (view d) of Some v \<Rightarrow> rc = SQLITE_DONE \<and> view d' = v
       | None \<Rightarrow> rc \<noteq> SQLITE_DONE \<and> view d' = view d)"
    unfolding sqlite_laws_def step_laws_def by blast
  then show "upsert_latest b (view d) = Some v \<Longrightarrow>
      \<exists>d'. step_done api (Some s) d = (EDGE_STATUS_OK, d') \<and> view d' = v"
    and "upsert_latest b (view d) = None \<Longrightarrow>
      \<exists>d'. step_done api (Some s) d = (EDGE_STATUS_ERROR, d') \<and> view d' = view d"
    by (auto simp: step_done_def)
qed

lemma step_history:
  assumes "sqlite_laws api h view" and "dv_stmts (view d) s = Some (sql_insert_history, b)"
  shows "insert_history b (view d) = Some v \<Longrightarrow>
      \<exists>d'. step_done api (Some s) d = (EDGE_STATUS_OK, d') \<and> view d' = v"
    and "insert_history b (view d) = None \<Longrightarrow>
      \<exists>d'. step_done api (Some s) d = (EDGE_STATUS_ERROR, d') \<and> view d' = view d"
proof -
  from assms have "\<exists>rc d'. sqlite3_step api (Some s) d = (rc, d') \<and>
      (case insert_history b (view d) of Some v \<Rightarrow> rc = SQLITE_DONE \<and> view d' = v
       | None \<Rightarrow> rc \<noteq> SQLITE_DONE \<and> view d' = view d)"
    unfolding sqlite_laws_def step_laws_def by blast
  then show "insert_history b (view d) = Some v \<Longrightarrow>
      \<exists>d'. step_done api (Some s) d = (EDGE_STATUS_OK, d') \<and> view d' = v"
    and "insert_history b (view d) = None \<Longrightarrow>
      \<exists>d'. step_done api (Some s) d = (EDGE_STATUS_ERROR, d') \<and> view d' = view d"
    by (auto simp: step_done_def)
qed

lemma step_select:
  assumes "sqlite_laws api h view" and "dv_stmts (view d) s = Some (sql_select_latest, b)"
    and "b 1 = Some (SqlText k)"
  shows "\<exists>d'. sqlite3_step api (Some s) d =
        (case dv_latest (view d) k of None \<Rightarrow> SQLITE_DONE | Some _ \<Rightarrow> SQLITE_ROW, d') \<and> view d' = view d \<and>
      (\<forall>x. dv_latest (view d) k = Some x \<longrightarrow> sqlite3_column_double api (Some s) 0 d' = x)"
  using assms unfolding sqlite_laws_def step_laws_def by blast

section \<open>Persisting latest values\<close>

definition put_values :: "EdgeNode list \<Rightarrow> latest_table \<Rightarrow> latest_table" where
  "put_values ns t = foldl (\<lambda>t n. t(node_key n \<mapsto> edge_node_as_double n)) t ns"

lemma put_values_snoc: "put_values (ns @ [n]) t = (put_values ns t)(node_key n \<mapsto> edge_node_as_double n)"
  by (simp add: put_values_def)

definition node_ids_fit :: "EdgeNode list \<Rightarrow> bool" where
  "node_ids_fit ns = list_all (\<lambda>n. fits EDGE_MAX_ID_LEN (n_asset_id n) \<and> fits EDGE_MAX_ID_LEN (n_id n)) ns"

abbreviation storable :: "EdgeNode \<Rightarrow> bool" where
  "storable n \<equiv> \<not> f64_isnan (edge_node_as_double n)"

text \<open>One row: it is stored when the value is not a NaN; otherwise everything is rolled back.\<close>

lemma persist_value_row:
  fixes now :: u64
  assumes laws: "sqlite_laws api h view" and store: "store = \<lparr>es_db = Some h\<rparr>"
    and fit: "make_node_key (m_nodes model ! i) EDGE_STORE_KEY_LEN = (EDGE_STATUS_OK, node_key (m_nodes model ! i))"
    and rdy: "ready view s sql_upsert_latest d"
  defines "n \<equiv> m_nodes model ! i" and "r \<equiv> persist_value api store model now (Some s) i d"
  shows "storable n \<Longrightarrow> \<exists>d'. r = (None, d') \<and> ready view s sql_upsert_latest d' \<and>
      dv_latest (view d') = (dv_latest (view d))(node_key n \<mapsto> edge_node_as_double n) \<and>
      dv_history (view d') = dv_history (view d) \<and> dv_saved (view d') = dv_saved (view d)"
    and "\<not> storable n \<Longrightarrow> \<exists>d'. r = (Some EDGE_STATUS_ERROR, d') \<and>
      dv_latest (view d') = fst (dv_saved (view d)) \<and> dv_history (view d') = snd (dv_saved (view d))"
proof -
  define d1 where "d1 = fresh_row api (Some s) d"
  define d2 where "d2 = sqlite3_bind_text api (Some s) 1 (node_key n) d1"
  define d3 where "d3 = sqlite3_bind_double api (Some s) 2 (edge_node_as_double n) d2"
  define d4 where "d4 = sqlite3_bind_int64 api (Some s) 3 (sint now) d3"
  let ?b = "[1 \<mapsto> SqlText (node_key n), 2 \<mapsto> real_column (edge_node_as_double n), 3 \<mapsto> SqlInt (sint now)]"
  have v1: "view d1 = set_stmt s (sql_upsert_latest, Map.empty) (view d)"
    unfolding d1_def by (rule fresh_row_view [OF laws rdy])
  have v2: "view d2 = set_stmt s (sql_upsert_latest, [1 \<mapsto> SqlText (node_key n)]) (view d)"
    unfolding d2_def by (subst bind_simps(1) [OF laws]) (simp_all add: v1)
  have v3: "view d3 = set_stmt s (sql_upsert_latest, [1 \<mapsto> SqlText (node_key n),
      2 \<mapsto> real_column (edge_node_as_double n)]) (view d)"
    unfolding d3_def by (subst bind_simps(4) [OF laws]) (simp_all add: v2)
  have v4: "view d4 = set_stmt s (sql_upsert_latest, ?b) (view d)"
    unfolding d4_def by (subst bind_simps(3) [OF laws]) (simp_all add: v3)
  then have st: "dv_stmts (view d4) s = Some (sql_upsert_latest, ?b)" by simp
  have r: "r = (let (st, d5) = step_done api (Some s) d4
           in if st \<noteq> EDGE_STATUS_OK
              then (Some EDGE_STATUS_ERROR, snd (exec_sql api store sql_rollback (sqlite3_finalize api (Some s) d5)))
              else (None, d5))"
    using fit by (simp add: r_def persist_value_def n_def d4_def d3_def d2_def d1_def Let_def)
  show "\<exists>d'. r = (None, d') \<and> ready view s sql_upsert_latest d' \<and>
      dv_latest (view d') = (dv_latest (view d))(node_key n \<mapsto> edge_node_as_double n) \<and>
      dv_history (view d') = dv_history (view d) \<and> dv_saved (view d') = dv_saved (view d)" if "storable n"
  proof -
    have "upsert_latest ?b (view d4) =
        Some ((view d4)\<lparr>dv_latest := (dv_latest (view d4))(node_key n \<mapsto> edge_node_as_double n)\<rparr>)"
      using that by (simp add: upsert_latest_def real_column_def)
    from step_upsert(1) [OF laws st this] obtain d5 where "step_done api (Some s) d4 = (EDGE_STATUS_OK, d5)"
      "view d5 = (view d4)\<lparr>dv_latest := (dv_latest (view d4))(node_key n \<mapsto> edge_node_as_double n)\<rparr>" by blast
    with st show ?thesis by (simp add: r ready_def v4)
  qed
  show "\<exists>d'. r = (Some EDGE_STATUS_ERROR, d') \<and>
      dv_latest (view d') = fst (dv_saved (view d)) \<and> dv_history (view d') = snd (dv_saved (view d))"
    if "\<not> storable n"
  proof -
    have "upsert_latest ?b (view d4) = None" using that by (simp add: upsert_latest_def real_column_def)
    from step_upsert(2) [OF laws st this] obtain d5 where d5: "step_done api (Some s) d4 = (EDGE_STATUS_ERROR, d5)"
      "view d5 = view d4" by blast
    have "ready view s sql_upsert_latest d5" using st d5(2) by (simp add: ready_def)
    note fin = finalize_view [OF laws this]
    from exec_view [OF laws, of "sqlite3_finalize api (Some s) d5"] obtain d6 where
      "exec_sql api store sql_rollback (sqlite3_finalize api (Some s) d5) = (EDGE_STATUS_OK, d6)"
      "view d6 = (view (sqlite3_finalize api (Some s) d5))\<lparr>
         dv_latest := fst (dv_saved (view (sqlite3_finalize api (Some s) d5))),
         dv_history := snd (dv_saved (view (sqlite3_finalize api (Some s) d5)))\<rparr>"
      unfolding store by blast
    then show ?thesis by (simp add: r d5 fin v4)
  qed
qed

lemma persist_values_loop:
  fixes now :: u64
  assumes laws: "sqlite_laws api h view" and store: "store = \<lparr>es_db = Some h\<rparr>"
    and fit: "node_ids_fit (m_nodes model)" and rdy: "ready view s sql_upsert_latest d"
    and k: "k \<le> length (m_nodes model)"
  defines "r \<equiv> for_upto k (persist_value api store model now (Some s)) d"
  shows "list_all storable (take k (m_nodes model)) \<Longrightarrow>
      \<exists>d'. r = (None, d') \<and> ready view s sql_upsert_latest d' \<and>
        dv_latest (view d') = put_values (take k (m_nodes model)) (dv_latest (view d)) \<and>
        dv_history (view d') = dv_history (view d) \<and> dv_saved (view d') = dv_saved (view d)"
    and "\<not> list_all storable (take k (m_nodes model)) \<Longrightarrow>
      \<exists>d'. r = (Some EDGE_STATUS_ERROR, d') \<and>
        dv_latest (view d') = fst (dv_saved (view d)) \<and> dv_history (view d') = snd (dv_saved (view d))"
  using k unfolding r_def
proof (induction k)
  case 0
  { case 1 then show ?case using rdy by (simp add: put_values_def) next case 2 then show ?case by simp }
next
  case (Suc k)
  let ?ns = "m_nodes model" and ?n = "m_nodes model ! k"
  let ?body = "persist_value api store model now (Some s)"
  have key: "make_node_key ?n EDGE_STORE_KEY_LEN = (EDGE_STATUS_OK, node_key ?n)"
    if "k < length ?ns"
    using fit that by (intro make_node_key_ok) (simp_all add: node_ids_fit_def list_all_length)
  have go: "for_upto (Suc k) ?body d = ?body k d'" if "for_upto k ?body d = (None, d')" for d'
    using that by (simp add: for_upto_Suc del: upt_Suc)
  have stop: "for_upto (Suc k) ?body d = (Some e, d')" if "for_upto k ?body d = (Some e, d')" for e d'
    using that by (simp add: for_upto_Suc del: upt_Suc)
  { case 1
    then have k: "k < length ?ns" by simp
    have t: "take (Suc k) ?ns = take k ?ns @ [?n]" using k by (simp add: take_Suc_conv_app_nth)
    with 1 have "list_all storable (take k ?ns)" "storable ?n" by simp_all
    with Suc.IH(1) k obtain d' where d': "for_upto k ?body d = (None, d')" "ready view s sql_upsert_latest d'"
      "dv_latest (view d') = put_values (take k ?ns) (dv_latest (view d))"
      "dv_history (view d') = dv_history (view d)" "dv_saved (view d') = dv_saved (view d)" by auto
    from persist_value_row(1) [OF laws store key [OF k] d'(2) \<open>storable ?n\<close>, of now] d'
    show ?case unfolding go [OF d'(1)] t put_values_snoc by auto
  next
    case 2
    then have k: "k < length ?ns" by simp
    have t: "take (Suc k) ?ns = take k ?ns @ [?n]" using k by (simp add: take_Suc_conv_app_nth)
    show ?case
    proof (cases "list_all storable (take k ?ns)")
      case True
      with 2(1) have "\<not> storable ?n" by (simp add: t)
      from Suc.IH(1) [OF True] k obtain d' where d': "for_upto k ?body d = (None, d')"
        "ready view s sql_upsert_latest d'" "dv_saved (view d') = dv_saved (view d)" by auto
      from persist_value_row(2) [OF laws store key [OF k] d'(2) \<open>\<not> storable ?n\<close>, of now] d'(3)
      show ?thesis unfolding go [OF d'(1)] by simp
    next
      case False
      from Suc.IH(2) [OF False] k show ?thesis using stop by fastforce
    qed }
qed

lemma clock_view: "sqlite_laws api h view \<Longrightarrow> view (snd (store_clock_gettime api d)) = view d"
  by (simp add: sqlite_laws_def exec_laws_def)

lemma persist_values_ok:
  fixes d :: 'd
  assumes laws: "sqlite_laws api h view" and store: "store = \<lparr>es_db = Some h\<rparr>"
    and fit: "node_ids_fit (m_nodes model)"
  defines "r \<equiv> edge_store_persist_latest_values api store model d"
  shows "list_all storable (m_nodes model) \<Longrightarrow> \<exists>d'. r = (EDGE_STATUS_OK, d') \<and>
      dv_latest (view d') = put_values (m_nodes model) (dv_latest (view d)) \<and>
      dv_history (view d') = dv_history (view d)"
    and "\<not> list_all storable (m_nodes model) \<Longrightarrow> \<exists>d'. r = (EDGE_STATUS_ERROR, d') \<and>
      dv_latest (view d') = dv_latest (view d) \<and> dv_history (view d') = dv_history (view d)"
proof -
  obtain now d0 where clk: "edge_time_now_ms (store_clock_gettime api) d = (now, d0)" "view d0 = view d"
    using clock_view [OF laws, of d] that
    by (cases "store_clock_gettime api d") (auto simp: edge_time_now_ms_def)
  obtain s d1 where prep: "prepare api (Some h) sql_upsert_latest d0 = (EDGE_STATUS_OK, Some s, d1)"
    "view d1 = set_stmt s (sql_upsert_latest, Map.empty) (view d)"
    using prepare_view [OF laws, of sql_upsert_latest d0] clk(2) by auto
  obtain d2 where beg: "exec_sql api store sql_begin d1 = (EDGE_STATUS_OK, d2)"
    "view d2 = (view d1)\<lparr>dv_saved := (dv_latest (view d1), dv_history (view d1))\<rparr>"
    using exec_view [OF laws, of d1] unfolding store by blast
  have rdy: "ready view s sql_upsert_latest d2" by (simp add: ready_def beg(2) prep(2))
  have tabs: "dv_latest (view d2) = dv_latest (view d)" "dv_history (view d2) = dv_history (view d)"
    "dv_saved (view d2) = (dv_latest (view d), dv_history (view d))" by (simp_all add: beg(2) prep(2))
  let ?body = "persist_value api store model now (Some s)"
  have es: "es_db store = Some h" by (simp add: store)
  have r: "r = (case for_upto (length (m_nodes model)) ?body d2 of
             (Some st, d3) \<Rightarrow> (st, d3)
           | (None, d3) \<Rightarrow>
               (let d4 = sqlite3_finalize api (Some s) d3; (st, d5) = exec_sql api store sql_commit d4
                in if st \<noteq> EDGE_STATUS_OK then (EDGE_STATUS_ERROR, d5) else (EDGE_STATUS_OK, d5)))"
    using clk(1) prep(1) beg(1) es by (simp add: r_def edge_store_persist_latest_values_def)
  note loop = persist_values_loop [OF laws store fit rdy order_refl, of now, simplified, unfolded tabs, simplified]
  show "\<exists>d'. r = (EDGE_STATUS_OK, d') \<and>
      dv_latest (view d') = put_values (m_nodes model) (dv_latest (view d)) \<and>
      dv_history (view d') = dv_history (view d)" if "list_all storable (m_nodes model)"
  proof -
    from loop(1) [OF that] obtain d3 where d3: "for_upto (length (m_nodes model)) ?body d2 = (None, d3)"
      "ready view s sql_upsert_latest d3"
      "dv_latest (view d3) = put_values (m_nodes model) (dv_latest (view d))"
      "dv_history (view d3) = dv_history (view d)" by blast
    from exec_view [OF laws, of "sqlite3_finalize api (Some s) d3"] obtain d5 where
      "exec_sql api store sql_commit (sqlite3_finalize api (Some s) d3) = (EDGE_STATUS_OK, d5)"
      "view d5 = view (sqlite3_finalize api (Some s) d3)" unfolding store by blast
    with d3 finalize_view [OF laws d3(2)] show ?thesis by (simp add: r)
  qed
  show "\<exists>d'. r = (EDGE_STATUS_ERROR, d') \<and>
      dv_latest (view d') = dv_latest (view d) \<and> dv_history (view d') = dv_history (view d)"
    if "\<not> list_all storable (m_nodes model)"
    using loop(2) [OF that] by (auto simp: r)
qed

section \<open>Loading latest values\<close>

definition restore :: "c_impl \<Rightarrow> latest_table \<Rightarrow> EdgeNode \<Rightarrow> EdgeNode" where
  "restore cc t n = (case t (node_key n) of None \<Rightarrow> n | Some x \<Rightarrow> edge_node_set_from_double cc n x)"

lemma load_value_row:
  assumes laws: "sqlite_laws api h view" and rdy: "ready view s sql_select_latest d"
    and fit: "make_node_key (m_nodes m ! i) EDGE_STORE_KEY_LEN = (EDGE_STATUS_OK, node_key (m_nodes m ! i))"
  shows "\<exists>d'. load_value cc api (Some s) i (m, d) =
      (None, m\<lparr>m_nodes := (m_nodes m)[i := restore cc (dv_latest (view d)) (m_nodes m ! i)]\<rparr>, d') \<and>
    ready view s sql_select_latest d' \<and> dv_latest (view d') = dv_latest (view d) \<and>
    dv_history (view d') = dv_history (view d)"
proof -
  let ?n = "m_nodes m ! i"
  define d1 where "d1 = fresh_row api (Some s) d"
  define d2 where "d2 = sqlite3_bind_text api (Some s) 1 (node_key ?n) d1"
  have v1: "view d1 = set_stmt s (sql_select_latest, Map.empty) (view d)"
    unfolding d1_def by (rule fresh_row_view [OF laws rdy])
  have v2: "view d2 = set_stmt s (sql_select_latest, [1 \<mapsto> SqlText (node_key ?n)]) (view d)"
    unfolding d2_def by (subst bind_simps(1) [OF laws]) (simp_all add: v1)
  then have "dv_stmts (view d2) s = Some (sql_select_latest, [1 \<mapsto> SqlText (node_key ?n)])" by simp
  from step_select [OF laws this, of "node_key ?n"] obtain d3 where d3:
    "sqlite3_step api (Some s) d2 =
       (case dv_latest (view d2) (node_key ?n) of None \<Rightarrow> SQLITE_DONE | Some _ \<Rightarrow> SQLITE_ROW, d3)"
    "view d3 = view d2"
    "\<forall>x. dv_latest (view d2) (node_key ?n) = Some x \<longrightarrow> sqlite3_column_double api (Some s) 0 d3 = x" by auto
  have eq: "load_value cc api (Some s) i (m, d) = (let (rc, d3) = sqlite3_step api (Some s) d2
      in if rc = SQLITE_ROW
         then (None, m\<lparr>m_nodes := (m_nodes m)[i := edge_node_set_from_double cc ?n (sqlite3_column_double api (Some s) 0 d3)]\<rparr>, d3)
         else (None, m, d3))"
    using fit by (simp add: load_value_def d2_def d1_def Let_def)
  have "load_value cc api (Some s) i (m, d) =
      (None, m\<lparr>m_nodes := (m_nodes m)[i := restore cc (dv_latest (view d)) ?n]\<rparr>, d3)"
    using d3 by (cases "dv_latest (view d) (node_key ?n)") (simp_all add: eq v2 restore_def sqlite_codes)
  moreover have "ready view s sql_select_latest d3" by (simp add: ready_def d3(2) v2)
  ultimately show ?thesis by (simp add: d3(2) v2)
qed

lemma restore_ids [simp]:
  "n_id (restore cc t n) = n_id n" "n_asset_id (restore cc t n) = n_asset_id n"
  "n_data_type (restore cc t n) = n_data_type n"
  by (simp_all add: restore_def frame_simps split: option.split)

lemma load_values_ok:
  assumes laws: "sqlite_laws api h view" and store: "store = \<lparr>es_db = Some h\<rparr>"
    and fit: "node_ids_fit (m_nodes model)"
  shows "\<exists>d'. edge_store_load_latest_values cc api store model d =
      (EDGE_STATUS_OK, model\<lparr>m_nodes := map (restore cc (dv_latest (view d))) (m_nodes model)\<rparr>, d') \<and>
    dv_latest (view d') = dv_latest (view d) \<and> dv_history (view d') = dv_history (view d)"
proof -
  let ?ns = "m_nodes model" and ?t = "dv_latest (view d)"
  let ?S = "\<lambda>ns. model\<lparr>m_nodes := ns\<rparr>"
  obtain s d1 where prep: "prepare api (Some h) sql_select_latest d = (EDGE_STATUS_OK, Some s, d1)"
    "view d1 = set_stmt s (sql_select_latest, Map.empty) (view d)"
    using prepare_view [OF laws, of sql_select_latest d] by auto
  define I where "I i p = (case p of (m, d') \<Rightarrow> m = ?S (map (restore cc ?t) (take i ?ns) @ drop i ?ns) \<and>
      ready view s sql_select_latest d' \<and> dv_latest (view d') = ?t \<and>
      dv_history (view d') = dv_history (view d))" for i :: nat and p
  have "\<exists>p. for_upto (length ?ns) (load_value cc api (Some s)) (model, d1) = (None, p) \<and> I (length ?ns) p"
  proof (rule for_upto_total)
    show "I 0 (model, d1)" by (simp add: I_def ready_def prep(2))
  next
    fix i p assume i: "i < length ?ns" and "I i p"
    then obtain d' where p: "p = (?S (map (restore cc ?t) (take i ?ns) @ drop i ?ns), d')"
      "ready view s sql_select_latest d'" "dv_latest (view d') = ?t" "dv_history (view d') = dv_history (view d)"
      by (auto simp: I_def split: prod.splits)
    let ?m = "?S (map (restore cc ?t) (take i ?ns) @ drop i ?ns)"
    have at: "m_nodes ?m ! i = ?ns ! i" using i by (simp add: rewritten_update(2))
    have "make_node_key (?ns ! i) EDGE_STORE_KEY_LEN = (EDGE_STATUS_OK, node_key (?ns ! i))"
      using fit i by (intro make_node_key_ok) (simp_all add: node_ids_fit_def list_all_length)
    from load_value_row [OF laws p(2), of ?m i cc, unfolded at, OF this] obtain d'' where
      "load_value cc api (Some s) i (?m, d') =
         (None, ?m\<lparr>m_nodes := (m_nodes ?m)[i := restore cc ?t (?ns ! i)]\<rparr>, d'')"
      "ready view s sql_select_latest d''" "dv_latest (view d'') = ?t" "dv_history (view d'') = dv_history (view d)"
      using p(3,4) by auto
    then show "\<exists>t'. load_value cc api (Some s) i p = (None, t') \<and> I (Suc i) t'"
      using rewritten_update(1) [OF i, of "restore cc ?t"] by (simp add: I_def p(1))
  qed
  then obtain d2 where d2: "for_upto (length ?ns) (load_value cc api (Some s)) (model, d1) =
      (None, ?S (map (restore cc ?t) ?ns), d2)" "ready view s sql_select_latest d2" "dv_latest (view d2) = ?t"
      "dv_history (view d2) = dv_history (view d)"
    by (auto simp: I_def split: prod.splits)
  with prep finalize_view [OF laws d2(2)] show ?thesis
    by (simp add: edge_store_load_latest_values_def store)
qed

section \<open>The store as an interface\<close>

text \<open>
  What a restart relies on: saving a good model succeeds, and loading into a model of the same
  configuration brings its values back.  Then any number of restarts keeps them.
\<close>

locale value_store =
  fixes save :: "'m \<Rightarrow> 'd \<Rightarrow> 'd option"
    and load :: "'m \<Rightarrow> 'd \<Rightarrow> 'm \<times> 'd"
    and good :: "'m \<Rightarrow> bool"
    and alike :: "'m \<Rightarrow> 'm \<Rightarrow> bool"
    and same :: "'m \<Rightarrow> 'm \<Rightarrow> bool"
  assumes save_total: "good m \<Longrightarrow> \<exists>d'. save m d = Some d'"
    and load_save: "good m \<Longrightarrow> alike m m0 \<Longrightarrow> save m d = Some d' \<Longrightarrow> same m (fst (load m0 d'))"
    and load_alike: "alike m m0 \<Longrightarrow> alike (fst (load m0 d)) m0"
    and same_good: "good m \<Longrightarrow> alike m m0 \<Longrightarrow> same m (fst (load m0 d)) \<Longrightarrow> good (fst (load m0 d))"
    and same_refl: "same m m"
    and same_trans: "same m1 m2 \<Longrightarrow> same m2 m3 \<Longrightarrow> same m1 m3"
begin

primrec restarts :: "'m \<Rightarrow> nat \<Rightarrow> 'm \<times> 'd \<Rightarrow> ('m \<times> 'd) option" where
  "restarts m0 0 s = Some s"
| "restarts m0 (Suc k) s = (case save (fst s) (snd s) of None \<Rightarrow> None | Some d \<Rightarrow> restarts m0 k (load m0 d))"

lemma restarts_keep:
  assumes "good m" and "alike m m0"
  shows "\<exists>m' d'. restarts m0 k (m, d) = Some (m', d') \<and> same m m'"
  using assms
proof (induction k arbitrary: m d)
  case 0
  then show ?case by (simp add: same_refl)
next
  case (Suc k)
  from save_total [OF Suc.prems(1)] obtain d1 where d1: "save m d = Some d1" by blast
  let ?m1 = "fst (load m0 d1)" and ?d2 = "snd (load m0 d1)"
  have s: "same m ?m1" by (rule load_save [OF Suc.prems d1])
  have "good ?m1" "alike ?m1 m0"
    using same_good [OF Suc.prems s] load_alike [OF Suc.prems(2)] by auto
  from Suc.IH [OF this, of ?d2] obtain m' d' where "restarts m0 k (load m0 d1) = Some (m', d')" "same ?m1 m'"
    by auto
  with d1 same_trans [OF s] show ?case by auto
qed

end

text \<open>Configuration and values of the node array.\<close>

definition node_shape :: "EdgeNode \<Rightarrow> string \<times> string \<times> EdgeDataType option" where
  "node_shape n = (n_asset_id n, n_id n, n_data_type n)"

definition same_value :: "EdgeNode \<Rightarrow> EdgeNode \<Rightarrow> bool" where
  "same_value n n' = (node_shape n' = node_shape n \<and>
     (case n_data_type n of None \<Rightarrow> True | Some t \<Rightarrow> node_member t (n_value n') = node_member t (n_value n)))"

definition same_values :: "EdgeModel \<Rightarrow> EdgeModel \<Rightarrow> bool" where
  "same_values m m' = list_all2 same_value (m_nodes m) (m_nodes m')"

definition saveable :: "EdgeModel \<Rightarrow> bool" where
  "saveable m = (node_ids_fit (m_nodes m) \<and> distinct (map node_key (m_nodes m)) \<and>
     list_all (\<lambda>n. n_data_type n \<noteq> None \<and> bool_ok n \<and> storable n) (m_nodes m))"

lemma put_values_other: "k \<notin> node_key ` set ns \<Longrightarrow> put_values ns t k = t k"
  unfolding put_values_def by (induction ns arbitrary: t) auto

lemma put_values_lookup:
  "distinct (map node_key ns) \<Longrightarrow> n \<in> set ns \<Longrightarrow>
     put_values ns t (node_key n) = Some (edge_node_as_double n)"
proof (induction ns rule: rev_induct)
  case (snoc x xs)
  show ?case
  proof (cases "n = x")
    case True
    then show ?thesis by (simp add: put_values_snoc)
  next
    case False
    with snoc.prems have "n \<in> set xs" by simp
    moreover have "node_key n \<noteq> node_key x"
    proof
      assume "node_key n = node_key x"
      then have "node_key x \<in> node_key ` set xs" using \<open>n \<in> set xs\<close> by (metis imageI)
      with snoc.prems(1) show False by simp
    qed
    ultimately show ?thesis using snoc by (simp add: put_values_snoc)
  qed
qed simp

lemma node_key_shape: "node_shape n = node_shape n' \<Longrightarrow> node_key n = node_key n'"
  by (simp add: node_shape_def node_key_def)

lemma restore_same_value:
  assumes "n_data_type n \<noteq> None" and "bool_ok n" and "node_shape n0 = node_shape n"
    and "t (node_key n) = Some (edge_node_as_double n)"
  shows "same_value n (restore cc t n0)"
proof -
  obtain ty where ty: "n_data_type n = Some ty" "n_data_type n0 = Some ty"
    using assms(1,3) by (auto simp: node_shape_def)
  have "t (node_key n0) = Some (edge_node_as_double n)"
    using assms(4) node_key_shape [OF assms(3)] by simp
  then have "restore cc t n0 = edge_node_set_from_double cc n0 (edge_node_as_double n)"
    by (simp add: restore_def)
  with value_roundtrip [OF ty(1,2) assms(2), of cc] assms(3) ty show ?thesis
    by (simp add: same_value_def node_shape_def frame_simps)
qed

text \<open>The double read off a node depends on its type and member only.\<close>

lemma as_double_member:
  assumes "n_data_type n = Some t" and "n_data_type n' = Some t"
    and "node_member t (n_value n') = node_member t (n_value n)"
  shows "edge_node_as_double n' = edge_node_as_double n" and "bool_ok n \<Longrightarrow> bool_ok n'"
proof -
  have u: "uint x = uint y \<longleftrightarrow> x = y" for x y :: "'a::len word" by (simp add: word_uint_eq_iff)
  show "edge_node_as_double n' = edge_node_as_double n"
    using assms by (cases t) (simp_all add: edge_node_as_double_def node_member_def u)
  show "bool_ok n \<Longrightarrow> bool_ok n'"
    using assms by (cases t) (simp_all add: bool_ok_def node_member_def u)
qed

lemma same_value_storable:
  assumes "same_value n n'" and "n_data_type n \<noteq> None \<and> bool_ok n \<and> storable n"
  shows "n_data_type n' \<noteq> None \<and> bool_ok n' \<and> storable n'"
proof -
  obtain t where t: "n_data_type n = Some t" using assms(2) by auto
  then have t': "n_data_type n' = Some t" "node_member t (n_value n') = node_member t (n_value n)"
    using assms(1) by (simp_all add: same_value_def node_shape_def)
  with as_double_member [OF t t'] assms(2) show ?thesis by simp
qed

lemma same_value_refl: "same_value n n"
  by (simp add: same_value_def split: option.split)

lemma same_value_trans: "same_value n1 n2 \<Longrightarrow> same_value n2 n3 \<Longrightarrow> same_value n1 n3"
  by (auto simp: same_value_def node_shape_def split: option.splits)

definition save_values :: "('h, 's, 'd) sqlite_api \<Rightarrow> 'h \<Rightarrow> EdgeModel \<Rightarrow> 'd \<Rightarrow> 'd option" where
  "save_values api h m d =
     (case edge_store_persist_latest_values api \<lparr>es_db = Some h\<rparr> m d of
        (EDGE_STATUS_OK, d') \<Rightarrow> Some d' | _ \<Rightarrow> None)"

definition load_values :: "c_impl \<Rightarrow> ('h, 's, 'd) sqlite_api \<Rightarrow> 'h \<Rightarrow> EdgeModel \<Rightarrow> 'd \<Rightarrow> EdgeModel \<times> 'd" where
  "load_values cc api h m d = snd (edge_store_load_latest_values cc api \<lparr>es_db = Some h\<rparr> m d)"

definition alike :: "EdgeModel \<Rightarrow> EdgeModel \<Rightarrow> bool" where
  "alike m m0 = (map node_shape (m_nodes m) = map node_shape (m_nodes m0))"

lemma alike_ids_fit: "alike m m0 \<Longrightarrow> node_ids_fit (m_nodes m) \<Longrightarrow> node_ids_fit (m_nodes m0)"
proof -
  have *: "node_ids_fit ns = list_all (\<lambda>(a, i, t). fits EDGE_MAX_ID_LEN a \<and> fits EDGE_MAX_ID_LEN i) (map node_shape ns)" for ns
    by (simp add: node_ids_fit_def list.pred_map comp_def node_shape_def)
  show "alike m m0 \<Longrightarrow> node_ids_fit (m_nodes m) \<Longrightarrow> node_ids_fit (m_nodes m0)"
    unfolding * alike_def by simp
qed

lemma load_shapes: "map node_shape (map (restore cc t) ns) = map node_shape ns"
  by (simp add: node_shape_def)

lemma load_save_same:
  assumes laws: "sqlite_laws api h view" and ok: "saveable m" and al: "alike m m0"
    and sv: "save_values api h m d = Some d'"
  shows "fst (load_values cc api h m0 d') =
      m0\<lparr>m_nodes := map (restore cc (put_values (m_nodes m) (dv_latest (view d)))) (m_nodes m0)\<rparr>"
    and "same_values m (fst (load_values cc api h m0 d'))"
proof -
  let ?t = "put_values (m_nodes m) (dv_latest (view d))"
  have "list_all storable (m_nodes m)" "node_ids_fit (m_nodes m)"
    using ok by (auto simp: saveable_def list.pred_set)
  from persist_values_ok(1) [OF laws refl this(2,1), of d] sv
  have d': "dv_latest (view d') = ?t" by (auto simp: save_values_def)
  have "node_ids_fit (m_nodes m0)" using alike_ids_fit [OF al] ok by (simp add: saveable_def)
  from load_values_ok [OF laws refl this, of cc d'] obtain d'' where
    "edge_store_load_latest_values cc api \<lparr>es_db = Some h\<rparr> m0 d' =
      (EDGE_STATUS_OK, m0\<lparr>m_nodes := map (restore cc (dv_latest (view d'))) (m_nodes m0)\<rparr>, d'')" by blast
  then show eq: "fst (load_values cc api h m0 d') = m0\<lparr>m_nodes := map (restore cc ?t) (m_nodes m0)\<rparr>"
    by (simp add: load_values_def d')
  have len: "length (m_nodes m0) = length (m_nodes m)" using al by (metis alike_def length_map)
  show "same_values m (fst (load_values cc api h m0 d'))"
    unfolding eq same_values_def list_all2_conv_all_nth
  proof (simp add: len, intro allI impI)
    fix i assume i: "i < length (m_nodes m)"
    let ?n = "m_nodes m ! i"
    have mem: "?n \<in> set (m_nodes m)" using i by simp
    then have n: "n_data_type ?n \<noteq> None" "bool_ok ?n" using ok by (auto simp: saveable_def list.pred_set)
    have "map node_shape (m_nodes m0) ! i = map node_shape (m_nodes m) ! i" using al by (simp add: alike_def)
    then have sh: "node_shape (m_nodes m0 ! i) = node_shape ?n" using i len by simp
    have "?t (node_key ?n) = Some (edge_node_as_double ?n)"
      using ok mem by (intro put_values_lookup) (simp_all add: saveable_def)
    from restore_same_value [where t = ?t, OF n sh this] show "same_value ?n (restore cc ?t (m_nodes m0 ! i))" .
  qed
qed

text \<open>Whatever the database does, loading changes nothing of a node but its value.\<close>

lemma load_value_shapes:
  "map node_shape (m_nodes (fst (snd (load_value cc api stmt i (m, d))))) = map node_shape (m_nodes m)"
proof -
  have "map node_shape ((m_nodes m)[i := edge_node_set_from_double cc (m_nodes m ! i) x]) =
      map node_shape (m_nodes m)" for x
    by (cases "i < length (m_nodes m)")
       (simp_all add: map_update node_shape_def frame_simps list_update_same_conv list_update_beyond not_less)
  then show ?thesis by (simp add: load_value_def Let_def case_prod_beta)
qed

lemma load_loop_shapes:
  "map node_shape (m_nodes (fst (snd (for_upto n (load_value cc api stmt) (m, d))))) = map node_shape (m_nodes m)"
  by (rule for_in_invariant [where I = "\<lambda>s. map node_shape (m_nodes (fst s)) = map node_shape (m_nodes m)"])
     (simp, metis load_value_shapes prod.collapse snd_conv)

lemma load_values_shapes:
  "map node_shape (m_nodes (fst (load_values cc api h m d))) = map node_shape (m_nodes m)"
proof -
  obtain st stmt d1 where p: "prepare api (Some h) sql_select_latest d = (st, stmt, d1)" by (metis prod_cases3)
  obtain r m' d2 where l: "for_upto (length (m_nodes m)) (load_value cc api stmt) (m, d1) = (r, m', d2)"
    by (metis prod_cases3)
  have "map node_shape (m_nodes m') = map node_shape (m_nodes m)"
    using load_loop_shapes [of "length (m_nodes m)" cc api stmt m d1] l by simp
  then show ?thesis
    by (simp add: load_values_def edge_store_load_latest_values_def p l split: option.split)
qed

lemma same_values_saveable:
  assumes "saveable m" and "same_values m m'"
  shows "saveable m'"
proof -
  have two: "list_all2 same_value (m_nodes m) (m_nodes m')" using assms(2) by (simp add: same_values_def)
  then have sh: "map node_shape (m_nodes m') = map node_shape (m_nodes m)"
    by (induction rule: list_all2_induct) (auto simp: same_value_def)
  have "map node_key ns = map (\<lambda>(a, i, t). ''node:'' @ a @ ''.'' @ i) (map node_shape ns)" for ns
    by (simp add: node_key_def node_shape_def)
  then have "map node_key (m_nodes m') = map node_key (m_nodes m)" by (simp only: sh)
  moreover have "alike m m'" by (simp only: alike_def sh)
  then have "node_ids_fit (m_nodes m')"
    by (rule alike_ids_fit) (use assms(1) in \<open>simp add: saveable_def\<close>)
  moreover have "list_all (\<lambda>n. n_data_type n \<noteq> None \<and> bool_ok n \<and> storable n) (m_nodes m')"
  proof -
    define P where "P n = (n_data_type n \<noteq> None \<and> bool_ok n \<and> storable n)" for n
    have step: "same_value n n' \<Longrightarrow> P n \<Longrightarrow> P n'" for n n'
      unfolding P_def by (rule same_value_storable)
    have "list_all P (m_nodes m')" if "list_all P (m_nodes m)"
      using two that by (induction rule: list_all2_induct) (simp_all add: step)
    with assms(1) show ?thesis unfolding saveable_def P_def by blast
  qed
  ultimately show ?thesis using assms(1) by (simp add: saveable_def)
qed

interpretation store: value_store "save_values api h" "load_values cc api h"
  "\<lambda>m. sqlite_laws api h view \<and> saveable m" alike same_values
  for cc and api :: "('h, 's, 'd) sqlite_api" and h and view :: "'d \<Rightarrow> 's db_view"
proof unfold_locales
  fix m m0 m1 m2 m3 :: EdgeModel and d d' :: 'd
  show "same_values m m" by (simp add: same_values_def list.rel_refl same_value_refl)
  show "same_values m1 m2 \<Longrightarrow> same_values m2 m3 \<Longrightarrow> same_values m1 m3"
    unfolding same_values_def by (rule list_all2_trans [OF same_value_trans])
  show "alike m m0 \<Longrightarrow> alike (fst (load_values cc api h m0 d)) m0"
    by (simp add: alike_def load_values_shapes)
  assume good: "sqlite_laws api h view \<and> saveable m"
  show "\<exists>d'. save_values api h m d = Some d'"
  proof -
    have "list_all storable (m_nodes m)" "node_ids_fit (m_nodes m)"
      using good by (auto simp: saveable_def list.pred_set)
    from persist_values_ok(1) [OF conjunct1 [OF good] refl this(2,1), of d] show ?thesis
      by (auto simp: save_values_def)
  qed
  show "alike m m0 \<Longrightarrow> save_values api h m d = Some d' \<Longrightarrow> same_values m (fst (load_values cc api h m0 d'))"
    by (rule load_save_same(2) [OF conjunct1 [OF good] conjunct2 [OF good]])
  show "alike m m0 \<Longrightarrow> same_values m (fst (load_values cc api h m0 d)) \<Longrightarrow>
      sqlite_laws api h view \<and> saveable (fst (load_values cc api h m0 d))"
    using good same_values_saveable by blast
qed

section \<open>Claims on the store\<close>

text \<open>
  A stop and a start of the gateway, as far as values go: persist, then load into the model of a
  fresh process.
\<close>

primrec edge_restarts ::
    "c_impl \<Rightarrow> ('h, 's, 'd) sqlite_api \<Rightarrow> 'h \<Rightarrow> EdgeModel \<Rightarrow> nat \<Rightarrow> EdgeModel \<times> 'd \<Rightarrow> (EdgeModel \<times> 'd) option" where
  "edge_restarts cc api h m0 0 s = Some s"
| "edge_restarts cc api h m0 (Suc k) s =
     (case edge_store_persist_latest_values api \<lparr>es_db = Some h\<rparr> (fst s) (snd s) of
        (EDGE_STATUS_OK, d) \<Rightarrow>
          edge_restarts cc api h m0 k (snd (edge_store_load_latest_values cc api \<lparr>es_db = Some h\<rparr> m0 d))
      | _ \<Rightarrow> None)"

lemma edge_restarts_eq:
  fixes api :: "('h, 's, 'd) sqlite_api"
  shows "edge_restarts cc api h m0 k s = store.restarts TYPE('h) TYPE('s) api h cc m0 k s"
  by (induction k arbitrary: s)
     (auto simp: save_values_def load_values_def split: prod.split EdgeStatus.split)


definition sample_saved :: EdgeModel where
  "sample_saved = zero_model\<lparr>m_nodes := [
     zero_node\<lparr>n_id := ''t'', n_asset_id := ''a'', n_data_type := Some EDGE_DATA_INT16, n_value := 7\<rparr>,
     zero_node\<lparr>n_id := ''u'', n_asset_id := ''a'', n_data_type := Some EDGE_DATA_BOOL, n_value := 1\<rparr>]\<rparr>"

definition sample_fresh :: EdgeModel where
  "sample_fresh = zero_model\<lparr>m_nodes := map (\<lambda>n. n\<lparr>n_value := 0\<rparr>) (m_nodes sample_saved)\<rparr>"

lemma sample_saveable: "saveable sample_saved" and sample_alike: "alike sample_saved sample_fresh"
  by code_simp+




text \<open>C32: the row key of a node always fits its buffer when the identifiers fit theirs, and it
  identifies the node when the asset identifiers contain no dot.\<close>

theorem store_key_identifies:
  assumes "fits EDGE_MAX_ID_LEN (n_asset_id n)" and "fits EDGE_MAX_ID_LEN (n_id n)"
    and "fits EDGE_MAX_ID_LEN (n_asset_id n')" and "fits EDGE_MAX_ID_LEN (n_id n')"
    and "CHR ''.'' \<notin> set (n_asset_id n)" and "CHR ''.'' \<notin> set (n_asset_id n')"
  shows "fst (make_node_key n EDGE_STORE_KEY_LEN) = EDGE_STATUS_OK \<and>
    (make_node_key n EDGE_STORE_KEY_LEN = make_node_key n' EDGE_STORE_KEY_LEN \<longleftrightarrow>
     n_asset_id n = n_asset_id n' \<and> n_id n = n_id n')"
  using make_node_key_ok [OF assms(1,2)] make_node_key_ok [OF assms(3,4)] node_key_inj [OF assms(5,6)]
  by simp

theorem store_key_identifies_witness:
  "make_node_key (zero_node\<lparr>n_asset_id := ''p1'', n_id := ''a.b''\<rparr>) EDGE_STORE_KEY_LEN \<noteq>
   make_node_key (zero_node\<lparr>n_asset_id := ''p1a'', n_id := ''b''\<rparr>) EDGE_STORE_KEY_LEN"
  using store_key_identifies [of "zero_node\<lparr>n_asset_id := ''p1'', n_id := ''a.b''\<rparr>"
      "zero_node\<lparr>n_asset_id := ''p1a'', n_id := ''b''\<rparr>"]
  by (simp add: fits_def edge_limits)


text \<open>C33: the schema check refuses exactly the databases of a newer version: when the statements
  themselves succeed, initialisation succeeds for every version up to the current one, migrating
  version 1 first; the error branch for an older version that needs a manual upgrade is never taken.\<close>

theorem store_schema_version_check:
  assumes "\<And>sql d. fst (sqlite3_exec api (es_db store) sql d) = SQLITE_OK"
    and "sqlite3_prepare_v2 api (es_db store) sql_get_version
           (snd (sqlite3_exec api (es_db store) schema_sql d)) = (SQLITE_OK, stmt, d2)"
    and "sqlite3_step api stmt d2 = (SQLITE_ROW, d3)"
  shows "fst (edge_store_init_schema api store d) =
    (if sqlite3_column_int api stmt 0 d3 > 2 then EDGE_STATUS_ERROR else EDGE_STATUS_OK)"
proof -
  have ex: "exec_sql api store sql d = (EDGE_STATUS_OK, snd (sqlite3_exec api (es_db store) sql d))" for sql d
    using assms(1) [of sql d] by (simp add: exec_sql_def case_prod_beta)
  show ?thesis
    using assms(2,3)
    by (simp add: edge_store_init_schema_def ex Let_def edge_store_schema_version_def case_prod_beta)
qed

definition mem_api_v :: "int \<Rightarrow> (unit, nat, mem_db) sqlite_api" where
  "mem_api_v v = mem_api\<lparr>sqlite3_step := \<lambda>s d. (SQLITE_ROW, d), sqlite3_column_int := \<lambda>s i d. v\<rparr>"

theorem store_schema_version_check_witness:
  "fst (edge_store_init_schema (mem_api_v 3) \<lparr>es_db = Some ()\<rparr> mem_empty) = EDGE_STATUS_ERROR \<and>
   fst (edge_store_init_schema (mem_api_v 1) \<lparr>es_db = Some ()\<rparr> mem_empty) = EDGE_STATUS_OK"
proof -
  have "fst (edge_store_init_schema (mem_api_v v) \<lparr>es_db = Some ()\<rparr> mem_empty) =
      (if v > 2 then EDGE_STATUS_ERROR else EDGE_STATUS_OK)" for v
  proof -
    let ?st = "\<lparr>es_db = Some ()\<rparr>"
    have ex: "\<And>sql d. fst (sqlite3_exec (mem_api_v v) (es_db ?st) sql d) = SQLITE_OK"
      by (simp add: mem_api_v_def mem_api_def)
    obtain d2 where pr: "sqlite3_prepare_v2 (mem_api_v v) (es_db ?st) sql_get_version
        (snd (sqlite3_exec (mem_api_v v) (es_db ?st) schema_sql mem_empty)) = (SQLITE_OK, Some 0, d2)"
      by (simp add: mem_api_v_def mem_api_def mem_exec_def mem_empty_def)
    have "sqlite3_step (mem_api_v v) (Some 0) d2 = (SQLITE_ROW, d2)"
      by (simp add: mem_api_v_def)
    moreover have "sqlite3_column_int (mem_api_v v) (Some 0) 0 d2 = v" by (simp add: mem_api_v_def)
    ultimately show ?thesis using store_schema_version_check [OF ex pr] by (simp only:)
  qed
  then show ?thesis by simp
qed

end
