(* ===== verification/Edge_Events.thy ===== *)
theory Edge_Events
  imports Edge_Server Edge_Store_Values
begin

text \<open>
  Threshold events, \<open>src/edge_events.c\<close>: the condition, the texts of a notification, its emission
  over OPC UA and the evaluation pass with its latch.  A null \<open>server\<close> or \<open>stats\<close> argument, which the
  code accepts, is \<open>None\<close>.  \<open>event->source_node\<close> is an index into the nodes of the model.
\<close>

section \<open>Operations\<close>

definition EDGE_EVENT_NODEID_LEN :: nat where "EDGE_EVENT_NODEID_LEN = 160"
definition EDGE_EVENT_MESSAGE_LEN :: nat where "EDGE_EVENT_MESSAGE_LEN = 192"

definition event_condition_met :: "EdgeNode list \<Rightarrow> EdgeEvent \<Rightarrow> bool" where
  "event_condition_met nodes event =
     (case e_source_node event of
        None \<Rightarrow> False
      | Some k \<Rightarrow>
          (let x = edge_node_as_double (nodes ! k) in
           if e_condition event = Some EDGE_EVENT_GREATER_THAN then f64_lt (e_threshold event) x
           else if e_condition event = Some EDGE_EVENT_LESS_THAN then f64_lt x (e_threshold event)
           else False))"

definition make_event_source_nodeid :: "EdgeEvent \<Rightarrow> nat \<Rightarrow> EdgeStatus \<times> string" where
  "make_event_source_nodeid event dst_size =
     (if dst_size = 0 then (EDGE_STATUS_INVALID, [])
      else let (written, dst) = snprintf dst_size (''asset:'' @ e_asset_id event)
           in if written \<ge> dst_size then (EDGE_STATUS_LIMIT, dst) else (EDGE_STATUS_OK, dst))"

definition make_event_message :: "EdgeNode list \<Rightarrow> EdgeEvent \<Rightarrow> nat \<Rightarrow> EdgeStatus \<times> string" where
  "make_event_message nodes event dst_size =
     (case e_source_node event of
        None \<Rightarrow> (EDGE_STATUS_INVALID, [])
      | Some k \<Rightarrow>
          if dst_size = 0 then (EDGE_STATUS_INVALID, [])
          else let condition = (if e_condition event = Some EDGE_EVENT_LESS_THAN then ''below'' else ''above'');
                   (written, dst) = snprintf dst_size (e_id event @ '' '' @ condition @ '' '' @
                     fmt_3f (edge_node_as_double (nodes ! k)) @ '' threshold '' @ fmt_3f (e_threshold event))
               in if written \<ge> dst_size then (EDGE_STATUS_LIMIT, dst) else (EDGE_STATUS_OK, dst))"

definition UA_NS0ID_BASEEVENTTYPE :: nat where "UA_NS0ID_BASEEVENTTYPE = 2041"

definition emit_opcua_event ::
    "('v, 'u) ua_api \<Rightarrow> 'v EdgeServer option \<Rightarrow> EdgeNode list \<Rightarrow> EdgeEvent \<Rightarrow> 'u \<Rightarrow> EdgeStatus \<times> 'u" where
  "emit_opcua_event api server nodes event u =
     (case server of
        None \<Rightarrow> (EDGE_STATUS_OK, u)
      | Some sv \<Rightarrow>
          if sv_ua sv = None then (EDGE_STATUS_INVALID, u)
          else
            let (status, ns, u1) = UA_Server_getNamespaceByName api (sv_ua sv) edge_namespace 0 u;
                (ist, source_id) = make_event_source_nodeid event EDGE_EVENT_NODEID_LEN;
                (mst, message_text) = make_event_message nodes event EDGE_EVENT_MESSAGE_LEN
            in if status \<noteq> UA_STATUSCODE_GOOD \<or> ist \<noteq> EDGE_STATUS_OK \<or> mst \<noteq> EDGE_STATUS_OK
               then (EDGE_STATUS_ERROR, u1)
               else
                 let (written, source_name) = snprintf EDGE_EVENT_NODEID_LEN (e_asset_id event) in
                 if written \<ge> EDGE_EVENT_NODEID_LEN then (EDGE_STATUS_ERROR, u1)
                 else
                   let (status, u2) = UA_KeyValueMap_setScalar api (0, ''/SourceName'') source_name u1 in
                   if status \<noteq> UA_STATUSCODE_GOOD then (EDGE_STATUS_ERROR, UA_KeyValueMap_clear api u2)
                   else
                     let (status, u3) = UA_Server_createEvent api (sv_ua sv) (UaString (ucast ns) source_id)
                           UA_NS0ID_BASEEVENTTYPE (e_severity event) (''en-US'', message_text) u2;
                         u4 = UA_KeyValueMap_clear api u3
                     in (if status = UA_STATUSCODE_GOOD then EDGE_STATUS_OK else EDGE_STATUS_ERROR, u4))"

record EdgeEventStats =
  st_checked_count :: u32
  st_fired_count :: u32
  st_emitted_count :: u32

definition zero_stats :: EdgeEventStats where
  "zero_stats = \<lparr>st_checked_count = 0, st_fired_count = 0, st_emitted_count = 0\<rparr>"

text \<open>The objects that the evaluation changes.\<close>

record ('d, 'u) EvalState =
  ev_model :: EdgeModel
  ev_stats :: "EdgeEventStats option"
  ev_db :: 'd
  ev_ua :: 'u

definition set_active :: "nat \<Rightarrow> bool \<Rightarrow> EdgeModel \<Rightarrow> EdgeModel" where
  "set_active i b m = m\<lparr>m_events := (m_events m)[i := (m_events m ! i)\<lparr>e_active := b\<rparr>]\<rparr>"

definition stat_checked :: "EdgeEventStats \<Rightarrow> EdgeEventStats" where
  "stat_checked st = st\<lparr>st_checked_count := st_checked_count st + 1\<rparr>"

definition stat_fired :: "bool \<Rightarrow> EdgeEventStats \<Rightarrow> EdgeEventStats" where
  "stat_fired server_set st =
     (let st1 = st\<lparr>st_fired_count := st_fired_count st + 1\<rparr>
      in if server_set then st1\<lparr>st_emitted_count := st_emitted_count st1 + 1\<rparr> else st1)"

definition evaluate_event ::
    "('h, 's, 'd) sqlite_api \<Rightarrow> ('v, 'u) ua_api \<Rightarrow> 'h EdgeStore \<Rightarrow> 'v EdgeServer option \<Rightarrow> u64 \<Rightarrow> nat \<Rightarrow>
     ('d, 'u) EvalState \<Rightarrow> EdgeStatus option \<times> ('d, 'u) EvalState" where
  "evaluate_event sapi uapi store server now_ms i s =
     (let model = ev_model s; nodes = m_nodes model; event = m_events model ! i;
          met = event_condition_met nodes event;
          s1 = s\<lparr>ev_stats := map_option stat_checked (ev_stats s)\<rparr>
      in if met \<and> \<not> e_active event
         then
           let model1 = set_active i True model; event1 = m_events model1 ! i;
               x = (case e_source_node event1 of None \<Rightarrow> f64_zero | Some k \<Rightarrow> edge_node_as_double (nodes ! k));
               (hst, d1) = edge_store_insert_event_history sapi store event1 x now_ms (ev_db s1);
               s2 = s1\<lparr>ev_model := model1, ev_db := d1\<rparr>
           in if hst \<noteq> EDGE_STATUS_OK then (Some EDGE_STATUS_ERROR, s2)
              else
                let (est, u1) = emit_opcua_event uapi server nodes event1 (ev_ua s2);
                    s3 = s2\<lparr>ev_ua := u1\<rparr>
                in if est \<noteq> EDGE_STATUS_OK then (Some EDGE_STATUS_ERROR, s3)
                   else (None, s3\<lparr>ev_stats := map_option (stat_fired (server \<noteq> None)) (ev_stats s3)\<rparr>)
         else if \<not> met then (None, s1\<lparr>ev_model := set_active i False model\<rparr>)
         else (None, s1))"

definition edge_events_evaluate ::
    "('h, 's, 'd) sqlite_api \<Rightarrow> ('v, 'u) ua_api \<Rightarrow> 'h EdgeStore \<Rightarrow> 'v EdgeServer option \<Rightarrow>
     ('d, 'u) EvalState \<Rightarrow> EdgeStatus \<times> ('d, 'u) EvalState" where
  "edge_events_evaluate sapi uapi store server s =
     (let s0 = s\<lparr>ev_stats := map_option (\<lambda>_. zero_stats) (ev_stats s)\<rparr>;
          (now_ms, d1) = edge_time_now_ms (store_clock_gettime sapi) (ev_db s0);
          (r, s2) = for_upto (length (m_events (ev_model s0))) (evaluate_event sapi uapi store server now_ms)
                      (s0\<lparr>ev_db := d1\<rparr>)
      in (case r of None \<Rightarrow> EDGE_STATUS_OK | Some st \<Rightarrow> st, s2))"

section \<open>Storing a row\<close>

definition source_value :: "EdgeNode list \<Rightarrow> EdgeEvent \<Rightarrow> f64" where
  "source_value nodes e = (case e_source_node e of None \<Rightarrow> f64_zero | Some k \<Rightarrow> edge_node_as_double (nodes ! k))"

definition event_row :: "EdgeNode list \<Rightarrow> u64 \<Rightarrow> EdgeEvent \<Rightarrow> history_row" where
  "event_row nodes now e = (e_id e, source_value nodes e, e_threshold e, uint (e_severity e), sint now)"

text \<open>A condition that is met compares two numbers.\<close>

lemma condition_met_numbers:
  assumes "event_condition_met nodes e"
  shows "\<not> f64_isnan (source_value nodes e)" and "\<not> f64_isnan (e_threshold e)" and "e_source_node e \<noteq> None"
  using assms
  by (auto simp: event_condition_met_def source_value_def f64_lt_def Let_def split: option.splits if_splits)

lemma history_insert:
  assumes laws: "sqlite_laws api h view" and x: "\<not> f64_isnan x" and th: "\<not> f64_isnan (e_threshold e)"
  shows "\<exists>d'. edge_store_insert_event_history api \<lparr>es_db = Some h\<rparr> e x now d = (EDGE_STATUS_OK, d') \<and>
    dv_history (view d') = dv_history (view d) @ [(e_id e, x, e_threshold e, uint (e_severity e), sint now)] \<and>
    dv_latest (view d') = dv_latest (view d)"
proof -
  let ?q = sql_insert_history
  obtain s d1 where prep: "prepare api (Some h) ?q d = (EDGE_STATUS_OK, Some s, d1)"
    "view d1 = set_stmt s (?q, Map.empty) (view d)"
    using prepare_view [OF laws, of ?q d] by auto
  define d2 where "d2 = sqlite3_bind_text api (Some s) 1 (e_id e) d1"
  define d3 where "d3 = sqlite3_bind_double api (Some s) 2 x d2"
  define d4 where "d4 = sqlite3_bind_double api (Some s) 3 (e_threshold e) d3"
  define d5 where "d5 = sqlite3_bind_int api (Some s) 4 (uint (e_severity e)) d4"
  define d6 where "d6 = sqlite3_bind_int64 api (Some s) 5 (sint now) d5"
  let ?b2 = "[1 \<mapsto> SqlText (e_id e)]" let ?b3 = "?b2(2 \<mapsto> SqlReal x)"
  let ?b4 = "?b3(3 \<mapsto> SqlReal (e_threshold e))" let ?b5 = "?b4(4 \<mapsto> SqlInt (uint (e_severity e)))"
  let ?b6 = "?b5(5 \<mapsto> SqlInt (sint now))"
  have "view d2 = set_stmt s (?q, ?b2) (view d)"
    unfolding d2_def by (subst bind_simps(1) [OF laws]) (simp_all add: prep(2))
  then have "view d3 = set_stmt s (?q, ?b3) (view d)"
    unfolding d3_def using x by (subst bind_simps(4) [OF laws]) (simp_all add: real_column_def)
  then have "view d4 = set_stmt s (?q, ?b4) (view d)"
    unfolding d4_def using th by (subst bind_simps(4) [OF laws]) (simp_all add: real_column_def)
  then have "view d5 = set_stmt s (?q, ?b5) (view d)"
    unfolding d5_def by (subst bind_simps(2) [OF laws]) simp_all
  then have v6: "view d6 = set_stmt s (?q, ?b6) (view d)"
    unfolding d6_def by (subst bind_simps(3) [OF laws]) simp_all
  then have st: "dv_stmts (view d6) s = Some (?q, ?b6)" by simp
  let ?row = "(e_id e, x, e_threshold e, uint (e_severity e), sint now)"
  have "insert_history ?b6 (view d6) = Some ((view d6)\<lparr>dv_history := dv_history (view d6) @ [?row]\<rparr>)"
    by (simp add: insert_history_def)
  from step_history(1) [OF laws st this] obtain d7 where d7: "step_done api (Some s) d6 = (EDGE_STATUS_OK, d7)"
    "view d7 = (view d6)\<lparr>dv_history := dv_history (view d6) @ [?row]\<rparr>" by blast
  have "ready view s ?q d7" using st by (simp add: ready_def d7(2))
  note fin = finalize_view [OF laws this]
  have "edge_store_insert_event_history api \<lparr>es_db = Some h\<rparr> e x now d =
      (EDGE_STATUS_OK, sqlite3_finalize api (Some s) d7)"
    using prep(1) d7(1)
    by (simp add: edge_store_insert_event_history_def d6_def d5_def d4_def d3_def d2_def)
  then show ?thesis by (simp add: fin d7(2) v6)
qed

section \<open>Emitting a notification\<close>

text \<open>
  The documented behaviour of a running server with memory to spare: the namespace is found, the
  field can be set, and the event is created; \<open>evlog u\<close> are the events created so far.
\<close>

definition ua_event_laws :: "('v, 'u) ua_api \<Rightarrow> 'v \<Rightarrow> u64 \<Rightarrow> ('u \<Rightarrow> ua_event list) \<Rightarrow> bool" where
  "ua_event_laws api v ns evlog =
     (\<forall>u. (\<forall>n. \<exists>u'. UA_Server_getNamespaceByName api (Some v) edge_namespace n u = (UA_STATUSCODE_GOOD, ns, u') \<and> evlog u' = evlog u) \<and>
          (\<forall>k x. \<exists>u'. UA_KeyValueMap_setScalar api k x u = (UA_STATUSCODE_GOOD, u') \<and> evlog u' = evlog u) \<and>
          (\<forall>i ty sev lang msg. \<exists>u'. UA_Server_createEvent api (Some v) i ty sev (lang, msg) u = (UA_STATUSCODE_GOOD, u') \<and>
              evlog u' = evlog u @ [(i, sev, msg)]) \<and>
          evlog (UA_KeyValueMap_clear api u) = evlog u)"

definition message_text :: "EdgeNode list \<Rightarrow> EdgeEvent \<Rightarrow> string" where
  "message_text nodes e = e_id e @ '' '' @
     (if e_condition e = Some EDGE_EVENT_LESS_THAN then ''below'' else ''above'') @ '' '' @
     fmt_3f (source_value nodes e) @ '' threshold '' @ fmt_3f (e_threshold e)"

definition notification :: "u64 \<Rightarrow> EdgeNode list \<Rightarrow> EdgeEvent \<Rightarrow> ua_nodeid \<times> u16 \<times> string" where
  "notification ns nodes e = (UaString (ucast ns) (''asset:'' @ e_asset_id e), e_severity e, message_text nodes e)"

text \<open>The values that a message buffer can take: numbers up to \<open>10 ^ 49\<close>.\<close>

definition printable :: "EdgeNode list \<Rightarrow> EdgeEvent \<Rightarrow> bool" where
  "printable nodes e = (fits EDGE_MAX_ID_LEN (e_id e) \<and> fits EDGE_MAX_ID_LEN (e_asset_id e) \<and>
     (f64_isfinite (source_value nodes e) \<longrightarrow> \<bar>f64_val (source_value nodes e)\<bar> \<le> 10 ^ 49) \<and>
     (f64_isfinite (e_threshold e) \<longrightarrow> \<bar>f64_val (e_threshold e)\<bar> \<le> 10 ^ 49))"

lemma message_fits:
  assumes "printable nodes e"
  shows "length (message_text nodes e) < 192"
proof -
  have "length (e_id e) < 64" using assms by (simp add: printable_def fits_def edge_limits)
  moreover have "length (fmt_3f (source_value nodes e)) \<le> 49 + 6"
    using assms by (intro fmt_3f_length_le) (auto simp: printable_def)
  moreover have "length (fmt_3f (e_threshold e)) \<le> 49 + 6"
    using assms by (intro fmt_3f_length_le) (auto simp: printable_def)
  ultimately show ?thesis by (simp add: message_text_def)
qed

lemma make_event_message_eq:
  assumes "e_source_node e \<noteq> None"
  shows "make_event_message nodes e EDGE_EVENT_MESSAGE_LEN =
    (if length (message_text nodes e) \<ge> 192 then (EDGE_STATUS_LIMIT, take 191 (message_text nodes e))
     else (EDGE_STATUS_OK, message_text nodes e))"
proof -
  obtain k where k: "e_source_node e = Some k" using assms by auto
  have "make_event_message nodes e EDGE_EVENT_MESSAGE_LEN =
      (let (written, dst) = snprintf 192 (message_text nodes e)
       in if written \<ge> 192 then (EDGE_STATUS_LIMIT, dst) else (EDGE_STATUS_OK, dst))"
    using k by (simp only: make_event_message_def EDGE_EVENT_MESSAGE_LEN_def message_text_def source_value_def
        option.case Let_def) simp
  then show ?thesis by (simp add: snprintf_def)
qed

lemma make_nodeid_eq:
  assumes "fits EDGE_MAX_ID_LEN (e_asset_id e)"
  shows "make_event_source_nodeid e EDGE_EVENT_NODEID_LEN = (EDGE_STATUS_OK, ''asset:'' @ e_asset_id e)"
proof -
  have "length (''asset:'' @ e_asset_id e) < 159" using assms by (simp add: fits_def edge_limits)
  moreover have "make_event_source_nodeid e EDGE_EVENT_NODEID_LEN =
      (let (written, dst) = snprintf 160 (''asset:'' @ e_asset_id e)
       in if written \<ge> 160 then (EDGE_STATUS_LIMIT, dst) else (EDGE_STATUS_OK, dst))"
    by (simp only: make_event_source_nodeid_def EDGE_EVENT_NODEID_LEN_def) simp
  ultimately show ?thesis by (simp add: snprintf_def del: append.simps)
qed

lemma emit_ok:
  assumes laws: "ua_event_laws api v ns evlog" and pr: "printable nodes e" and src: "e_source_node e \<noteq> None"
    and sv: "sv_ua sv = Some v"
  shows "\<exists>u'. emit_opcua_event api (Some sv) nodes e u = (EDGE_STATUS_OK, u') \<and>
    evlog u' = evlog u @ [notification ns nodes e]"
proof -
  note L = laws [unfolded ua_event_laws_def, THEN spec]
  obtain u1 where u1: "UA_Server_getNamespaceByName api (Some v) edge_namespace 0 u = (UA_STATUSCODE_GOOD, ns, u1)"
    "evlog u1 = evlog u" using L [of u] by blast
  obtain u2 where u2: "UA_KeyValueMap_setScalar api (0, ''/SourceName'') (e_asset_id e) u1 = (UA_STATUSCODE_GOOD, u2)"
    "evlog u2 = evlog u1" using L [of u1] by blast
  obtain u3 where u3: "UA_Server_createEvent api (Some v) (UaString (ucast ns) (''asset:'' @ e_asset_id e))
      UA_NS0ID_BASEEVENTTYPE (e_severity e) (''en-US'', message_text nodes e) u2 = (UA_STATUSCODE_GOOD, u3)"
    "evlog u3 = evlog u2 @ [(UaString (ucast ns) (''asset:'' @ e_asset_id e), e_severity e, message_text nodes e)]"
    using L [of u2] by blast
  have cl: "evlog (UA_KeyValueMap_clear api u3) = evlog u3" using L [of u3] by blast
  have msg: "make_event_message nodes e EDGE_EVENT_MESSAGE_LEN = (EDGE_STATUS_OK, message_text nodes e)"
    using make_event_message_eq [OF src, of nodes] message_fits [OF pr] by simp
  have fit: "fits EDGE_MAX_ID_LEN (e_asset_id e)" using pr by (simp add: printable_def)
  then have nm: "snprintf EDGE_EVENT_NODEID_LEN (e_asset_id e) = (length (e_asset_id e), e_asset_id e)"
    "length (e_asset_id e) < EDGE_EVENT_NODEID_LEN"
    by (simp_all add: snprintf_def EDGE_EVENT_NODEID_LEN_def fits_def edge_limits)
  show ?thesis
    using u1 u2 u3 cl nm
    by (simp add: emit_opcua_event_def sv msg make_nodeid_eq [OF fit] notification_def Let_def)
qed

section \<open>One evaluation pass\<close>

definition fires :: "EdgeNode list \<Rightarrow> EdgeEvent \<Rightarrow> bool" where
  "fires nodes e = (event_condition_met nodes e \<and> \<not> e_active e)"

definition latched :: "EdgeNode list \<Rightarrow> EdgeEvent \<Rightarrow> EdgeEvent" where
  "latched nodes e = e\<lparr>e_active := event_condition_met nodes e\<rparr>"

definition channel_ok ::
    "('v, 'u) ua_api \<Rightarrow> u64 \<Rightarrow> ('u \<Rightarrow> ua_event list) \<Rightarrow> 'v EdgeServer option \<Rightarrow> bool" where
  "channel_ok api ns evlog server =
     (case server of None \<Rightarrow> True | Some sv \<Rightarrow> (\<exists>v. sv_ua sv = Some v \<and> ua_event_laws api v ns evlog))"

lemma event_fields_active [simp]:
  "event_condition_met nodes (e\<lparr>e_active := b\<rparr>) = event_condition_met nodes e"
  "source_value nodes (e\<lparr>e_active := b\<rparr>) = source_value nodes e"
  "printable nodes (e\<lparr>e_active := b\<rparr>) = printable nodes e"
  "event_row nodes now (e\<lparr>e_active := b\<rparr>) = event_row nodes now e"
  "notification ns nodes (e\<lparr>e_active := b\<rparr>) = notification ns nodes e"
  by (simp_all add: event_condition_met_def source_value_def printable_def event_row_def notification_def
      message_text_def Let_def split: option.split)

lemma emit_channel:
  assumes "channel_ok api ns evlog server" and "printable nodes e" and "e_source_node e \<noteq> None"
  shows "\<exists>u'. emit_opcua_event api server nodes e u = (EDGE_STATUS_OK, u') \<and>
    (server \<noteq> None \<longrightarrow> evlog u' = evlog u @ [notification ns nodes e])"
proof (cases server)
  case None
  then show ?thesis by (simp add: emit_opcua_event_def)
next
  case (Some sv)
  with assms(1) obtain v where "sv_ua sv = Some v" "ua_event_laws api v ns evlog" by (auto simp: channel_ok_def)
  from emit_ok [OF this(2) assms(2,3) this(1)] Some show ?thesis by auto
qed

text \<open>The statistics after \<open>n\<close> events of which \<open>k\<close> fired.\<close>

definition pass_stats :: "bool \<Rightarrow> nat \<Rightarrow> nat \<Rightarrow> EdgeEventStats" where
  "pass_stats server_set n k = \<lparr>st_checked_count = of_nat n, st_fired_count = of_nat k,
     st_emitted_count = (if server_set then of_nat k else 0)\<rparr>"

lemma pass_stats_step:
  "stat_checked (pass_stats b n k) = pass_stats b (Suc n) k"
  "stat_fired b (pass_stats b n k) = pass_stats b n (Suc k)"
  by (simp_all add: stat_checked_def stat_fired_def pass_stats_def Let_def)

definition eval_at ::
    "('d \<Rightarrow> 's db_view) \<Rightarrow> ('u \<Rightarrow> ua_event list) \<Rightarrow> u64 \<Rightarrow> u64 \<Rightarrow> 'v EdgeServer option \<Rightarrow>
     ('d, 'u) EvalState \<Rightarrow> nat \<Rightarrow> ('d, 'u) EvalState \<Rightarrow> bool" where
  "eval_at view evlog ns now server s0 i s =
     (let m = ev_model s0; nodes = m_nodes m; es = m_events m; fired = filter (fires nodes) (take i es) in
      ev_model s = m\<lparr>m_events := map (latched nodes) (take i es) @ drop i es\<rparr> \<and>
      ev_stats s = map_option (\<lambda>_. pass_stats (server \<noteq> None) i (length fired)) (ev_stats s0) \<and>
      dv_history (view (ev_db s)) = dv_history (view (ev_db s0)) @ map (event_row nodes now) fired \<and>
      dv_latest (view (ev_db s)) = dv_latest (view (ev_db s0)) \<and>
      (server \<noteq> None \<longrightarrow> evlog (ev_ua s) = evlog (ev_ua s0) @ map (notification ns nodes) fired))"

lemma set_active_latched:
  assumes "i < length (m_events m)" and "b = event_condition_met (m_nodes m) (m_events m ! i)"
    and "t = m\<lparr>m_events := map (latched (m_nodes m)) (take i (m_events m)) @ drop i (m_events m)\<rparr>"
  shows "set_active i b t =
    m\<lparr>m_events := map (latched (m_nodes m)) (take (Suc i) (m_events m)) @ drop (Suc i) (m_events m)\<rparr>"
    and "m_events t ! i = m_events m ! i"
  using rewritten_update [OF assms(1), of "latched (m_nodes m)"]
  by (simp_all add: assms(2,3) set_active_def) (simp add: latched_def)

lemma set_active_same:
  assumes "e_active (m_events m ! i)"
  shows "set_active i True m = m"
proof -
  have "(m_events m ! i)\<lparr>e_active := True\<rparr> = m_events m ! i" using assms by simp
  then show ?thesis unfolding set_active_def by simp
qed

lemma evaluate_event_exact:
  assumes laws: "sqlite_laws sapi h view" and ch: "channel_ok uapi ns evlog server"
    and i: "i < length (m_events (ev_model s0))"
    and pr: "printable (m_nodes (ev_model s0)) (m_events (ev_model s0) ! i)"
    and at: "eval_at view evlog ns now server s0 i s"
  shows "\<exists>s'. evaluate_event sapi uapi \<lparr>es_db = Some h\<rparr> server now i s = (None, s') \<and>
    eval_at view evlog ns now server s0 (Suc i) s'"
proof -
  let ?m = "ev_model s0" and ?nodes = "m_nodes (ev_model s0)" and ?e = "m_events (ev_model s0) ! i"
  let ?met = "event_condition_met ?nodes ?e"
  let ?fired = "filter (fires ?nodes) (take i (m_events ?m))"
  note at' = at [unfolded eval_at_def Let_def]
  have model: "ev_model s = ?m\<lparr>m_events := map (latched ?nodes) (take i (m_events ?m)) @ drop i (m_events ?m)\<rparr>"
    using at' by simp
  note act = set_active_latched [OF i refl model]
  have nodes: "m_nodes (ev_model s) = ?nodes" by (simp add: model)
  have take: "take (Suc i) (m_events ?m) = take i (m_events ?m) @ [?e]" using i by (simp add: take_Suc_conv_app_nth)
  show ?thesis
  proof (cases "fires ?nodes ?e")
    case False
    have st: "evaluate_event sapi uapi \<lparr>es_db = Some h\<rparr> server now i s =
        (None, s\<lparr>ev_stats := map_option stat_checked (ev_stats s), ev_model := set_active i ?met (ev_model s)\<rparr>)"
    proof (cases ?met)
      case True
      with False have "e_active (m_events (ev_model s) ! i)" by (simp only: act(2)) (simp add: fires_def)
      with True have "set_active i ?met (ev_model s) = ev_model s" by (simp add: set_active_same)
      with True False show ?thesis by (simp add: evaluate_event_def Let_def nodes act(2) fires_def)
    next
      case False
      then show ?thesis by (simp add: evaluate_event_def Let_def nodes act(2))
    qed
    with False at' act(1) show ?thesis
      by (simp add: eval_at_def Let_def take option.map_comp comp_def pass_stats_step)
  next
    case True
    then have met: ?met and "\<not> e_active ?e" by (simp_all add: fires_def)
    let ?e1 = "?e\<lparr>e_active := True\<rparr>" and ?x = "source_value ?nodes ?e"
    have e1: "m_events (set_active i True (ev_model s)) ! i = ?e1"
    proof -
      have "i < length (m_events (ev_model s))" using i by (simp add: model)
      then show ?thesis by (simp add: set_active_def act(2))
    qed
    have num: "\<not> f64_isnan ?x" "\<not> f64_isnan (e_threshold ?e1)" "e_source_node ?e1 \<noteq> None"
      using condition_met_numbers [OF met] by simp_all
    obtain d1 where d1: "edge_store_insert_event_history sapi \<lparr>es_db = Some h\<rparr> ?e1 ?x now (ev_db s) = (EDGE_STATUS_OK, d1)"
      "dv_history (view d1) = dv_history (view (ev_db s)) @ [event_row ?nodes now ?e]"
      "dv_latest (view d1) = dv_latest (view (ev_db s))"
      using history_insert [OF laws num(1,2), of now "ev_db s"] by (auto simp: event_row_def)
    have pr1: "printable ?nodes ?e1" using pr by simp
    obtain u1 where u1: "emit_opcua_event uapi server ?nodes ?e1 (ev_ua s) = (EDGE_STATUS_OK, u1)"
      "server \<noteq> None \<longrightarrow> evlog u1 = evlog (ev_ua s) @ [notification ns ?nodes ?e]"
      using emit_channel [OF ch pr1 num(3), of "ev_ua s"] by auto
    have x: "(case e_source_node ?e1 of None \<Rightarrow> f64_zero | Some k \<Rightarrow> edge_node_as_double (?nodes ! k)) = ?x"
      by (simp add: source_value_def)
    have "evaluate_event sapi uapi \<lparr>es_db = Some h\<rparr> server now i s =
        (None, s\<lparr>ev_stats := map_option (stat_fired (server \<noteq> None)) (map_option stat_checked (ev_stats s)),
               ev_model := set_active i True (ev_model s), ev_db := d1, ev_ua := u1\<rparr>)"
      unfolding evaluate_event_def Let_def nodes act(2) e1 x
      using met \<open>\<not> e_active ?e\<close> d1(1) u1(1) by simp
    with True at' act(1) met d1 u1(2) show ?thesis
      by (simp add: eval_at_def Let_def take option.map_comp comp_def pass_stats_step)
  qed
qed

text \<open>The whole pass.\<close>

lemma evaluate_pass:
  assumes laws: "sqlite_laws sapi h view" and ch: "channel_ok uapi ns evlog server"
    and pr: "\<forall>e \<in> set (m_events (ev_model s)). printable (m_nodes (ev_model s)) e"
  shows "\<exists>s'. edge_events_evaluate sapi uapi \<lparr>es_db = Some h\<rparr> server s = (EDGE_STATUS_OK, s') \<and>
    eval_at view evlog ns (fst (edge_time_now_ms (store_clock_gettime sapi) (ev_db s))) server s
      (length (m_events (ev_model s))) s'"
proof -
  obtain now d1 where clk: "edge_time_now_ms (store_clock_gettime sapi) (ev_db s) = (now, d1)" by fastforce
  have d1: "view d1 = view (ev_db s)"
    using clock_view [OF laws, of "ev_db s"] clk by (simp add: edge_time_now_ms_def Let_def case_prod_beta)
  let ?s0 = "s\<lparr>ev_stats := map_option (\<lambda>_. zero_stats) (ev_stats s), ev_db := d1\<rparr>"
  let ?n = "length (m_events (ev_model s))"
  let ?body = "evaluate_event sapi uapi \<lparr>es_db = Some h\<rparr> server now"
  have "\<exists>s'. for_upto ?n ?body ?s0 = (None, s') \<and> eval_at view evlog ns now server s ?n s'"
  proof (rule for_upto_total)
    show "eval_at view evlog ns now server s 0 ?s0"
      by (simp add: eval_at_def Let_def d1 pass_stats_def zero_stats_def)
    fix i t assume i: "i < ?n" and at: "eval_at view evlog ns now server s i t"
    show "\<exists>t'. ?body i t = (None, t') \<and> eval_at view evlog ns now server s (Suc i) t'"
      by (rule evaluate_event_exact [OF laws ch i _ at]) (use pr i in auto)
  qed
  then show ?thesis by (auto simp: edge_events_evaluate_def clk Let_def)
qed

section \<open>Sample events\<close>

lemma mem_ua_event_laws: "ua_event_laws mem_ua () 2 ms_events"
  by (simp add: ua_event_laws_def mem_ua_def UA_STATUSCODE_GOOD_def)

lemma mem_channel: "channel_ok mem_ua 2 ms_events (Some mem_server_on)"
  by (simp add: channel_ok_def mem_server_on_def mem_ua_event_laws)

definition sample_value :: "EdgeValue \<Rightarrow> EdgeNode list" where
  "sample_value v = [zero_node\<lparr>n_data_type := Some EDGE_DATA_INT16, n_value := v\<rparr>]"

definition sample_events :: EdgeModel where
  "sample_events = zero_model\<lparr>m_nodes := sample_value 9,
     m_events := [
       zero_event\<lparr>e_id := ''hi'', e_asset_id := ''p'', e_source_node := Some 0,
         e_condition := Some EDGE_EVENT_GREATER_THAN, e_threshold := f64_of_int 5, e_severity := 700\<rparr>,
       zero_event\<lparr>e_id := ''lo'', e_asset_id := ''p'', e_source_node := Some 0,
         e_condition := Some EDGE_EVENT_LESS_THAN, e_threshold := f64_of_int 5, e_active := True\<rparr>]\<rparr>"

definition sample_eval :: "(mem_db, mem_server) EvalState" where
  "sample_eval = \<lparr>ev_model = sample_events, ev_stats = Some zero_stats, ev_db = mem_empty, ev_ua = mem_fresh\<rparr>"

lemma sample_value_printable:
  assumes "e \<in> set (m_events (ev_model sample_eval))"
  shows "printable (sample_value v) e"
proof -
  have "source_value (sample_value v) e = f64_of_int (sint (union_get v :: u16))"
    using assms by (auto simp: sample_eval_def sample_events_def sample_value_def source_value_def edge_node_as_double_def)
  moreover have "\<bar>f64_val (f64_of_int (sint (union_get v :: u16)))\<bar> \<le> 10 ^ 49"
  proof -
    have "\<bar>sint (union_get v :: u16)\<bar> \<le> 10 ^ 49" using sint_bounds16 [of "union_get v"] by simp
    then have "(of_int \<bar>sint (union_get v :: u16)\<bar> :: rat) \<le> of_int (10 ^ 49)" by (simp only: of_int_le_iff)
    then show ?thesis unfolding f64_of_int_exact(2) [OF int_member_exact(1)]
      by (simp only: of_int_abs of_int_power of_int_numeral)
  qed
  moreover have "\<bar>f64_val (e_threshold e)\<bar> \<le> 10 ^ 49"
    using assms f64_of_int_exact(2) [of 5] by (auto simp: sample_eval_def sample_events_def)
  moreover have "fits EDGE_MAX_ID_LEN (e_id e)" "fits EDGE_MAX_ID_LEN (e_asset_id e)"
    using assms by (auto simp: sample_eval_def sample_events_def fits_def edge_limits)
  ultimately show ?thesis by (simp add: printable_def)
qed

lemma sample_two: "m_events (ev_model sample_eval) = [m_events sample_events ! 0, m_events sample_events ! 1]"
  by (simp add: sample_eval_def sample_events_def)

lemma sample_conditions:
  "event_condition_met (sample_value v) (m_events sample_events ! 0) = (5 < sint (ucast v :: u16))"
  "event_condition_met (sample_value v) (m_events sample_events ! 1) = (sint (ucast v :: u16) < 5)"
  using int_member_exact(1) [of "ucast v"]
  by (simp_all add: event_condition_met_def sample_value_def sample_events_def edge_node_as_double_def
      union_get_def f64_lt_of_int)

section \<open>Claims on events\<close>

text \<open>C10: over a database and a server that work, and for values that fit a message, one evaluation
  pass succeeds and is exact: every event is active afterwards just when its condition holds; the
  history grows by one row for each event whose condition holds and that was not active, in the order
  of the events and with the value, threshold, severity and time of the pass; a notification with the
  asset as its source and the text of the message is created for each of them when there is a server;
  the statistics count them; and nothing else of the model or the stored values changes.\<close>

theorem events_pass_exact:
  assumes "sqlite_laws sapi h view" and "channel_ok uapi ns evlog server"
    and "\<forall>e \<in> set (m_events (ev_model s)). printable (m_nodes (ev_model s)) e"
    and "nodes = m_nodes (ev_model s)"
    and "fired = filter (\<lambda>e. event_condition_met nodes e \<and> \<not> e_active e) (m_events (ev_model s))"
  shows "\<exists>s'. edge_events_evaluate sapi uapi \<lparr>es_db = Some h\<rparr> server s = (EDGE_STATUS_OK, s') \<and>
    ev_model s' = (ev_model s)\<lparr>m_events := map (\<lambda>e. e\<lparr>e_active := event_condition_met nodes e\<rparr>) (m_events (ev_model s))\<rparr> \<and>
    dv_history (view (ev_db s')) = dv_history (view (ev_db s)) @
      map (event_row nodes (fst (edge_time_now_ms (store_clock_gettime sapi) (ev_db s)))) fired \<and>
    dv_latest (view (ev_db s')) = dv_latest (view (ev_db s)) \<and>
    (server \<noteq> None \<longrightarrow> evlog (ev_ua s') = evlog (ev_ua s) @ map (notification ns nodes) fired) \<and>
    ev_stats s' = map_option (\<lambda>_. \<lparr>st_checked_count = of_nat (length (m_events (ev_model s))),
      st_fired_count = of_nat (length fired),
      st_emitted_count = (if server \<noteq> None then of_nat (length fired) else 0)\<rparr>) (ev_stats s)"
proof -
  have f: "fired = filter (fires nodes) (m_events (ev_model s))"
    unfolding assms(5) by (rule arg_cong [where f = "\<lambda>p. filter p (m_events (ev_model s))"]) (simp add: fires_def fun_eq_iff)
  have l: "map (\<lambda>e. e\<lparr>e_active := event_condition_met nodes e\<rparr>) = map (latched nodes)"
    by (rule ext) (simp add: latched_def)
  show ?thesis
    unfolding f l using evaluate_pass [OF assms(1-3)] unfolding eval_at_def Let_def pass_stats_def assms(4) by auto
qed

lemma sample_nodes: "m_nodes (ev_model sample_eval) = sample_value 9"
  by (simp add: sample_eval_def sample_events_def)

theorem events_pass_exact_witness:
  "\<exists>s'. edge_events_evaluate mem_api mem_ua \<lparr>es_db = Some ()\<rparr> (Some mem_server_on) sample_eval = (EDGE_STATUS_OK, s') \<and>
     map e_active (m_events (ev_model s')) = [True, False] \<and>
     dv_history (md_view (ev_db s')) = [(''hi'', f64_of_int 9, f64_of_int 5, 700, 5000)] \<and>
     ms_events (ev_ua s') = [(UaString 2 ''asset:p'', 700, ''hi above 9.000 threshold 5.000'')]"
proof -
  let ?ns = "m_nodes (ev_model sample_eval)" and ?es = "m_events (ev_model sample_eval)"
  have p: "\<forall>e \<in> set ?es. printable ?ns e" unfolding sample_nodes using sample_value_printable by blast
  have c: "event_condition_met ?ns (m_events sample_events ! 0)" "\<not> event_condition_met ?ns (m_events sample_events ! 1)"
    unfolding sample_nodes sample_conditions by code_simp+
  have f: "filter (\<lambda>e. event_condition_met ?ns e \<and> \<not> e_active e) ?es = [m_events sample_events ! 0]"
    unfolding sample_two using c by simp (simp add: sample_events_def zero_event_def)
  have a: "map (e_active \<circ> (\<lambda>e. e\<lparr>e_active := event_condition_met ?ns e\<rparr>)) ?es = [True, False]"
    unfolding sample_two using c by simp
  have b: "event_row ?ns (fst (edge_time_now_ms (store_clock_gettime mem_api) (ev_db sample_eval)))
      (m_events sample_events ! 0) = (''hi'', f64_of_int 9, f64_of_int 5, 700, 5000)"
  proof -
    have "sint (union_get 9 :: u16) = 9" "uint (700 :: u16) = 700" "sint (5 * 1000 + 0 div 1000000 :: u64) = 5000"
      by code_simp+
    then show ?thesis
      unfolding sample_nodes by (simp add: event_row_def source_value_def sample_value_def sample_events_def
          edge_node_as_double_def edge_time_now_ms_def mem_api_def)
  qed
  have n: "notification 2 ?ns (m_events sample_events ! 0) =
      (UaString 2 ''asset:p'', 700, ''hi above 9.000 threshold 5.000'')"
  proof -
    have "source_value ?ns (m_events sample_events ! 0) = f64_of_int (sint (union_get 9 :: u16))"
      unfolding sample_nodes by (simp add: source_value_def sample_value_def sample_events_def edge_node_as_double_def)
    moreover have "sint (union_get 9 :: u16) = 9" "fmt_u (nat 9) = ''9''" "fmt_u (nat 5) = ''5''" by code_simp+
    then have "fmt_3f (f64_of_int (sint (union_get 9 :: u16))) = ''9.000''" "fmt_3f (f64_of_int 5) = ''5.000''"
      by (simp_all add: fmt_3f_of_int)
    ultimately show ?thesis by (simp add: notification_def message_text_def) (simp add: sample_events_def)
  qed
  have d: "dv_history (md_view (ev_db sample_eval)) = []" "ms_events (ev_ua sample_eval) = []"
    by (simp_all add: sample_eval_def mem_empty_def mem_fresh_def)
  obtain s' where s': "edge_events_evaluate mem_api mem_ua \<lparr>es_db = Some ()\<rparr> (Some mem_server_on) sample_eval = (EDGE_STATUS_OK, s')"
    "ev_model s' = (ev_model sample_eval)\<lparr>m_events := map (\<lambda>e. e\<lparr>e_active := event_condition_met ?ns e\<rparr>) ?es\<rparr>"
    "dv_history (md_view (ev_db s')) = [(''hi'', f64_of_int 9, f64_of_int 5, 700, 5000)]"
    "Some mem_server_on \<noteq> None \<longrightarrow> ms_events (ev_ua s') = [(UaString 2 ''asset:p'', 700, ''hi above 9.000 threshold 5.000'')]"
    using events_pass_exact [OF mem_laws mem_channel p refl refl]
    unfolding f list.map b n d append_Nil by (elim exE conjE) (rule that)
  have "map e_active (m_events (ev_model s')) = [True, False]" unfolding s'(2) using a by simp
  moreover from s'(4) have "ms_events (ev_ua s') = [(UaString 2 ''asset:p'', 700, ''hi above 9.000 threshold 5.000'')]" by simp
  ultimately show ?thesis using s'(1,3) by (intro exI conjI)
qed

section \<open>Passes over time\<close>

text \<open>
  Evaluation passes with the node array changing in between, as polls and OPC UA writes change it:
  \<open>nss\<close> are the node arrays that the successive passes see.
\<close>

fun event_passes ::
    "('h, 's, 'd) sqlite_api \<Rightarrow> ('v, 'u) ua_api \<Rightarrow> 'h EdgeStore \<Rightarrow> 'v EdgeServer option \<Rightarrow> EdgeNode list list \<Rightarrow>
     ('d, 'u) EvalState \<Rightarrow> EdgeStatus \<times> ('d, 'u) EvalState" where
  "event_passes sapi uapi store server [] s = (EDGE_STATUS_OK, s)"
| "event_passes sapi uapi store server (ns # nss) s =
     (case edge_events_evaluate sapi uapi store server (s\<lparr>ev_model := (ev_model s)\<lparr>m_nodes := ns\<rparr>\<rparr>) of
        (EDGE_STATUS_OK, s') \<Rightarrow> event_passes sapi uapi store server nss s'
      | (st, s') \<Rightarrow> (st, s'))"

text \<open>The specification of one alarm: the number of rising edges of its condition.\<close>

fun rising :: "bool \<Rightarrow> bool list \<Rightarrow> nat" where
  "rising active [] = 0"
| "rising active (c # cs) = (if c \<and> \<not> active then 1 else 0) + rising c cs"

definition rows_of :: "string \<Rightarrow> history_row list \<Rightarrow> nat" where
  "rows_of k rows = length (filter (\<lambda>r. fst r = k) rows)"

lemma rows_of_append [simp]: "rows_of k (xs @ ys) = rows_of k xs + rows_of k ys"
  by (simp add: rows_of_def)

lemma rows_of_Cons [simp]: "rows_of k (r # rs) = (if fst r = k then 1 else 0) + rows_of k rs"
  by (simp add: rows_of_def)

text \<open>With distinct identifiers the rows of an event in one pass are its own.\<close>

lemma rows_of_fired:
  assumes "distinct (map e_id es)" and "e \<in> set es"
  shows "rows_of (e_id e) (map (event_row nodes now) (filter p es)) = (if p e then 1 else 0)"
  using assms
proof (induction es)
  case (Cons x xs)
  have r: "fst (event_row nodes now x) = e_id x" for x by (simp add: event_row_def)
  show ?case
  proof (cases "e = x")
    case True
    from Cons.prems(1) have "\<forall>y \<in> set xs. e_id y \<noteq> e_id x" by (auto simp: image_iff)
    then have "rows_of (e_id x) (map (event_row nodes now) (filter p xs)) = 0"
      by (auto simp: rows_of_def filter_empty_conv r)
    with True show ?thesis by (simp add: r)
  next
    case False
    with Cons.prems(2) have e: "e \<in> set xs" by simp
    with Cons.prems(1) have "e_id x \<noteq> e_id e" by (auto simp: image_iff)
    moreover have "rows_of (e_id e) (map (event_row nodes now) (filter p xs)) = (if p e then 1 else 0)"
      by (rule Cons.IH) (use Cons.prems(1) e in simp_all)
    ultimately show ?thesis by (simp add: r)
  qed
qed simp

lemma event_passes_exact:
  assumes laws: "sqlite_laws sapi h view" and ch: "channel_ok uapi ns evlog server"
  shows "distinct (map e_id (m_events (ev_model s))) \<Longrightarrow>
    \<forall>nodes \<in> set nss. \<forall>e \<in> set (m_events (ev_model s)). printable nodes e \<Longrightarrow>
    \<exists>s'. event_passes sapi uapi \<lparr>es_db = Some h\<rparr> server nss s = (EDGE_STATUS_OK, s') \<and>
      m_events (ev_model s') = map (\<lambda>e. e\<lparr>e_active := last (e_active e # map (\<lambda>ns. event_condition_met ns e) nss)\<rparr>)
        (m_events (ev_model s)) \<and>
      (\<forall>e \<in> set (m_events (ev_model s)). rows_of (e_id e) (dv_history (view (ev_db s'))) =
         rows_of (e_id e) (dv_history (view (ev_db s))) +
         rising (e_active e) (map (\<lambda>ns. event_condition_met ns e) nss))"
proof (induction nss arbitrary: s)
  case Nil
  have "map (\<lambda>e. e\<lparr>e_active := e_active e\<rparr>) xs = xs" for xs by (induction xs) simp_all
  then show ?case by simp
next
  case (Cons nodes nss)
  let ?s = "s\<lparr>ev_model := (ev_model s)\<lparr>m_nodes := nodes\<rparr>\<rparr>" and ?es = "m_events (ev_model s)"
  let ?fired = "filter (fires nodes) ?es"
  obtain s1 where s1: "edge_events_evaluate sapi uapi \<lparr>es_db = Some h\<rparr> server ?s = (EDGE_STATUS_OK, s1)"
    and es1: "m_events (ev_model s1) = map (latched nodes) ?es"
    and rows1: "dv_history (view (ev_db s1)) = dv_history (view (ev_db s)) @
      map (event_row nodes (fst (edge_time_now_ms (store_clock_gettime sapi) (ev_db s)))) ?fired"
    using evaluate_pass [OF laws ch, of ?s] Cons.prems(2) by (auto simp: eval_at_def Let_def)
  have lt: "e_id (latched nodes e) = e_id e" "printable ns' (latched nodes e) = printable ns' e"
    "event_condition_met ns' (latched nodes e) = event_condition_met ns' e"
    "e_active (latched nodes e) = event_condition_met nodes e"
    "(latched nodes e)\<lparr>e_active := b\<rparr> = e\<lparr>e_active := b\<rparr>" for ns' e b
    by (simp_all add: latched_def)
  have "\<exists>s'. event_passes sapi uapi \<lparr>es_db = Some h\<rparr> server nss s1 = (EDGE_STATUS_OK, s') \<and>
      m_events (ev_model s') = map (\<lambda>e. e\<lparr>e_active := last (e_active e # map (\<lambda>ns. event_condition_met ns e) nss)\<rparr>)
        (m_events (ev_model s1)) \<and>
      (\<forall>e \<in> set (m_events (ev_model s1)). rows_of (e_id e) (dv_history (view (ev_db s'))) =
         rows_of (e_id e) (dv_history (view (ev_db s1))) +
         rising (e_active e) (map (\<lambda>ns. event_condition_met ns e) nss))"
    by (rule Cons.IH) (use Cons.prems in \<open>simp_all add: es1 lt comp_def\<close>)
  then obtain s' where s': "event_passes sapi uapi \<lparr>es_db = Some h\<rparr> server nss s1 = (EDGE_STATUS_OK, s')"
    and es': "m_events (ev_model s') = map (\<lambda>e. e\<lparr>e_active := last (event_condition_met nodes e #
        map (\<lambda>ns. event_condition_met ns e) nss)\<rparr>) ?es"
    and rows': "\<forall>e \<in> set ?es. rows_of (e_id e) (dv_history (view (ev_db s'))) =
         rows_of (e_id e) (dv_history (view (ev_db s1))) +
         rising (event_condition_met nodes e) (map (\<lambda>ns. event_condition_met ns e) nss)"
    unfolding es1 by (auto simp: lt comp_def)
  have "event_passes sapi uapi \<lparr>es_db = Some h\<rparr> server (nodes # nss) s = (EDGE_STATUS_OK, s')"
    using s1 s' by simp
  moreover have "m_events (ev_model s') = map (\<lambda>e. e\<lparr>e_active := last (e_active e #
      map (\<lambda>ns. event_condition_met ns e) (nodes # nss))\<rparr>) ?es" unfolding es' by simp
  moreover have "\<forall>e \<in> set ?es. rows_of (e_id e) (dv_history (view (ev_db s'))) =
      rows_of (e_id e) (dv_history (view (ev_db s))) +
      rising (e_active e) (map (\<lambda>ns. event_condition_met ns e) (nodes # nss))"
    using rows' rows_of_fired [OF Cons.prems(1)] by (simp add: rows1 fires_def)
  ultimately show ?case by blast
qed

text \<open>C11: the history refines the abstract alarm specification over time: however the node values
  change between the passes, a sequence of passes succeeds and adds, for every event, exactly as many
  history rows as its condition has rising edges, counted from the latch it starts with, so that a
  condition that stays true or a value that does not cross the threshold creates no duplicate; and
  the latch ends as the last state of the condition.\<close>

theorem events_rising_edges:
  assumes "sqlite_laws sapi h view" and "channel_ok uapi ns evlog server"
    and "distinct (map e_id (m_events (ev_model s)))"
    and "\<forall>nodes \<in> set nss. \<forall>e \<in> set (m_events (ev_model s)). printable nodes e"
  shows "\<exists>s'. event_passes sapi uapi \<lparr>es_db = Some h\<rparr> server nss s = (EDGE_STATUS_OK, s') \<and>
    m_events (ev_model s') = map (\<lambda>e. e\<lparr>e_active := last (e_active e # map (\<lambda>ns. event_condition_met ns e) nss)\<rparr>)
      (m_events (ev_model s)) \<and>
    (\<forall>e \<in> set (m_events (ev_model s)). rows_of (e_id e) (dv_history (view (ev_db s'))) =
       rows_of (e_id e) (dv_history (view (ev_db s))) +
       rising (e_active e) (map (\<lambda>ns. event_condition_met ns e) nss))"
  by (rule event_passes_exact [OF assms])

theorem events_rising_edges_witness:
  "\<exists>s'. event_passes mem_api mem_ua \<lparr>es_db = Some ()\<rparr> (Some mem_server_on)
        (map sample_value [9, 3, 7]) sample_eval = (EDGE_STATUS_OK, s') \<and>
     map e_active (m_events (ev_model s')) = [True, False] \<and>
     rows_of ''hi'' (dv_history (md_view (ev_db s'))) = 2"
proof -
  let ?nss = "map sample_value [9, 3, 7]" and ?es = "m_events (ev_model sample_eval)"
  have d: "distinct (map e_id ?es)" by code_simp
  have p: "\<forall>nodes \<in> set ?nss. \<forall>e \<in> set ?es. printable nodes e"
    using sample_value_printable by auto
  have c: "map (\<lambda>ns. event_condition_met ns (m_events sample_events ! 0)) ?nss = [True, False, True]"
    "map (\<lambda>ns. event_condition_met ns (m_events sample_events ! 1)) ?nss = [False, True, False]"
    unfolding list.map sample_conditions by code_simp+
  have a: "map e_active (map (\<lambda>e. e\<lparr>e_active := last (e_active e # map (\<lambda>ns. event_condition_met ns e) ?nss)\<rparr>) ?es) =
      [True, False]" unfolding sample_two by (simp only: list.map) (use c in simp)
  have e: "?es ! 0 \<in> set ?es" "e_id (?es ! 0) = ''hi''" "dv_history (md_view (ev_db sample_eval)) = []"
    by (simp_all add: sample_eval_def sample_events_def mem_empty_def)
  have r: "rising (e_active (?es ! 0)) (map (\<lambda>ns. event_condition_met ns (?es ! 0)) ?nss) = 2"
    unfolding sample_two using c by simp (simp add: sample_events_def zero_event_def)
  obtain s' where s': "event_passes mem_api mem_ua \<lparr>es_db = Some ()\<rparr> (Some mem_server_on) ?nss sample_eval = (EDGE_STATUS_OK, s')"
    "m_events (ev_model s') = map (\<lambda>e. e\<lparr>e_active := last (e_active e # map (\<lambda>ns. event_condition_met ns e) ?nss)\<rparr>) ?es"
    "\<forall>e \<in> set ?es. rows_of (e_id e) (dv_history (md_view (ev_db s'))) =
       rows_of (e_id e) (dv_history (md_view (ev_db sample_eval))) +
       rising (e_active e) (map (\<lambda>ns. event_condition_met ns e) ?nss)"
    using events_rising_edges [OF mem_laws mem_channel d p] by (elim exE conjE) (rule that)
  have "rows_of ''hi'' (dv_history (md_view (ev_db s'))) = 2"
    using s'(3) [THEN bspec, OF e(1)] unfolding e(2,3) r by (simp add: rows_of_def)
  moreover have "map e_active (m_events (ev_model s')) = [True, False]" unfolding s'(2) by (rule a)
  ultimately show ?thesis using s'(1) by (intro exI conjI)
qed

section \<open>Passes whatever the libraries do\<close>

text \<open>What one iteration does to the model, with any behaviour of the database and the server.\<close>

lemma evaluate_event_model:
  assumes i: "i < length (m_events m)"
    and model: "ev_model s = m\<lparr>m_events := map (latched (m_nodes m)) (take i (m_events m)) @ drop i (m_events m)\<rparr>"
    and r: "evaluate_event sapi uapi store server now i s = (r, s')"
  shows "ev_model s' = m\<lparr>m_events := map (latched (m_nodes m)) (take (Suc i) (m_events m)) @ drop (Suc i) (m_events m)\<rparr>"
    and "r = None \<or> r = Some EDGE_STATUS_ERROR \<and> fires (m_nodes m) (m_events m ! i)"
proof -
  let ?e = "m_events m ! i" and ?met = "event_condition_met (m_nodes m) (m_events m ! i)"
  note act = set_active_latched [OF i refl model]
  have nodes: "m_nodes (ev_model s) = m_nodes m" by (simp add: model)
  have "ev_model s' = set_active i ?met (ev_model s) \<and>
      (r = None \<or> r = Some EDGE_STATUS_ERROR \<and> fires (m_nodes m) ?e)"
  proof (cases "fires (m_nodes m) ?e")
    case True
    then have t: "?met = True" "e_active ?e = False" by (simp_all add: fires_def)
    show ?thesis
      using r unfolding evaluate_event_def Let_def nodes act(2) t
      by (auto simp: True split: prod.splits if_splits)
  next
    case False
    show ?thesis
    proof (cases ?met)
      case True
      then have a: "?met = True" "e_active ?e = True" using False by (simp_all add: fires_def)
      have "set_active i True (ev_model s) = ev_model s" by (rule set_active_same) (simp only: act(2) a)
      with r show ?thesis unfolding evaluate_event_def Let_def nodes act(2) a by auto
    next
      case False
      then have a: "?met = False" by simp
      show ?thesis using r unfolding evaluate_event_def Let_def nodes act(2) a by auto
    qed
  qed
  with act(1) show "ev_model s' = m\<lparr>m_events := map (latched (m_nodes m)) (take (Suc i) (m_events m)) @ drop (Suc i) (m_events m)\<rparr>"
    and "r = None \<or> r = Some EDGE_STATUS_ERROR \<and> fires (m_nodes m) ?e" by simp_all
qed

lemma pass_model:
  fixes s :: "('d, 'u) EvalState"
  assumes "edge_events_evaluate sapi uapi store server s = (st, s')"
    and "nodes = m_nodes (ev_model s)" and "es = m_events (ev_model s)"
  shows "st = EDGE_STATUS_OK \<and> ev_model s' = (ev_model s)\<lparr>m_events := map (latched nodes) es\<rparr> \<or>
    st = EDGE_STATUS_ERROR \<and> (\<exists>k < length es. fires nodes (es ! k) \<and>
      ev_model s' = (ev_model s)\<lparr>m_events := map (latched nodes) (take (Suc k) es) @ drop (Suc k) es\<rparr>)"
proof -
  obtain now d1 where clk: "edge_time_now_ms (store_clock_gettime sapi) (ev_db s) = (now, d1)" by fastforce
  let ?s0 = "s\<lparr>ev_stats := map_option (\<lambda>_. zero_stats) (ev_stats s), ev_db := d1\<rparr>"
  let ?body = "evaluate_event sapi uapi store server now"
  define I where "I i t = (ev_model t = (ev_model s)\<lparr>m_events := map (latched nodes) (take i es) @ drop i es\<rparr>)"
    for i and t :: "('d, 'u) EvalState"
  obtain r where r: "for_upto (length es) ?body ?s0 = (r, s')" "st = (case r of None \<Rightarrow> EDGE_STATUS_OK | Some st \<Rightarrow> st)"
    using assms(1,3) by (auto simp: edge_events_evaluate_def clk Let_def split: prod.splits)
  have start: "I 0 ?s0" by (simp add: I_def assms(3))
  have step: "I (Suc i) t'" if "i < length es" "I i t" "?body i t = (None, t')" for i t t'
    using evaluate_event_model(1) [of i "ev_model s" t] that by (simp add: I_def assms(2,3))
  show ?thesis
  proof (cases r)
    case None
    have "I (length es) s'" by (rule for_upto_None [where I = I, OF r(1) [unfolded None] start step])
    with None r(2) show ?thesis by (simp add: I_def)
  next
    case (Some e)
    have "\<exists>k t. k < length es \<and> I k t \<and> ?body k t = (Some e, s')"
      by (rule for_upto_Some [where I = I, OF r(1) [unfolded Some] start step])
    then obtain k t where k: "k < length es" "I k t" "?body k t = (Some e, s')" by blast
    note at = evaluate_event_model [OF _ _ k(3), of "ev_model s"]
    have "e = EDGE_STATUS_ERROR" "fires nodes (es ! k)" "I (Suc k) s'"
      using at k(1,2) by (simp_all add: I_def assms(2,3))
    with Some r(2) k(1) show ?thesis by (auto simp: I_def)
  qed
qed

text \<open>C27: whatever the database and the server do, a pass changes nothing of the model but the
  latches, and they stay truthful: with success every latch is the state of the condition; with an
  error the pass stopped at an event that fired, the latches up to and including that event are the
  state of their conditions and the later events keep theirs.  So the event whose history row or
  notification failed is latched, and is not reported again while its condition holds.\<close>

theorem events_pass_safe:
  assumes "edge_events_evaluate sapi uapi store server s = (st, s')"
    and "nodes = m_nodes (ev_model s)" and "es = m_events (ev_model s)"
  shows "(ev_model s')\<lparr>m_events := []\<rparr> = (ev_model s)\<lparr>m_events := []\<rparr> \<and>
    (\<exists>k \<le> length es. m_events (ev_model s') =
        map (\<lambda>e. e\<lparr>e_active := event_condition_met nodes e\<rparr>) (take k es) @ drop k es \<and>
      (st = EDGE_STATUS_OK \<and> k = length es \<or>
       st = EDGE_STATUS_ERROR \<and> 0 < k \<and> event_condition_met nodes (es ! (k - 1)) \<and> \<not> e_active (es ! (k - 1)) \<and>
       e_active (m_events (ev_model s') ! (k - 1))))"
proof -
  have l: "map (\<lambda>e. e\<lparr>e_active := event_condition_met nodes e\<rparr>) = map (latched nodes)"
    by (rule ext) (simp add: latched_def)
  from pass_model [OF assms] show ?thesis
  proof (elim disjE conjE exE)
    assume "st = EDGE_STATUS_OK" "ev_model s' = (ev_model s)\<lparr>m_events := map (latched nodes) es\<rparr>"
    then show ?thesis unfolding l by (intro conjI exI [of _ "length es"]) simp_all
  next
    fix k assume a: "st = EDGE_STATUS_ERROR" "k < length es" "fires nodes (es ! k)"
      "ev_model s' = (ev_model s)\<lparr>m_events := map (latched nodes) (take (Suc k) es) @ drop (Suc k) es\<rparr>"
    have "(map (latched nodes) (take (Suc k) es) @ drop (Suc k) es) ! k = latched nodes (es ! k)"
      using a(2) by (simp add: nth_append)
    with a show ?thesis unfolding l
      by (intro conjI exI [of _ "Suc k"]) (simp_all add: fires_def latched_def)
  qed
qed

theorem events_pass_safe_witness:
  "\<exists>k \<le> 2. m_events (ev_model (snd (edge_events_evaluate mem_api mem_ua \<lparr>es_db = None\<rparr> (Some mem_server_on) sample_eval))) =
     map (\<lambda>e. e\<lparr>e_active := event_condition_met (sample_value 9) e\<rparr>) (take k (m_events sample_events)) @
     drop k (m_events sample_events)"
proof -
  obtain st s' where e: "edge_events_evaluate mem_api mem_ua \<lparr>es_db = None\<rparr> (Some mem_server_on) sample_eval = (st, s')"
    by fastforce
  have m: "m_events (ev_model sample_eval) = m_events sample_events" "length (m_events sample_events) = 2"
    by (simp_all add: sample_eval_def sample_events_def)
  show ?thesis
    using events_pass_safe [OF e refl refl] unfolding e snd_conv sample_nodes m by blast
qed


definition sample_huge :: "(mem_db, mem_server) EvalState" where
  "sample_huge = sample_eval\<lparr>ev_model := sample_events\<lparr>m_nodes :=
     [zero_node\<lparr>n_data_type := Some EDGE_DATA_DOUBLE, n_value := 0x7E70000000000000\<rparr>]\<rparr>\<rparr>"


end
