(* ===== verification/Edge_Config_Parse.thy ===== *)
theory Edge_Config_Parse
  imports Edge_Types
begin

text \<open>
  The line parser of \<open>src/edge_config.c\<close>: from the bytes of a \<open>.edge\<close> template to the model
  arrays.  \<open>ConfigState\<close> holds the model and the local variables of \<open>edge_config_load\<close>
  (current section and the three cursors into the arrays).  \<open>config_line\<close> is the loop body
  after the over-long-line check, \<open>config_loop\<close> the \<open>fgets\<close> loop; both return \<open>None\<close> to go
  on and \<open>Some status\<close> for a \<open>return status\<close>.

  The invariant \<open>cs_inv\<close> (every string fits its buffer, no array exceeds its limit, every
  cursor points into its array) is kept by every line, whatever its content and result.
\<close>

section \<open>Text helpers\<close>

definition trim_newline :: "string \<Rightarrow> string" where
  "trim_newline text = rev (dropWhile (\<lambda>c. c = LF \<or> c = CR) (rev text))"

definition copy_value :: "nat \<Rightarrow> string \<Rightarrow> string \<Rightarrow> EdgeStatus \<times> string" where
  "copy_value dst_size src dst =
     (if length src = 0 \<or> length src \<ge> dst_size then (EDGE_STATUS_LIMIT, dst)
      else (EDGE_STATUS_OK, src))"

definition split_key_value :: "string \<Rightarrow> (string \<times> string) option" where
  "split_key_value line =
     (let key = takeWhile (\<lambda>c. c \<noteq> CHR ''='') line;
          tail = dropWhile (\<lambda>c. c \<noteq> CHR ''='') line
      in if tail = [] \<or> key = [] then None else Some (key, tl tail))"

definition parse_u16 :: "string \<Rightarrow> u16 \<Rightarrow> EdgeStatus \<times> u16" where
  "parse_u16 text value =
     (let (parsed, end_ptr, range) = strtoul text
      in if range \<or> end_ptr = text \<or> end_ptr \<noteq> [] \<or> parsed > 65535
         then (EDGE_STATUS_INVALID, value)
         else (EDGE_STATUS_OK, ucast parsed))"

definition parse_u32 :: "string \<Rightarrow> u32 \<Rightarrow> EdgeStatus \<times> u32" where
  "parse_u32 text value =
     (let (parsed, end_ptr, range) = strtoul text
      in if range \<or> end_ptr = text \<or> end_ptr \<noteq> [] \<or> parsed > 4294967295
         then (EDGE_STATUS_INVALID, value)
         else (EDGE_STATUS_OK, ucast parsed))"

definition parse_double :: "string \<Rightarrow> f64 \<Rightarrow> EdgeStatus \<times> f64" where
  "parse_double text value =
     (let (parsed, end_ptr, range) = strtod text
      in if range \<or> end_ptr = text \<or> end_ptr \<noteq> []
         then (EDGE_STATUS_INVALID, value)
         else (EDGE_STATUS_OK, parsed))"

definition parse_data_type :: "string \<Rightarrow> EdgeDataType option \<Rightarrow> EdgeStatus \<times> EdgeDataType option" where
  "parse_data_type value data_type =
     (if value = ''bool'' then (EDGE_STATUS_OK, Some EDGE_DATA_BOOL)
      else if value = ''int16'' then (EDGE_STATUS_OK, Some EDGE_DATA_INT16)
      else if value = ''int32'' then (EDGE_STATUS_OK, Some EDGE_DATA_INT32)
      else if value = ''uint32'' then (EDGE_STATUS_OK, Some EDGE_DATA_UINT32)
      else if value = ''double'' then (EDGE_STATUS_OK, Some EDGE_DATA_DOUBLE)
      else (EDGE_STATUS_INVALID, data_type))"

definition parse_access :: "string \<Rightarrow> bool \<Rightarrow> EdgeStatus \<times> bool" where
  "parse_access value writable =
     (if value = ''read'' then (EDGE_STATUS_OK, False)
      else if value = ''read_write'' then (EDGE_STATUS_OK, True)
      else (EDGE_STATUS_INVALID, writable))"

definition parse_condition ::
    "string \<Rightarrow> EdgeEventCondition option \<Rightarrow> EdgeStatus \<times> EdgeEventCondition option" where
  "parse_condition value condition =
     (if value = ''greater_than'' then (EDGE_STATUS_OK, Some EDGE_EVENT_GREATER_THAN)
      else if value = ''less_than'' then (EDGE_STATUS_OK, Some EDGE_EVENT_LESS_THAN)
      else (EDGE_STATUS_INVALID, condition))"

section \<open>Sections and cursors\<close>

datatype EdgeConfigSection =
  SECTION_NONE | SECTION_PLANT | SECTION_ASSET | SECTION_NODE | SECTION_EVENT

record ConfigState =
  cs_model :: EdgeModel
  cs_section :: EdgeConfigSection
  cs_asset :: "nat option"
  cs_node :: "nat option"
  cs_event :: "nat option"

definition begin_asset :: "ConfigState \<Rightarrow> EdgeStatus \<times> ConfigState" where
  "begin_asset s =
     (let m = cs_model s in
      if length (m_assets m) \<ge> EDGE_MAX_ASSETS then (EDGE_STATUS_LIMIT, s)
      else (EDGE_STATUS_OK,
            s\<lparr>cs_model := m\<lparr>m_assets := m_assets m @ [zero_asset\<lparr>a_parent_index := edge_invalid_index\<rparr>]\<rparr>,
              cs_asset := Some (length (m_assets m)), cs_node := None, cs_event := None\<rparr>))"

definition begin_node :: "ConfigState \<Rightarrow> EdgeStatus \<times> ConfigState" where
  "begin_node s =
     (let m = cs_model s in
      if length (m_nodes m) \<ge> EDGE_MAX_NODES then (EDGE_STATUS_LIMIT, s)
      else (EDGE_STATUS_OK,
            s\<lparr>cs_model := m\<lparr>m_nodes := m_nodes m @
                [zero_node\<lparr>n_asset_index := edge_invalid_index, n_scale := f64_of_int 1\<rparr>]\<rparr>,
              cs_node := Some (length (m_nodes m)), cs_asset := None, cs_event := None\<rparr>))"

definition begin_event :: "ConfigState \<Rightarrow> EdgeStatus \<times> ConfigState" where
  "begin_event s =
     (let m = cs_model s in
      if length (m_events m) \<ge> EDGE_MAX_EVENTS then (EDGE_STATUS_LIMIT, s)
      else (EDGE_STATUS_OK,
            s\<lparr>cs_model := m\<lparr>m_events := m_events m @
                [zero_event\<lparr>e_asset_index := edge_invalid_index,
                            e_source_node_index := edge_invalid_index\<rparr>]\<rparr>,
              cs_event := Some (length (m_events m)), cs_asset := None, cs_node := None\<rparr>))"

section \<open>Keys\<close>

definition parse_plant_key :: "EdgeModel \<Rightarrow> string \<Rightarrow> string \<Rightarrow> EdgeStatus \<times> EdgeModel" where
  "parse_plant_key model key value =
     (if key = ''id'' then
        (let (st, d) = copy_value EDGE_MAX_ID_LEN value (m_id model) in (st, model\<lparr>m_id := d\<rparr>))
      else if key = ''name'' then
        (let (st, d) = copy_value EDGE_MAX_NAME_LEN value (m_name model) in (st, model\<lparr>m_name := d\<rparr>))
      else (EDGE_STATUS_INVALID, model))"

definition parse_asset_key :: "EdgeAsset \<Rightarrow> string \<Rightarrow> string \<Rightarrow> EdgeStatus \<times> EdgeAsset" where
  "parse_asset_key asset key value =
     (if key = ''id'' then
        (let (st, d) = copy_value EDGE_MAX_ID_LEN value (a_id asset) in (st, asset\<lparr>a_id := d\<rparr>))
      else if key = ''type'' then
        (let (st, d) = copy_value EDGE_MAX_ID_LEN value (a_type asset) in (st, asset\<lparr>a_type := d\<rparr>))
      else if key = ''name'' then
        (let (st, d) = copy_value EDGE_MAX_NAME_LEN value (a_name asset) in (st, asset\<lparr>a_name := d\<rparr>))
      else if key = ''parent'' then
        (if value = [] then (EDGE_STATUS_OK, asset\<lparr>a_parent_id := []\<rparr>)
         else (let (st, d) = copy_value EDGE_MAX_ID_LEN value (a_parent_id asset)
               in (st, asset\<lparr>a_parent_id := d\<rparr>)))
      else (EDGE_STATUS_INVALID, asset))"

definition parse_node_key :: "EdgeNode \<Rightarrow> string \<Rightarrow> string \<Rightarrow> EdgeStatus \<times> EdgeNode" where
  "parse_node_key node key value =
     (if key = ''asset'' then
        (let (st, d) = copy_value EDGE_MAX_ID_LEN value (n_asset_id node) in (st, node\<lparr>n_asset_id := d\<rparr>))
      else if key = ''id'' then
        (let (st, d) = copy_value EDGE_MAX_ID_LEN value (n_id node) in (st, node\<lparr>n_id := d\<rparr>))
      else if key = ''name'' then
        (let (st, d) = copy_value EDGE_MAX_NAME_LEN value (n_name node) in (st, node\<lparr>n_name := d\<rparr>))
      else if key = ''data_type'' then
        (let (st, d) = parse_data_type value (n_data_type node) in (st, node\<lparr>n_data_type := d\<rparr>))
      else if key = ''access'' then
        (let (st, d) = parse_access value (n_writable node) in (st, node\<lparr>n_writable := d\<rparr>))
      else if key = ''source'' then
        (if value = ''modbus'' then (EDGE_STATUS_OK, node) else (EDGE_STATUS_INVALID, node))
      else if key = ''modbus_unit'' then
        (let (rc, d) = parse_u16 value (n_modbus_unit node); node' = node\<lparr>n_modbus_unit := d\<rparr>
         in if rc \<noteq> EDGE_STATUS_OK then (rc, node')
            else if d = 0 \<or> d > 247 then (EDGE_STATUS_INVALID, node')
            else (EDGE_STATUS_OK, node'))
      else if key = ''modbus_register'' then
        (let (st, d) = parse_u32 value (n_modbus_register node) in (st, node\<lparr>n_modbus_register := d\<rparr>))
      else if key = ''scale'' then
        (let (st, d) = parse_double value (n_scale node) in (st, node\<lparr>n_scale := d\<rparr>))
      else (EDGE_STATUS_INVALID, node))"

definition parse_event_key :: "EdgeEvent \<Rightarrow> string \<Rightarrow> string \<Rightarrow> EdgeStatus \<times> EdgeEvent" where
  "parse_event_key event key value =
     (if key = ''asset'' then
        (let (st, d) = copy_value EDGE_MAX_ID_LEN value (e_asset_id event) in (st, event\<lparr>e_asset_id := d\<rparr>))
      else if key = ''id'' then
        (let (st, d) = copy_value EDGE_MAX_ID_LEN value (e_id event) in (st, event\<lparr>e_id := d\<rparr>))
      else if key = ''source_node'' then
        (let (st, d) = copy_value EDGE_MAX_ID_LEN value (e_source_node_id event)
         in (st, event\<lparr>e_source_node_id := d\<rparr>))
      else if key = ''condition'' then
        (let (st, d) = parse_condition value (e_condition event) in (st, event\<lparr>e_condition := d\<rparr>))
      else if key = ''threshold'' then
        (let (st, d) = parse_double value (e_threshold event) in (st, event\<lparr>e_threshold := d\<rparr>))
      else if key = ''severity'' then
        (let (st, d) = parse_u16 value (e_severity event) in (st, event\<lparr>e_severity := d\<rparr>))
      else (EDGE_STATUS_INVALID, event))"

section \<open>The load loop\<close>

text \<open>Dispatch of a key line on the section and its cursor.\<close>

definition config_key :: "string \<Rightarrow> string \<Rightarrow> ConfigState \<Rightarrow> EdgeStatus \<times> ConfigState" where
  "config_key key value s =
     (let m = cs_model s in
      case (cs_section s, cs_asset s, cs_node s, cs_event s) of
        (SECTION_PLANT, _, _, _) \<Rightarrow>
          (let (st, m') = parse_plant_key m key value in (st, s\<lparr>cs_model := m'\<rparr>))
      | (SECTION_ASSET, Some k, _, _) \<Rightarrow>
          (let (st, a) = parse_asset_key (m_assets m ! k) key value
           in (st, s\<lparr>cs_model := m\<lparr>m_assets := (m_assets m)[k := a]\<rparr>\<rparr>))
      | (SECTION_NODE, _, Some k, _) \<Rightarrow>
          (let (st, n) = parse_node_key (m_nodes m ! k) key value
           in (st, s\<lparr>cs_model := m\<lparr>m_nodes := (m_nodes m)[k := n]\<rparr>\<rparr>))
      | (SECTION_EVENT, _, _, Some k) \<Rightarrow>
          (let (st, e) = parse_event_key (m_events m ! k) key value
           in (st, s\<lparr>cs_model := m\<lparr>m_events := (m_events m)[k := e]\<rparr>\<rparr>))
      | _ \<Rightarrow> (EDGE_STATUS_INVALID, s))"

definition config_line :: "string \<Rightarrow> ConfigState \<Rightarrow> EdgeStatus option \<times> ConfigState" where
  "config_line line s =
     (if line = [] \<or> hd line = CHR ''#'' then (None, s)
      else if line = ''[plant]'' then
        (None, s\<lparr>cs_section := SECTION_PLANT, cs_asset := None, cs_node := None, cs_event := None\<rparr>)
      else if line = ''[asset]'' then
        (let (status, s') = begin_asset s
         in if status \<noteq> EDGE_STATUS_OK then (Some status, s')
            else (None, s'\<lparr>cs_section := SECTION_ASSET\<rparr>))
      else if line = ''[node]'' then
        (let (status, s') = begin_node s
         in if status \<noteq> EDGE_STATUS_OK then (Some status, s')
            else (None, s'\<lparr>cs_section := SECTION_NODE\<rparr>))
      else if line = ''[event]'' then
        (let (status, s') = begin_event s
         in if status \<noteq> EDGE_STATUS_OK then (Some status, s')
            else (None, s'\<lparr>cs_section := SECTION_EVENT\<rparr>))
      else if hd line = CHR ''['' then (Some EDGE_STATUS_INVALID, s)
      else (case split_key_value line of
              None \<Rightarrow> (Some EDGE_STATUS_INVALID, s)
            | Some (key, value) \<Rightarrow>
                (let (status, s') = config_key key value s
                 in if status \<noteq> EDGE_STATUS_OK then (Some status, s') else (None, s'))))"

function config_loop :: "string \<Rightarrow> ConfigState \<Rightarrow> EdgeStatus option \<times> ConfigState" where
  "config_loop stream s =
     (case fgets EDGE_MAX_LINE_LEN stream of
        None \<Rightarrow> (None, s)
      | Some (buf, rest, eof) \<Rightarrow>
          let line = cstr buf in
          if length line = EDGE_MAX_LINE_LEN - 1 \<and> last line \<noteq> LF \<and> \<not> eof
          then (Some EDGE_STATUS_LIMIT, s)
          else (case config_line (trim_newline line) s of
                  (Some status, s') \<Rightarrow> (Some status, s')
                | (None, s') \<Rightarrow> config_loop rest s'))"
  by pat_completeness auto

termination
  by (relation "measure (\<lambda>(stream, s). length stream)")
     (auto simp: edge_limits intro: fgets_shorter)

declare config_loop.simps [simp del]

definition config_init :: "EdgeModel \<Rightarrow> ConfigState" where
  "config_init model = \<lparr>cs_model = model, cs_section = SECTION_NONE,
     cs_asset = None, cs_node = None, cs_event = None\<rparr>"

section \<open>The buffer and limit invariant\<close>

definition asset_fits :: "EdgeAsset \<Rightarrow> bool" where
  "asset_fits a = (fits EDGE_MAX_ID_LEN (a_id a) \<and> fits EDGE_MAX_ID_LEN (a_type a) \<and>
     fits EDGE_MAX_NAME_LEN (a_name a) \<and> fits EDGE_MAX_ID_LEN (a_parent_id a))"

definition node_fits :: "EdgeNode \<Rightarrow> bool" where
  "node_fits n = (fits EDGE_MAX_ID_LEN (n_id n) \<and> fits EDGE_MAX_NAME_LEN (n_name n) \<and>
     fits EDGE_MAX_ID_LEN (n_asset_id n))"

definition event_fits :: "EdgeEvent \<Rightarrow> bool" where
  "event_fits e = (fits EDGE_MAX_ID_LEN (e_id e) \<and> fits EDGE_MAX_ID_LEN (e_asset_id e) \<and>
     fits EDGE_MAX_ID_LEN (e_source_node_id e))"

definition model_fits :: "EdgeModel \<Rightarrow> bool" where
  "model_fits m = (fits EDGE_MAX_ID_LEN (m_id m) \<and> fits EDGE_MAX_NAME_LEN (m_name m) \<and>
     length (m_assets m) \<le> EDGE_MAX_ASSETS \<and> list_all asset_fits (m_assets m) \<and>
     length (m_nodes m) \<le> EDGE_MAX_NODES \<and> list_all node_fits (m_nodes m) \<and>
     length (m_events m) \<le> EDGE_MAX_EVENTS \<and> list_all event_fits (m_events m))"

definition cursor_ok :: "nat option \<Rightarrow> 'a list \<Rightarrow> bool" where
  "cursor_ok c xs = (case c of None \<Rightarrow> True | Some k \<Rightarrow> k < length xs)"

definition cs_inv :: "ConfigState \<Rightarrow> bool" where
  "cs_inv s = (model_fits (cs_model s) \<and> cursor_ok (cs_asset s) (m_assets (cs_model s)) \<and>
     cursor_ok (cs_node s) (m_nodes (cs_model s)) \<and> cursor_ok (cs_event s) (m_events (cs_model s)))"

lemma model_fits_zero: "model_fits zero_model"
  by (simp add: model_fits_def zero_model_def edge_limits)

lemma copy_value_fits [bounds_rules]:
  "NUL \<notin> set src \<Longrightarrow> fits n dst \<Longrightarrow> fits n (snd (copy_value n src dst))"
  by (simp add: copy_value_def fits_def)

text \<open>A field update through the \<open>(status, field)\<close> result of a helper.\<close>

lemma snd_let_pair: "snd (case p of (st, d) \<Rightarrow> (st, f d)) = f (snd p)"
  by (cases p) simp

lemma parse_plant_key_fits:
  "NUL \<notin> set v \<Longrightarrow> model_fits m \<Longrightarrow> model_fits (snd (parse_plant_key m key v))"
  by (simp add: parse_plant_key_def model_fits_def snd_let_pair copy_value_fits)

lemma parse_asset_key_fits:
  "NUL \<notin> set v \<Longrightarrow> asset_fits a \<Longrightarrow> asset_fits (snd (parse_asset_key a key v))"
  by (simp add: parse_asset_key_def asset_fits_def snd_let_pair copy_value_fits edge_limits)

lemma parse_node_key_fits:
  "NUL \<notin> set v \<Longrightarrow> node_fits n \<Longrightarrow> node_fits (snd (parse_node_key n key v))"
  by (simp add: parse_node_key_def node_fits_def snd_let_pair copy_value_fits)
     (simp add: case_prod_beta Let_def)

lemma parse_event_key_fits:
  "NUL \<notin> set v \<Longrightarrow> event_fits e \<Longrightarrow> event_fits (snd (parse_event_key e key v))"
  by (simp add: parse_event_key_def event_fits_def snd_let_pair copy_value_fits)

lemmas begin_defs = begin_asset_def begin_node_def begin_event_def

lemma new_fits:
  "asset_fits (zero_asset\<lparr>a_parent_index := i\<rparr>)"
  "node_fits (zero_node\<lparr>n_asset_index := i, n_scale := x\<rparr>)"
  "event_fits (zero_event\<lparr>e_asset_index := i, e_source_node_index := j\<rparr>)"
  by (simp_all add: asset_fits_def node_fits_def event_fits_def
      zero_asset_def zero_node_def zero_event_def edge_limits)

lemma begin_inv:
  assumes "cs_inv s"
  shows "cs_inv (snd (begin_asset s))" and "cs_inv (snd (begin_node s))"
    and "cs_inv (snd (begin_event s))"
  using assms new_fits
  by (simp_all add: begin_defs cs_inv_def model_fits_def cursor_ok_def Let_def split: option.splits)

text \<open>Replacing the element under a cursor by one that fits.\<close>

lemma list_all_cursor_update:
  assumes "list_all p xs" and "k < length xs" and "p (xs ! k) \<Longrightarrow> p x"
  shows "list_all p (xs[k := x])"
  using assms by (simp add: list_all_length nth_list_update)

lemma cs_inv_update:
  assumes "cs_inv s"
  shows "cs_asset s = Some k \<Longrightarrow> (asset_fits (m_assets (cs_model s) ! k) \<Longrightarrow> asset_fits a) \<Longrightarrow>
      cs_inv (s\<lparr>cs_model := (cs_model s)\<lparr>m_assets := (m_assets (cs_model s))[k := a]\<rparr>\<rparr>)"
    and "cs_node s = Some k \<Longrightarrow> (node_fits (m_nodes (cs_model s) ! k) \<Longrightarrow> node_fits n) \<Longrightarrow>
      cs_inv (s\<lparr>cs_model := (cs_model s)\<lparr>m_nodes := (m_nodes (cs_model s))[k := n]\<rparr>\<rparr>)"
    and "cs_event s = Some k \<Longrightarrow> (event_fits (m_events (cs_model s) ! k) \<Longrightarrow> event_fits e) \<Longrightarrow>
      cs_inv (s\<lparr>cs_model := (cs_model s)\<lparr>m_events := (m_events (cs_model s))[k := e]\<rparr>\<rparr>)"
  using assms
  by (simp_all add: cs_inv_def model_fits_def cursor_ok_def list_all_cursor_update)

lemma parse_plant_key_arrays:
  "m_assets (snd (parse_plant_key m key v)) = m_assets m"
  "m_nodes (snd (parse_plant_key m key v)) = m_nodes m"
  "m_events (snd (parse_plant_key m key v)) = m_events m"
  by (simp_all add: parse_plant_key_def snd_let_pair)

lemma config_key_inv:
  assumes "cs_inv s" and "NUL \<notin> set v"
  shows "cs_inv (snd (config_key key v s))"
proof -
  let ?m = "cs_model s"
  have "cs_inv (s\<lparr>cs_model := snd (parse_plant_key ?m key v)\<rparr>)"
    using assms parse_plant_key_fits [of v ?m key] by (simp add: cs_inv_def parse_plant_key_arrays)
  moreover note assms(1) parse_asset_key_fits [OF assms(2)] parse_node_key_fits [OF assms(2)]
    parse_event_key_fits [OF assms(2)]
  ultimately show ?thesis
    by (cases "cs_section s"; cases "cs_asset s"; cases "cs_node s"; cases "cs_event s")
       (simp_all add: config_key_def snd_let_pair cs_inv_update Let_def)
qed

lemma split_key_value_chars:
  assumes "split_key_value line = Some (key, v)"
  shows "line = key @ CHR ''='' # v"
proof -
  let ?p = "\<lambda>c. c \<noteq> CHR ''=''"
  from assms have t: "dropWhile ?p line \<noteq> []" "key = takeWhile ?p line" "v = tl (dropWhile ?p line)"
    unfolding split_key_value_def Let_def by (simp_all split: if_split_asm)
  have "hd (dropWhile ?p line) = CHR ''=''" using hd_dropWhile [OF t(1)] by simp
  then have "dropWhile ?p line = CHR ''='' # v" unfolding t(3) using t(1) by (metis list.collapse)
  then show ?thesis unfolding t(2) by (metis takeWhile_dropWhile_id)
qed

lemma cursor_None [simp]: "cursor_ok None xs"
  by (simp add: cursor_ok_def)

lemma config_line_inv:
  assumes "cs_inv s" and "NUL \<notin> set line"
  shows "cs_inv (snd (config_line line s))"
proof -
  have keyval: "NUL \<notin> set v" if "split_key_value line = Some (key, v)" for key v
    using assms(2) split_key_value_chars [OF that] by auto
  have sect: "cs_inv (t\<lparr>cs_section := x\<rparr>) = cs_inv t" for t x
    by (simp add: cs_inv_def)
  have plant: "cs_inv (s\<lparr>cs_section := x, cs_asset := None, cs_node := None, cs_event := None\<rparr>)" for x
    using assms(1) by (simp add: cs_inv_def)
  show ?thesis
    using assms(1)
    by (simp add: config_line_def sect plant begin_inv config_key_inv keyval case_prod_beta Let_def
        split: option.split)
qed

lemma set_trim_newline: "set (trim_newline l) \<subseteq> set l"
  by (auto simp: trim_newline_def dest: set_dropWhileD)

text \<open>One iteration of the loop, by the way \<open>fgets\<close> and the line check come out.\<close>

lemma config_loop_end:
  "fgets EDGE_MAX_LINE_LEN stream = None \<Longrightarrow> config_loop stream s = (None, s)"
  by (simp add: config_loop.simps)

lemma config_loop_overlong:
  assumes "fgets EDGE_MAX_LINE_LEN stream = Some (buf, rest, eof)"
    and "length (cstr buf) = EDGE_MAX_LINE_LEN - 1 \<and> last (cstr buf) \<noteq> LF \<and> \<not> eof"
  shows "config_loop stream s = (Some EDGE_STATUS_LIMIT, s)"
  using assms by (simp add: config_loop.simps [of stream])

lemma config_loop_step:
  assumes "fgets EDGE_MAX_LINE_LEN stream = Some (buf, rest, eof)"
    and "\<not> (length (cstr buf) = EDGE_MAX_LINE_LEN - 1 \<and> last (cstr buf) \<noteq> LF \<and> \<not> eof)"
  shows "config_loop stream s =
     (case config_line (trim_newline (cstr buf)) s of
        (Some status, s') \<Rightarrow> (Some status, s')
      | (None, s') \<Rightarrow> config_loop rest s')"
  by (subst config_loop.simps)
     (simp only: assms(1) option.case prod.case Let_def if_not_P [OF assms(2)])

text \<open>What every line keeps, the loop keeps.\<close>

lemma config_loop_keeps:
  assumes line: "\<And>l t. I t \<Longrightarrow> NUL \<notin> set l \<Longrightarrow> I (snd (config_line l t))"
  shows "I s \<Longrightarrow> I (snd (config_loop stream s))"
proof (induction stream s rule: config_loop.induct)
  case (1 stream s)
  show ?case
  proof (cases "fgets EDGE_MAX_LINE_LEN stream")
    case None
    with "1.prems" show ?thesis by (simp add: config_loop_end)
  next
    case (Some p)
    obtain buf rest eof where p: "p = (buf, rest, eof)" by (cases p)
    let ?line = "trim_newline (cstr buf)"
    let ?long = "length (cstr buf) = EDGE_MAX_LINE_LEN - 1 \<and> last (cstr buf) \<noteq> LF \<and> \<not> eof"
    obtain r1 s1 where r1: "config_line ?line s = (r1, s1)" by fastforce
    have "NUL \<notin> set ?line" using set_trim_newline [of "cstr buf"] cstr_no_nul [of buf] by blast
    with "1.prems" have s1: "I s1" using line [of s ?line] by (simp add: r1)
    show ?thesis
    proof (cases ?long)
      case True
      with "1.prems" show ?thesis using config_loop_overlong [OF Some [unfolded p] True] by simp
    next
      case False
      have "I (snd (config_loop rest s1))" if "r1 = None"
        by (rule "1.IH" [OF Some p [symmetric] refl refl False r1 [unfolded that, symmetric] refl s1])
      with s1 show ?thesis
        by (simp add: config_loop_step [OF Some [unfolded p] False] r1 split: option.split)
    qed
  qed
qed

lemma config_loop_inv: "cs_inv s \<Longrightarrow> cs_inv (snd (config_loop stream s))"
  by (rule config_loop_keeps) (rule config_line_inv)

text \<open>Nodes come out of the loop at rest: with the value zero and no pending command.\<close>

definition at_rest :: "EdgeNode \<Rightarrow> bool" where
  "at_rest n = (n_value n = 0 \<and> \<not> n_pending_write n)"

lemma parse_node_key_rest: "at_rest (snd (parse_node_key n key v)) = at_rest n"
  by (simp add: parse_node_key_def at_rest_def snd_let_pair case_prod_beta Let_def)

lemma config_line_rest:
  assumes "list_all at_rest (m_nodes (cs_model s))"
  shows "list_all at_rest (m_nodes (cs_model (snd (config_line line s))))"
proof -
  have upd: "list_all at_rest (xs[k := snd (parse_node_key (xs ! k) key v)])" if "list_all at_rest xs" for xs k key v
    using that by (cases "k < length xs") (simp_all add: list_all_length nth_list_update parse_node_key_rest list_update_beyond)
  have key: "list_all at_rest (m_nodes (cs_model (snd (config_key key v s))))" for key v
    using assms by (cases "cs_section s"; cases "cs_asset s"; cases "cs_node s"; cases "cs_event s")
      (simp_all add: config_key_def snd_let_pair parse_plant_key_arrays upd Let_def)
  have new: "list_all at_rest (m_nodes (cs_model (snd (begin_asset s))))" "list_all at_rest (m_nodes (cs_model (snd (begin_node s))))"
    "list_all at_rest (m_nodes (cs_model (snd (begin_event s))))"
    using assms by (simp_all add: begin_defs at_rest_def zero_node_def Let_def)
  show ?thesis
    using assms by (simp add: config_line_def key new case_prod_beta Let_def split: option.split)
qed

lemma config_loop_rest:
  "list_all at_rest (m_nodes (cs_model s)) \<Longrightarrow> list_all at_rest (m_nodes (cs_model (snd (config_loop stream s))))"
  by (rule config_loop_keeps [where I = "\<lambda>s. list_all at_rest (m_nodes (cs_model s))"]) (rule config_line_rest)

text \<open>A line is never rejected with the status of success.\<close>

lemma config_line_not_ok: "fst (config_line line s) \<noteq> Some EDGE_STATUS_OK"
  by (simp add: config_line_def case_prod_beta Let_def split: option.split)

lemma config_loop_not_ok: "fst (config_loop stream s) \<noteq> Some EDGE_STATUS_OK"
proof (induction stream s rule: config_loop.induct)
  case (1 stream s)
  show ?case
  proof (cases "fgets EDGE_MAX_LINE_LEN stream")
    case None
    then show ?thesis by (simp add: config_loop_end)
  next
    case (Some p)
    obtain buf rest eof where p: "p = (buf, rest, eof)" by (cases p)
    let ?long = "length (cstr buf) = EDGE_MAX_LINE_LEN - 1 \<and> last (cstr buf) \<noteq> LF \<and> \<not> eof"
    obtain r1 s1 where line: "config_line (trim_newline (cstr buf)) s = (r1, s1)" by fastforce
    have r1: "r1 \<noteq> Some EDGE_STATUS_OK"
      using config_line_not_ok [of "trim_newline (cstr buf)" s] by (simp add: line)
    show ?thesis
    proof (cases ?long)
      case True
      then show ?thesis using config_loop_overlong [OF Some [unfolded p] True] by simp
    next
      case False
      have "fst (config_loop rest s1) \<noteq> Some EDGE_STATUS_OK" if "r1 = None"
        by (rule "1.IH" [OF Some p [symmetric] refl refl False line [unfolded that, symmetric] refl])
      with r1 show ?thesis
        by (cases r1) (simp_all add: config_loop_step [OF Some [unfolded p] False] line)
    qed
  qed
qed

end
