(* ===== verification/Edge_Config_Resolve.thy ===== *)
theory Edge_Config_Resolve
  imports Edge_Config_Parse
begin

text \<open>
  Validation and reference resolution of \<open>src/edge_config.c\<close>.  The reference resolver
  writes index fields into the model while it checks them; each of its loops is a
  \<open>for_upto\<close> over the array.  \<open>parent_chain\<close> is the cycle check's inner \<open>while\<close> loop, which the
  hop counter bounds.  The lemmas characterise each validator by a declarative predicate
  (\<open>required_fields\<close>, \<open>unique_ids\<close>, \<open>resolvable\<close>), give the model that the
  resolver computes in closed form (\<open>resolved\<close>) and show that its index fields point at what
  the identifiers name (\<open>refs_resolved\<close>); the cycle check can never fire.
\<close>

section \<open>Lookup\<close>

definition index_of :: "nat option \<Rightarrow> u32" where
  "index_of r = (case r of None \<Rightarrow> edge_invalid_index | Some i \<Rightarrow> of_nat i)"

definition find_asset :: "EdgeModel \<Rightarrow> string \<Rightarrow> u32" where
  "find_asset model key = index_of (first_index (\<lambda>a. a_id a = key) 0 (m_assets model))"

definition find_event :: "EdgeModel \<Rightarrow> string \<Rightarrow> u32" where
  "find_event model key = index_of (first_index (\<lambda>e. e_id e = key) 0 (m_events model))"

definition find_node_for_asset :: "EdgeModel \<Rightarrow> u32 \<Rightarrow> string \<Rightarrow> u32" where
  "find_node_for_asset model asset_index key =
     index_of (first_index (\<lambda>n. n_asset_index n = asset_index \<and> n_id n = key) 0 (m_nodes model))"

section \<open>Validation\<close>

definition validate_required_fields :: "EdgeModel \<Rightarrow> EdgeStatus" where
  "validate_required_fields model =
     (if m_id model = [] \<or> m_name model = [] then EDGE_STATUS_INVALID
      else if list_ex (\<lambda>a. a_id a = [] \<or> a_type a = [] \<or> a_name a = []) (m_assets model)
        then EDGE_STATUS_INVALID
      else if list_ex (\<lambda>n. n_asset_id n = [] \<or> n_id n = [] \<or> n_name n = [] \<or>
             n_data_type n = None \<or> n_modbus_unit n = 0 \<or> n_modbus_register n = 0) (m_nodes model)
        then EDGE_STATUS_INVALID
      else if list_ex (\<lambda>e. e_asset_id e = [] \<or> e_id e = [] \<or> e_source_node_id e = [] \<or>
             e_condition e = None \<or> e_severity e = 0) (m_events model)
        then EDGE_STATUS_INVALID
      else EDGE_STATUS_OK)"

definition validate_duplicates :: "EdgeModel \<Rightarrow> EdgeStatus" where
  "validate_duplicates model =
     (if any_pair (\<lambda>a b. a_id a = a_id b) (m_assets model) then EDGE_STATUS_INVALID
      else if any_pair (\<lambda>n k. n_asset_id n = n_asset_id k \<and> n_id n = n_id k) (m_nodes model)
        then EDGE_STATUS_INVALID
      else if list_ex (\<lambda>i. find_event model (e_id (m_events model ! i)) \<noteq> of_nat i)
                [0..<length (m_events model)]
        then EDGE_STATUS_INVALID
      else EDGE_STATUS_OK)"

definition upd_asset :: "nat \<Rightarrow> (EdgeAsset \<Rightarrow> EdgeAsset) \<Rightarrow> EdgeModel \<Rightarrow> EdgeModel" where
  "upd_asset i f m = m\<lparr>m_assets := (m_assets m)[i := f (m_assets m ! i)]\<rparr>"

definition upd_node :: "nat \<Rightarrow> (EdgeNode \<Rightarrow> EdgeNode) \<Rightarrow> EdgeModel \<Rightarrow> EdgeModel" where
  "upd_node i f m = m\<lparr>m_nodes := (m_nodes m)[i := f (m_nodes m ! i)]\<rparr>"

definition upd_event :: "nat \<Rightarrow> (EdgeEvent \<Rightarrow> EdgeEvent) \<Rightarrow> EdgeModel \<Rightarrow> EdgeModel" where
  "upd_event i f m = m\<lparr>m_events := (m_events m)[i := f (m_events m ! i)]\<rparr>"

definition resolve_parent :: "nat \<Rightarrow> EdgeModel \<Rightarrow> EdgeStatus option \<times> EdgeModel" where
  "resolve_parent i m =
     (let asset = m_assets m ! i in
      if a_parent_id asset = [] \<or> a_parent_id asset = m_id m
      then (None, upd_asset i (\<lambda>a. a\<lparr>a_parent_index := edge_invalid_index\<rparr>) m)
      else let p = find_asset m (a_parent_id asset);
               m' = upd_asset i (\<lambda>a. a\<lparr>a_parent_index := p\<rparr>) m
           in if p = edge_invalid_index \<or> p = of_nat i then (Some EDGE_STATUS_INVALID, m')
              else if p > of_nat i then (Some EDGE_STATUS_INVALID, m')
              else (None, m'))"

text \<open>The inner loop of the cycle check for asset \<open>i\<close>: \<open>True\<close> when it reports a cycle.\<close>

function parent_chain :: "EdgeAsset list \<Rightarrow> nat \<Rightarrow> u32 \<Rightarrow> nat \<Rightarrow> bool" where
  "parent_chain assets i cursor hops =
     (if cursor = edge_invalid_index then False
      else if cursor = of_nat i \<or> hops > length assets then True
      else parent_chain assets i (a_parent_index (assets ! unat cursor)) (Suc hops))"
  by pat_completeness auto

termination
  by (relation "measure (\<lambda>(assets, i, cursor, hops). Suc (length assets) - hops)") auto

declare parent_chain.simps [simp del]

definition check_cycle :: "nat \<Rightarrow> EdgeModel \<Rightarrow> EdgeStatus option \<times> EdgeModel" where
  "check_cycle i m =
     (if parent_chain (m_assets m) i (a_parent_index (m_assets m ! i)) 0
      then (Some EDGE_STATUS_INVALID, m) else (None, m))"

definition resolve_node :: "nat \<Rightarrow> EdgeModel \<Rightarrow> EdgeStatus option \<times> EdgeModel" where
  "resolve_node i m =
     (let p = find_asset m (n_asset_id (m_nodes m ! i));
          m' = upd_node i (\<lambda>n. n\<lparr>n_asset_index := p\<rparr>) m
      in if p = edge_invalid_index then (Some EDGE_STATUS_INVALID, m') else (None, m'))"

definition resolve_event :: "nat \<Rightarrow> EdgeModel \<Rightarrow> EdgeStatus option \<times> EdgeModel" where
  "resolve_event i m =
     (let p = find_asset m (e_asset_id (m_events m ! i));
          m' = upd_event i (\<lambda>e. e\<lparr>e_asset_index := p\<rparr>) m
      in if p = edge_invalid_index then (Some EDGE_STATUS_INVALID, m')
         else let q = find_node_for_asset m' p (e_source_node_id (m_events m ! i));
                  m'' = upd_event i (\<lambda>e. e\<lparr>e_source_node_index := q\<rparr>) m'
              in if q = edge_invalid_index then (Some EDGE_STATUS_INVALID, m'') else (None, m''))"

definition validate_and_resolve_references :: "EdgeModel \<Rightarrow> EdgeStatus \<times> EdgeModel" where
  "validate_and_resolve_references m =
     (let (r, m') =
        and_then (for_upto (length (m_assets m)) resolve_parent m) (\<lambda>m1.
        and_then (for_upto (length (m_assets m)) check_cycle m1) (\<lambda>m2.
        and_then (for_upto (length (m_nodes m)) resolve_node m2) (\<lambda>m3.
        for_upto (length (m_events m)) resolve_event m3)))
      in (case r of None \<Rightarrow> (EDGE_STATUS_OK, m') | Some e \<Rightarrow> (e, m')))"

section \<open>What the validators decide\<close>

definition required_fields :: "EdgeModel \<Rightarrow> bool" where
  "required_fields m =
     (m_id m \<noteq> [] \<and> m_name m \<noteq> [] \<and>
      (\<forall>a \<in> set (m_assets m). a_id a \<noteq> [] \<and> a_type a \<noteq> [] \<and> a_name a \<noteq> []) \<and>
      (\<forall>n \<in> set (m_nodes m). n_asset_id n \<noteq> [] \<and> n_id n \<noteq> [] \<and> n_name n \<noteq> [] \<and>
         n_data_type n \<noteq> None \<and> n_modbus_unit n \<noteq> 0 \<and> n_modbus_register n \<noteq> 0) \<and>
      (\<forall>e \<in> set (m_events m). e_asset_id e \<noteq> [] \<and> e_id e \<noteq> [] \<and> e_source_node_id e \<noteq> [] \<and>
         e_condition e \<noteq> None \<and> e_severity e \<noteq> 0))"

definition unique_ids :: "EdgeModel \<Rightarrow> bool" where
  "unique_ids m =
     (distinct (map a_id (m_assets m)) \<and>
      distinct (map (\<lambda>n. (n_asset_id n, n_id n)) (m_nodes m)) \<and>
      distinct (map e_id (m_events m)))"

lemma validate_required_fields_iff:
  "validate_required_fields m = EDGE_STATUS_OK \<longleftrightarrow> required_fields m"
  by (auto simp: validate_required_fields_def required_fields_def list_ex_iff)

lemma first_index_self_iff:
  "(\<forall>i < length xs. first_index (\<lambda>x. f x = f (xs ! i)) 0 xs = Some i) \<longleftrightarrow> distinct (map f xs)"
proof
  assume *: "\<forall>i < length xs. first_index (\<lambda>x. f x = f (xs ! i)) 0 xs = Some i"
  show "distinct (map f xs)"
    unfolding distinct_conv_nth
  proof (intro allI impI notI)
    fix i j
    assume ij: "i < length (map f xs)" "j < length (map f xs)" "i \<noteq> j" "map f xs ! i = map f xs ! j"
    have i: "first_index (\<lambda>x. f x = f (xs ! i)) 0 xs = Some i" using * ij(1) by simp
    have j: "first_index (\<lambda>x. f x = f (xs ! j)) 0 xs = Some j" using * ij(2) by simp
    have "f (xs ! i) = f (xs ! j)" using ij by simp
    with i j have "Some i = Some j" by (simp only:)
    with ij(3) show False by simp
  qed
next
  assume d: "distinct (map f xs)"
  show "\<forall>i < length xs. first_index (\<lambda>x. f x = f (xs ! i)) 0 xs = Some i"
    using d by (auto simp: first_index_0_Some distinct_conv_nth)
qed

lemma index_of_Some_eq:
  assumes "length xs \<le> 65536" and "i < length xs" and "first_index p 0 xs = r"
  shows "index_of r = of_nat i \<longleftrightarrow> r = Some i"
proof (cases r)
  case None
  have "(of_nat 4294967295 :: u32) = of_nat i \<longleftrightarrow> 4294967295 = i"
    using assms(1,2) by (intro of_nat_word_inj) auto
  with None assms(1,2) show ?thesis by (auto simp: index_of_def edge_invalid_index_def)
next
  case (Some k)
  with assms have "k < length xs" by (simp add: first_index_0_Some)
  with Some assms(1,2) show ?thesis
    using of_nat_word_inj [of k i, where ?'a = 32] by (auto simp: index_of_def)
qed

lemma validate_duplicates_iff:
  assumes "length (m_events m) \<le> EDGE_MAX_EVENTS"
  shows "validate_duplicates m = EDGE_STATUS_OK \<longleftrightarrow> unique_ids m"
proof -
  let ?ev = "m_events m"
  have "(\<forall>i < length ?ev. find_event m (e_id (?ev ! i)) = of_nat i) \<longleftrightarrow>
        (\<forall>i < length ?ev. first_index (\<lambda>e. e_id e = e_id (?ev ! i)) 0 ?ev = Some i)"
    using assms by (simp add: find_event_def index_of_Some_eq [OF _ _ refl] edge_limits)
  then have ev: "list_ex (\<lambda>i. find_event m (e_id (?ev ! i)) \<noteq> of_nat i) [0..<length ?ev] \<longleftrightarrow>
      \<not> distinct (map e_id ?ev)"
    unfolding first_index_self_iff by (auto simp: list_ex_iff)
  have nd: "any_pair (\<lambda>n k. n_asset_id n = n_asset_id k \<and> n_id n = n_id k) (m_nodes m) \<longleftrightarrow>
      \<not> distinct (map (\<lambda>n. (n_asset_id n, n_id n)) (m_nodes m))"
    using any_pair_distinct [of "\<lambda>n. (n_asset_id n, n_id n)" "m_nodes m"] by simp
  show ?thesis
    by (auto simp: validate_duplicates_def unique_ids_def any_pair_distinct nd ev)
qed

section \<open>Reference resolution\<close>

text \<open>
  What the resolver decides, in terms of the identifiers of the template: a parent is absent, is
  the plant, or is the id of an \<^emph>\<open>earlier\<close> asset; a node names an asset; an event names an asset
  and a node of that asset.  \<open>resolved\<close> is the model with every reference replaced by the index
  of what it names.
\<close>

definition root_parent :: "EdgeModel \<Rightarrow> EdgeAsset \<Rightarrow> bool" where
  "root_parent m a = (a_parent_id a = [] \<or> a_parent_id a = m_id m)"

definition parents_declared :: "EdgeModel \<Rightarrow> bool" where
  "parents_declared m =
     (\<forall>i < length (m_assets m). root_parent m (m_assets m ! i) \<or>
        (\<exists>p < i. a_id (m_assets m ! p) = a_parent_id (m_assets m ! i)))"

definition nodes_declared :: "EdgeModel \<Rightarrow> bool" where
  "nodes_declared m = (\<forall>n \<in> set (m_nodes m). \<exists>a \<in> set (m_assets m). a_id a = n_asset_id n)"

definition events_declared :: "EdgeModel \<Rightarrow> bool" where
  "events_declared m =
     (\<forall>e \<in> set (m_events m). (\<exists>a \<in> set (m_assets m). a_id a = e_asset_id e) \<and>
        (\<exists>n \<in> set (m_nodes m). n_asset_id n = e_asset_id e \<and> n_id n = e_source_node_id e))"

definition resolvable :: "EdgeModel \<Rightarrow> bool" where
  "resolvable m = (parents_declared m \<and> nodes_declared m \<and> events_declared m)"

definition resolved_asset :: "EdgeModel \<Rightarrow> EdgeAsset \<Rightarrow> EdgeAsset" where
  "resolved_asset m a = a\<lparr>a_parent_index :=
     (if root_parent m a then edge_invalid_index else find_asset m (a_parent_id a))\<rparr>"

definition resolved_node :: "EdgeModel \<Rightarrow> EdgeNode \<Rightarrow> EdgeNode" where
  "resolved_node m n = n\<lparr>n_asset_index := find_asset m (n_asset_id n)\<rparr>"

definition named_node :: "EdgeModel \<Rightarrow> string \<Rightarrow> string \<Rightarrow> u32" where
  "named_node m aid nid =
     index_of (first_index (\<lambda>n. n_asset_id n = aid \<and> n_id n = nid) 0 (m_nodes m))"

definition resolved_event :: "EdgeModel \<Rightarrow> EdgeEvent \<Rightarrow> EdgeEvent" where
  "resolved_event m e = e\<lparr>e_asset_index := find_asset m (e_asset_id e),
     e_source_node_index := named_node m (e_asset_id e) (e_source_node_id e)\<rparr>"

definition resolved :: "EdgeModel \<Rightarrow> EdgeModel" where
  "resolved m = m\<lparr>m_assets := map (resolved_asset m) (m_assets m),
     m_nodes := map (resolved_node m) (m_nodes m), m_events := map (resolved_event m) (m_events m)\<rparr>"

definition within_limits :: "EdgeModel \<Rightarrow> bool" where
  "within_limits m = (length (m_assets m) \<le> EDGE_MAX_ASSETS \<and>
     length (m_nodes m) \<le> EDGE_MAX_NODES \<and> length (m_events m) \<le> EDGE_MAX_EVENTS)"

lemma model_fits_limits: "model_fits m \<Longrightarrow> within_limits m"
  by (simp add: model_fits_def within_limits_def)

lemma resolved_asset_frame [simp]:
  "a_id (resolved_asset m a) = a_id a" "a_type (resolved_asset m a) = a_type a"
  "a_name (resolved_asset m a) = a_name a" "a_parent_id (resolved_asset m a) = a_parent_id a"
  by (simp_all add: resolved_asset_def)

lemma resolved_node_frame [simp]:
  "n_id (resolved_node m n) = n_id n" "n_name (resolved_node m n) = n_name n"
  "n_asset_id (resolved_node m n) = n_asset_id n"
  by (simp_all add: resolved_node_def)

text \<open>Index results of a bounded search.\<close>

lemma index_of_invalid_iff:
  assumes "length xs \<le> 65536"
  shows "index_of (first_index p 0 xs) = edge_invalid_index \<longleftrightarrow> \<not> (\<exists>x \<in> set xs. p x)"
proof (cases "first_index p 0 xs")
  case None
  with first_index_None [of p 0 xs] show ?thesis by (simp add: index_of_def)
next
  case (Some k)
  then have k: "k < length xs" "p (xs ! k)" by (simp_all add: first_index_0_Some)
  have uk: "unat (of_nat k :: u32) = k" using k assms by (intro unat_of_nat_small) simp
  have "(of_nat k :: u32) \<noteq> edge_invalid_index"
  proof
    assume "(of_nat k :: u32) = edge_invalid_index"
    then have "k = unat edge_invalid_index" using uk by simp
    with k assms show False by (simp add: edge_invalid_index_def)
  qed
  with Some k show ?thesis by (auto simp: index_of_def)
qed

lemma index_of_first:
  assumes "length xs \<le> 65536" and "first_index p 0 xs = Some k"
  shows "unat (index_of (Some k)) = k" and "index_of (Some k) \<noteq> edge_invalid_index"
proof -
  have k: "k < length xs" "p (xs ! k)" using assms(2) by (simp_all add: first_index_0_Some)
  show "unat (index_of (Some k)) = k" using k assms(1) by (simp add: index_of_def)
  show "index_of (Some k) \<noteq> edge_invalid_index"
    using index_of_invalid_iff [OF assms(1), of p] assms(2) k by auto
qed

lemma find_asset_invalid:
  "within_limits m \<Longrightarrow>
     find_asset m key = edge_invalid_index \<longleftrightarrow> \<not> (\<exists>a \<in> set (m_assets m). a_id a = key)"
  unfolding find_asset_def
  by (rule index_of_invalid_iff) (simp add: within_limits_def edge_limits)

lemma named_node_invalid:
  "within_limits m \<Longrightarrow>
     named_node m aid nid = edge_invalid_index \<longleftrightarrow>
     \<not> (\<exists>n \<in> set (m_nodes m). n_asset_id n = aid \<and> n_id n = nid)"
  unfolding named_node_def
  by (rule index_of_invalid_iff) (simp add: within_limits_def edge_limits)

lemma index_of_compare:
  fixes q :: "'a \<Rightarrow> bool"
  assumes "length xs \<le> 65536" and "i < length xs"
  defines "p \<equiv> index_of (first_index q 0 xs)"
  shows "p \<noteq> edge_invalid_index \<and> p \<noteq> of_nat i \<and> \<not> p > of_nat i \<longleftrightarrow> (\<exists>j < i. q (xs ! j))"
proof (cases "first_index q 0 xs")
  case None
  then have "\<not> (\<exists>j < i. q (xs ! j))" using assms(2) by (auto simp: first_index_None)
  with None show ?thesis by (simp add: p_def index_of_def)
next
  case (Some k)
  have uk: "unat p = k" "p \<noteq> edge_invalid_index"
    using index_of_first [OF assms(1) Some] by (simp_all add: p_def Some)
  have ui: "unat (of_nat i :: u32) = i" using assms(1,2) by (intro unat_of_nat_small) simp
  have "p \<noteq> of_nat i \<and> \<not> p > of_nat i \<longleftrightarrow> k < i"
    using uk(1) ui by (metis linorder_neqE word_less_nat_alt not_less_iff_gr_or_eq)
  moreover have "k < i \<longleftrightarrow> (\<exists>j < i. q (xs ! j))"
    using Some by (auto simp: first_index_0_Some not_less) (meson leI le_less_trans)
  ultimately show ?thesis using uk(2) by blast
qed

text \<open>Searches by identifier do not see the index fields that the resolver rewrites.\<close>

lemma find_asset_rewritten:
  assumes "\<And>a. a_id (f a) = a_id a"
  shows "find_asset (m\<lparr>m_assets := map f (take i (m_assets m)) @ drop i (m_assets m)\<rparr>) key =
         find_asset m key"
  using assms by (simp add: find_asset_def first_index_rewritten)

lemma find_asset_other [simp]:
  "find_asset (m\<lparr>m_nodes := ns\<rparr>) key = find_asset m key"
  "find_asset (m\<lparr>m_events := es\<rparr>) key = find_asset m key"
  by (simp_all add: find_asset_def)

lemma find_node_other [simp]:
  "find_node_for_asset (m\<lparr>m_events := es\<rparr>) k key = find_node_for_asset m k key"
  by (simp add: find_node_for_asset_def)

lemma find_asset_resolved:
  "find_asset (m\<lparr>m_assets := map (resolved_asset m') (m_assets m)\<rparr>) key = find_asset m key"
  by (simp add: find_asset_def first_index_map comp_def)

lemma resolve_parent_step:
  fixes m :: EdgeModel
  defines "S as \<equiv> m\<lparr>m_assets := as\<rparr>" and "as \<equiv> m_assets m"
  assumes "within_limits m" and "i < length as"
  shows "resolve_parent i (S (map (resolved_asset m) (take i as) @ drop i as)) =
     (if root_parent m (as ! i) \<or> (\<exists>p < i. a_id (as ! p) = a_parent_id (as ! i))
      then None else Some EDGE_STATUS_INVALID,
      S (map (resolved_asset m) (take (Suc i) as) @ drop (Suc i) as))"
proof -
  let ?t = "S (map (resolved_asset m) (take i as) @ drop i as)"
  let ?a = "as ! i"
  have at: "m_assets ?t ! i = ?a" using assms(4) by (simp add: S_def rewritten_update(2))
  have fa: "find_asset ?t key = find_asset m key" for key
    unfolding S_def as_def by (rule find_asset_rewritten) simp
  have upd: "upd_asset i (\<lambda>a. a\<lparr>a_parent_index :=
        (if root_parent m ?a then edge_invalid_index else find_asset m (a_parent_id ?a))\<rparr>) ?t =
      S (map (resolved_asset m) (take (Suc i) as) @ drop (Suc i) as)"
    using rewritten_update(1) [OF assms(4), of "resolved_asset m"] at
    by (simp add: upd_asset_def resolved_asset_def S_def)
  have cmp: "find_asset m (a_parent_id ?a) \<noteq> edge_invalid_index \<and>
      find_asset m (a_parent_id ?a) \<noteq> of_nat i \<and> \<not> find_asset m (a_parent_id ?a) > of_nat i \<longleftrightarrow>
      (\<exists>p < i. a_id (as ! p) = a_parent_id ?a)"
    unfolding find_asset_def using assms(3,4)
    by (subst index_of_compare) (auto simp: as_def within_limits_def edge_limits)
  show ?thesis
  proof (cases "root_parent m ?a")
    case True
    then have r: "a_parent_id ?a = [] \<or> a_parent_id ?a = m_id ?t"
      by (simp add: root_parent_def S_def)
    have "resolve_parent i ?t =
        (None, S (map (resolved_asset m) (take (Suc i) as) @ drop (Suc i) as))"
      unfolding resolve_parent_def Let_def at if_P [OF r] upd [symmetric] using True by simp
    with True show ?thesis by simp
  next
    case False
    let ?p = "find_asset m (a_parent_id ?a)"
    have nr: "\<not> (a_parent_id ?a = [] \<or> a_parent_id ?a = m_id ?t)"
      using False by (simp add: root_parent_def S_def)
    have "resolve_parent i ?t =
        (if ?p \<noteq> edge_invalid_index \<and> ?p \<noteq> of_nat i \<and> \<not> ?p > of_nat i
         then None else Some EDGE_STATUS_INVALID,
         S (map (resolved_asset m) (take (Suc i) as) @ drop (Suc i) as))"
      unfolding resolve_parent_def Let_def at fa if_not_P [OF nr] upd [symmetric] using False by simp
    with False cmp show ?thesis by (simp only: cmp simp_thms)
  qed
qed

lemma resolve_parents:
  fixes m :: EdgeModel
  defines "r \<equiv> for_upto (length (m_assets m)) resolve_parent m"
  assumes "within_limits m"
  shows "parents_declared m \<Longrightarrow> r = (None, m\<lparr>m_assets := map (resolved_asset m) (m_assets m)\<rparr>)"
    and "\<not> parents_declared m \<Longrightarrow> fst r = Some EDGE_STATUS_INVALID"
proof -
  let ?ok = "\<lambda>a i. root_parent m a \<or> (\<exists>p < i. a_id (m_assets m ! p) = a_parent_id a)"
  note loop = for_upto_map [where S = "\<lambda>as. m\<lparr>m_assets := as\<rparr>" and ok = ?ok and
      xs = "m_assets m" and f = "resolved_asset m" and body = resolve_parent,
      OF resolve_parent_step [OF assms(2)] order_refl]
  show "parents_declared m \<Longrightarrow> r = (None, m\<lparr>m_assets := map (resolved_asset m) (m_assets m)\<rparr>)"
    using loop(1) by (simp add: r_def parents_declared_def)
  show "\<not> parents_declared m \<Longrightarrow> fst r = Some EDGE_STATUS_INVALID"
    using loop(2) by (simp add: r_def parents_declared_def)
qed

text \<open>
  When every parent index is smaller than the index of its child, following parents from asset
  \<open>i\<close> ends without the cycle check firing.
\<close>

definition parents_below :: "EdgeAsset list \<Rightarrow> bool" where
  "parents_below as = (\<forall>i < length as. a_parent_index (as ! i) = edge_invalid_index \<or>
     unat (a_parent_index (as ! i)) < i)"

lemma parent_chain_below:
  assumes "parents_below as" and "i < length as" and "length as \<le> EDGE_MAX_ASSETS"
    and "cursor = edge_invalid_index \<or> unat cursor < i \<and> hops + unat cursor < length as"
  shows "\<not> parent_chain as i cursor hops"
  using assms(4)
proof (induction "unat cursor" arbitrary: cursor hops rule: less_induct)
  case less
  show ?case
  proof (cases "cursor = edge_invalid_index")
    case True
    then show ?thesis by (simp add: parent_chain.simps)
  next
    case False
    let ?p = "a_parent_index (as ! unat cursor)"
    have c: "unat cursor < i" "hops + unat cursor < length as" using less.prems False by auto
    have "?p = edge_invalid_index \<or> unat ?p < unat cursor"
      using assms(1,2) c(1) by (auto simp: parents_below_def)
    then have "\<not> parent_chain as i ?p (Suc hops)"
    proof
      assume "?p = edge_invalid_index"
      then show ?thesis by (simp add: parent_chain.simps)
    next
      assume "unat ?p < unat cursor"
      with c show ?thesis by (intro less.hyps) auto
    qed
    moreover have "cursor \<noteq> of_nat i"
    proof
      assume "cursor = of_nat i"
      then have "unat cursor = i" using assms(2,3) by (simp add: edge_limits)
      with c(1) show False by simp
    qed
    ultimately show ?thesis
      using c False by (subst parent_chain.simps) simp
  qed
qed

lemma check_cycle_passes:
  assumes "parents_below (m_assets m)" and "within_limits m" and "n \<le> length (m_assets m)"
  shows "for_upto n check_cycle m = (None, m)"
  using assms(3)
proof (induction n)
  case 0
  then show ?case by simp
next
  case (Suc n)
  have "\<not> parent_chain (m_assets m) n (a_parent_index (m_assets m ! n)) 0"
  proof (rule parent_chain_below)
    show "a_parent_index (m_assets m ! n) = edge_invalid_index \<or>
        unat (a_parent_index (m_assets m ! n)) < n \<and>
        0 + unat (a_parent_index (m_assets m ! n)) < length (m_assets m)"
      using assms(1) Suc.prems by (auto simp: parents_below_def dest!: spec [of _ n])
  qed (use assms Suc.prems in \<open>auto simp: within_limits_def\<close>)
  with Suc show ?case by (simp add: for_upto_Suc check_cycle_def del: upt_Suc)
qed

lemma resolve_nodes:
  fixes m :: EdgeModel
  defines "r \<equiv> for_upto (length (m_nodes m)) resolve_node m"
  assumes "within_limits m"
  shows "nodes_declared m \<Longrightarrow> r = (None, m\<lparr>m_nodes := map (resolved_node m) (m_nodes m)\<rparr>)"
    and "\<not> nodes_declared m \<Longrightarrow> fst r = Some EDGE_STATUS_INVALID"
proof -
  let ?S = "\<lambda>ns. m\<lparr>m_nodes := ns\<rparr>" and ?ns = "m_nodes m"
  let ?ok = "\<lambda>n (i :: nat). find_asset m (n_asset_id n) \<noteq> edge_invalid_index"
  have step: "resolve_node i (?S (map (resolved_node m) (take i ?ns) @ drop i ?ns)) =
      (if ?ok (?ns ! i) i then None else Some EDGE_STATUS_INVALID,
       ?S (map (resolved_node m) (take (Suc i) ?ns) @ drop (Suc i) ?ns))" if "i < length ?ns" for i
  proof -
    let ?t = "?S (map (resolved_node m) (take i ?ns) @ drop i ?ns)"
    have at: "m_nodes ?t ! i = ?ns ! i" using that by (simp add: rewritten_update(2))
    have upd: "upd_node i (\<lambda>n. n\<lparr>n_asset_index := find_asset m (n_asset_id (?ns ! i))\<rparr>) ?t =
        ?S (map (resolved_node m) (take (Suc i) ?ns) @ drop (Suc i) ?ns)"
      using rewritten_update(1) [OF that, of "resolved_node m"] at
      by (simp add: upd_node_def resolved_node_def)
    show ?thesis
      unfolding resolve_node_def Let_def at find_asset_other upd [symmetric] by simp
  qed
  have ok_iff: "nodes_declared m \<longleftrightarrow> (\<forall>i < length ?ns. ?ok (?ns ! i) i)"
    unfolding nodes_declared_def all_set_conv_all_nth [of ?ns] by (simp add: find_asset_invalid [OF assms(2)])
  note loop = for_upto_map [where S = ?S and ok = ?ok and xs = ?ns and f = "resolved_node m" and
      body = resolve_node, OF step order_refl]
  show "nodes_declared m \<Longrightarrow> r = (None, m\<lparr>m_nodes := map (resolved_node m) (m_nodes m)\<rparr>)"
    using loop(1) by (simp add: r_def ok_iff)
  show "\<not> nodes_declared m \<Longrightarrow> fst r = Some EDGE_STATUS_INVALID"
    using loop(2) by (simp add: r_def ok_iff)
qed

text \<open>Two identifiers that both name an asset have the same index exactly when they are equal.\<close>

lemma find_asset_inj:
  assumes "within_limits m" and "find_asset m x \<noteq> edge_invalid_index"
    and "find_asset m y \<noteq> edge_invalid_index"
  shows "find_asset m x = find_asset m y \<longleftrightarrow> x = y"
proof -
  have len: "length (m_assets m) \<le> 65536"
    using assms(1) by (simp add: within_limits_def edge_limits)
  have found: "\<exists>k. first_index (\<lambda>a. a_id a = z) 0 (m_assets m) = Some k"
    if "find_asset m z \<noteq> edge_invalid_index" for z
    using that by (cases "first_index (\<lambda>a. a_id a = z) 0 (m_assets m)")
      (simp_all add: find_asset_def index_of_def)
  obtain k l where kl: "first_index (\<lambda>a. a_id a = x) 0 (m_assets m) = Some k"
      "first_index (\<lambda>a. a_id a = y) 0 (m_assets m) = Some l"
    using found assms(2,3) by blast
  have "find_asset m x = find_asset m y \<longleftrightarrow> k = l"
    unfolding find_asset_def kl
    by (metis index_of_first(1) [OF len kl(1)] index_of_first(1) [OF len kl(2)])
  also have "\<dots> \<longleftrightarrow> x = y"
  proof
    have "a_id (m_assets m ! k) = x" "a_id (m_assets m ! l) = y"
      using kl unfolding first_index_0_Some by simp_all
    then show "k = l \<Longrightarrow> x = y" by simp
    show "x = y \<Longrightarrow> k = l" using kl by simp
  qed
  finally show ?thesis .
qed

lemma find_node_resolved:
  assumes "within_limits m" and "find_asset m aid \<noteq> edge_invalid_index"
    and "nodes_declared m"
  shows "find_node_for_asset (m\<lparr>m_nodes := map (resolved_node m) (m_nodes m)\<rparr>) (find_asset m aid) nid =
         named_node m aid nid"
proof -
  have "find_asset m (n_asset_id n) \<noteq> edge_invalid_index" if "n \<in> set (m_nodes m)" for n
    unfolding find_asset_invalid [OF assms(1)] using assms(3) that by (auto simp: nodes_declared_def)
  then have "find_asset m (n_asset_id n) = find_asset m aid \<longleftrightarrow> n_asset_id n = aid"
    if "n \<in> set (m_nodes m)" for n
    using find_asset_inj [OF assms(1) _ assms(2)] that by blast
  then show ?thesis
    unfolding find_node_for_asset_def named_node_def
    by (simp add: first_index_map comp_def)
       (intro arg_cong [where f = index_of] first_index_cong, simp add: resolved_node_def)
qed

lemma resolve_events:
  fixes m :: EdgeModel
  defines "m3 \<equiv> m\<lparr>m_nodes := map (resolved_node m) (m_nodes m)\<rparr>"
  defines "r \<equiv> for_upto (length (m_events m)) resolve_event m3"
  assumes "within_limits m"
    and "nodes_declared m"
  shows "events_declared m \<Longrightarrow> r = (None, m3\<lparr>m_events := map (resolved_event m) (m_events m)\<rparr>)"
    and "\<not> events_declared m \<Longrightarrow> fst r = Some EDGE_STATUS_INVALID"
proof -
  let ?S = "\<lambda>es. m3\<lparr>m_events := es\<rparr>" and ?es = "m_events m"
  let ?a = "\<lambda>e. find_asset m (e_asset_id e)"
    and ?n = "\<lambda>e. named_node m (e_asset_id e) (e_source_node_id e)"
  let ?f = "\<lambda>e. if ?a e = edge_invalid_index then e\<lparr>e_asset_index := ?a e\<rparr> else resolved_event m e"
  let ?ok = "\<lambda>e (i :: nat). ?a e \<noteq> edge_invalid_index \<and> ?n e \<noteq> edge_invalid_index"
  have step: "resolve_event i (?S (map ?f (take i ?es) @ drop i ?es)) =
      (if ?ok (?es ! i) i then None else Some EDGE_STATUS_INVALID,
       ?S (map ?f (take (Suc i) ?es) @ drop (Suc i) ?es))" if "i < length ?es" for i
  proof -
    let ?t = "?S (map ?f (take i ?es) @ drop i ?es)" and ?e = "?es ! i"
    have at: "m_events ?t ! i = ?e" using that by (simp add: rewritten_update(2))
    have upd: "?S (map ?f (take (Suc i) ?es) @ drop (Suc i) ?es) = upd_event i (\<lambda>e. ?f ?e) ?t"
      unfolding rewritten_update(1) [OF that, symmetric] by (simp add: upd_event_def)
    have fa: "find_asset ?t key = find_asset m key" for key by (simp add: m3_def)
    show ?thesis
    proof (cases "?a ?e = edge_invalid_index")
      case True
      have one: "upd_event i (\<lambda>e. e\<lparr>e_asset_index := q\<rparr>) ?t =
          upd_event i (\<lambda>e. ?e\<lparr>e_asset_index := q\<rparr>) ?t" for q
        unfolding upd_event_def at ..
      from True show ?thesis
        unfolding upd resolve_event_def Let_def at fa one by simp
    next
      case False
      let ?t1 = "upd_event i (\<lambda>e. e\<lparr>e_asset_index := ?a ?e\<rparr>) ?t"
      have fn: "find_node_for_asset ?t1 (?a ?e) (e_source_node_id ?e) = ?n ?e"
        using find_node_resolved [OF assms(3) False assms(4)] by (simp add: upd_event_def m3_def)
      have two: "upd_event i (\<lambda>e. e\<lparr>e_source_node_index := q\<rparr>) ?t1 =
          upd_event i (\<lambda>e. ?e\<lparr>e_asset_index := ?a ?e, e_source_node_index := q\<rparr>) ?t" for q
        using that rewritten_update(2) [OF that, of ?f] by (simp add: upd_event_def)
      show ?thesis
        unfolding upd resolve_event_def Let_def at fa fn two
        using False by (simp add: resolved_event_def)
    qed
  qed
  have ok_iff: "events_declared m \<longleftrightarrow> (\<forall>i < length ?es. ?ok (?es ! i) i)"
    unfolding events_declared_def all_set_conv_all_nth [of ?es]
    by (simp add: find_asset_invalid [OF assms(3)] named_node_invalid [OF assms(3)])
  have f: "map ?f ?es = map (resolved_event m) ?es" if "events_declared m"
  proof (rule map_cong [OF refl])
    fix e assume "e \<in> set ?es"
    with that have "?a e \<noteq> edge_invalid_index" unfolding ok_iff by (auto simp: in_set_conv_nth)
    then show "?f e = resolved_event m e" by simp
  qed
  note loop = for_upto_map [where S = ?S and ok = ?ok and xs = ?es and f = ?f and
      body = resolve_event, OF step order_refl]
  have S: "?S ?es = m3" by (simp add: m3_def)
  show "events_declared m \<Longrightarrow> r = (None, m3\<lparr>m_events := map (resolved_event m) (m_events m)\<rparr>)"
    using loop(1) f unfolding S by (simp add: r_def ok_iff)
  show "\<not> events_declared m \<Longrightarrow> fst r = Some EDGE_STATUS_INVALID"
    using loop(2) unfolding S by (simp add: r_def ok_iff)
qed

lemma resolved_parents_below:
  assumes "parents_declared m" and "within_limits m"
  shows "parents_below (map (resolved_asset m) (m_assets m))"
  unfolding parents_below_def
proof (intro allI impI)
  fix i assume i: "i < length (map (resolved_asset m) (m_assets m))"
  let ?a = "m_assets m ! i"
  show "a_parent_index (map (resolved_asset m) (m_assets m) ! i) = edge_invalid_index \<or>
      unat (a_parent_index (map (resolved_asset m) (m_assets m) ! i)) < i"
  proof (cases "root_parent m ?a")
    case True
    with i show ?thesis by (simp add: resolved_asset_def)
  next
    case False
    with assms(1) i obtain p where p: "p < i" "a_id (m_assets m ! p) = a_parent_id ?a"
      by (auto simp: parents_declared_def)
    with i obtain k where k: "first_index (\<lambda>a. a_id a = a_parent_id ?a) 0 (m_assets m) = Some k"
      using first_index_None [of "\<lambda>a. a_id a = a_parent_id ?a" 0 "m_assets m"]
      by (metis (mono_tags, lifting) length_map nth_mem not_None_eq less_trans)
    then have "k \<le> p" using p(2) unfolding first_index_0_Some by (metis (mono_tags) not_le)
    moreover have "unat (find_asset m (a_parent_id ?a)) = k"
      unfolding find_asset_def k using assms(2)
      by (intro index_of_first(1) [OF _ k]) (simp add: within_limits_def edge_limits)
    ultimately show ?thesis using False i p(1) by (simp add: resolved_asset_def)
  qed
qed

lemma resolved_frame:
  fixes m :: EdgeModel
  defines "m1 \<equiv> m\<lparr>m_assets := map (resolved_asset m) (m_assets m)\<rparr>"
  shows "resolved_node m1 = resolved_node m" and "resolved_event m1 = resolved_event m"
    and "nodes_declared m1 = nodes_declared m" and "events_declared m1 = events_declared m"
    and "within_limits m1 = within_limits m"
    and "m_nodes m1 = m_nodes m" and "m_events m1 = m_events m"
  by (auto simp: m1_def fun_eq_iff resolved_node_def resolved_event_def find_asset_resolved
      named_node_def within_limits_def nodes_declared_def events_declared_def)

text \<open>The whole resolver: it accepts exactly the resolvable models and then computes \<open>resolved\<close>.\<close>

lemma resolver_run:
  fixes m :: EdgeModel
  defines "r \<equiv> and_then (for_upto (length (m_assets m)) resolve_parent m) (\<lambda>m1.
        and_then (for_upto (length (m_assets m)) check_cycle m1) (\<lambda>m2.
        and_then (for_upto (length (m_nodes m)) resolve_node m2) (\<lambda>m3.
        for_upto (length (m_events m)) resolve_event m3)))"
  assumes "within_limits m"
  shows "resolvable m \<Longrightarrow> r = (None, resolved m)"
    and "\<not> resolvable m \<Longrightarrow> fst r = Some EDGE_STATUS_INVALID"
proof -
  define m1 where "m1 = m\<lparr>m_assets := map (resolved_asset m) (m_assets m)\<rparr>"
  note fr = resolved_frame [of m, folded m1_def]
  have lim: "within_limits m1" using assms(2) fr(5) by simp
  note a = resolve_parents [OF assms(2), folded m1_def]
  note c = resolve_nodes [OF lim, unfolded fr]
  note d = resolve_events [OF lim, unfolded fr]
  have b: "for_upto (length (m_assets m)) check_cycle m1 = (None, m1)" if "parents_declared m"
    using resolved_parents_below [OF that assms(2)] lim
    by (intro check_cycle_passes) (simp_all add: m1_def)
  have r: "r = and_then (for_upto (length (m_nodes m)) resolve_node m1)
      (for_upto (length (m_events m)) resolve_event)" if "parents_declared m"
    using that by (simp add: r_def a(1) b)
  show "r = (None, resolved m)" if "resolvable m"
    using that r c(1) d(1) by (simp add: resolvable_def resolved_def m1_def)
  show "fst r = Some EDGE_STATUS_INVALID" if "\<not> resolvable m"
  proof (cases "parents_declared m")
    case False
    then show ?thesis unfolding r_def by (intro and_then_stop a(2))
  next
    case True
    show ?thesis
    proof (cases "nodes_declared m")
      case False
      then show ?thesis unfolding r [OF True] by (intro and_then_stop c(2))
    next
      case nodes: True
      with that True have "\<not> events_declared m" by (simp add: resolvable_def)
      then show ?thesis unfolding r [OF True] c(1) [OF nodes] and_then_go by (rule d(2) [OF nodes])
    qed
  qed
qed

lemma validate_and_resolve_iff:
  assumes "within_limits m"
  shows "resolvable m \<Longrightarrow> validate_and_resolve_references m = (EDGE_STATUS_OK, resolved m)"
    and "\<not> resolvable m \<Longrightarrow> fst (validate_and_resolve_references m) = EDGE_STATUS_INVALID"
  using resolver_run [OF assms] unfolding validate_and_resolve_references_def Let_def
  by (simp_all add: case_prod_beta)

text \<open>The index fields of a resolved model point at what the identifiers name.\<close>

definition asset_at :: "EdgeModel \<Rightarrow> u32 \<Rightarrow> string \<Rightarrow> bool" where
  "asset_at m k key = (k \<noteq> edge_invalid_index \<and> unat k < length (m_assets m) \<and>
     a_id (m_assets m ! unat k) = key)"

definition node_at :: "EdgeModel \<Rightarrow> u32 \<Rightarrow> string \<Rightarrow> string \<Rightarrow> bool" where
  "node_at m k aid nid = (k \<noteq> edge_invalid_index \<and> unat k < length (m_nodes m) \<and>
     n_asset_id (m_nodes m ! unat k) = aid \<and> n_id (m_nodes m ! unat k) = nid)"

definition refs_resolved :: "EdgeModel \<Rightarrow> bool" where
  "refs_resolved m =
     ((\<forall>i < length (m_assets m). let a = m_assets m ! i in
         if root_parent m a then a_parent_index a = edge_invalid_index
         else asset_at m (a_parent_index a) (a_parent_id a) \<and> unat (a_parent_index a) < i) \<and>
      (\<forall>n \<in> set (m_nodes m). asset_at m (n_asset_index n) (n_asset_id n)) \<and>
      (\<forall>e \<in> set (m_events m). asset_at m (e_asset_index e) (e_asset_id e) \<and>
         node_at m (e_source_node_index e) (e_asset_id e) (e_source_node_id e)))"

lemma find_asset_at:
  assumes "within_limits m" and "\<exists>a \<in> set (m_assets m). a_id a = key"
  shows "asset_at m (find_asset m key) key"
proof -
  let ?p = "\<lambda>a. a_id a = key"
  have len: "length (m_assets m) \<le> 65536" using assms(1) by (simp add: within_limits_def edge_limits)
  obtain k where k: "first_index ?p 0 (m_assets m) = Some k"
    using assms(2) first_index_None [of ?p 0 "m_assets m"] by fastforce
  then have "k < length (m_assets m)" "a_id (m_assets m ! k) = key"
    unfolding first_index_0_Some by simp_all
  with index_of_first [OF len k] show ?thesis by (simp add: asset_at_def find_asset_def k)
qed

lemma named_node_at:
  assumes "within_limits m" and "\<exists>n \<in> set (m_nodes m). n_asset_id n = aid \<and> n_id n = nid"
  shows "node_at m (named_node m aid nid) aid nid"
proof -
  let ?p = "\<lambda>n. n_asset_id n = aid \<and> n_id n = nid"
  have len: "length (m_nodes m) \<le> 65536" using assms(1) by (simp add: within_limits_def edge_limits)
  obtain k where k: "first_index ?p 0 (m_nodes m) = Some k"
    using assms(2) first_index_None [of ?p 0 "m_nodes m"] by fastforce
  then have "k < length (m_nodes m)" "?p (m_nodes m ! k)"
    unfolding first_index_0_Some by simp_all
  with index_of_first [OF len k] show ?thesis by (simp add: node_at_def named_node_def k)
qed

lemma at_resolved:
  "asset_at m k key \<Longrightarrow> asset_at (resolved m) k key"
  "node_at m k aid nid \<Longrightarrow> node_at (resolved m) k aid nid"
  "root_parent (resolved m) (resolved_asset m a) = root_parent m a"
  by (simp_all add: asset_at_def node_at_def resolved_def root_parent_def)

lemma resolved_refs:
  assumes "within_limits m" and "resolvable m"
  shows "refs_resolved (resolved m)"
  unfolding refs_resolved_def Let_def
proof (intro conjI allI impI ballI)
  note res = assms(2) [unfolded resolvable_def]
  fix i assume i: "i < length (m_assets (resolved m))"
  let ?a = "m_assets m ! i"
  have ra: "m_assets (resolved m) ! i = resolved_asset m ?a" "i < length (m_assets m)"
    using i by (simp_all add: resolved_def)
  show "if root_parent (resolved m) (m_assets (resolved m) ! i)
      then a_parent_index (m_assets (resolved m) ! i) = edge_invalid_index
      else asset_at (resolved m) (a_parent_index (m_assets (resolved m) ! i))
             (a_parent_id (m_assets (resolved m) ! i)) \<and>
           unat (a_parent_index (m_assets (resolved m) ! i)) < i"
  proof (cases "root_parent m ?a")
    case True
    then show ?thesis unfolding ra(1) at_resolved(3) by (simp add: resolved_asset_def)
  next
    case False
    have "\<exists>a \<in> set (m_assets m). a_id a = a_parent_id ?a"
      using res ra(2) False by (auto simp: parents_declared_def) (metis less_trans nth_mem)
    then have at: "asset_at m (find_asset m (a_parent_id ?a)) (a_parent_id ?a)"
      by (rule find_asset_at [OF assms(1)])
    have "unat (find_asset m (a_parent_id ?a)) < i"
      using resolved_parents_below [OF _ assms(1)] res ra(2) False at
      by (auto simp: parents_below_def resolved_asset_def asset_at_def)
    with at False show ?thesis
      unfolding ra(1) at_resolved(3) by (simp add: resolved_asset_def at_resolved(1))
  qed
next
  fix n assume "n \<in> set (m_nodes (resolved m))"
  then obtain n' where "n' \<in> set (m_nodes m)" "n = resolved_node m n'" by (auto simp: resolved_def)
  with assms show "asset_at (resolved m) (n_asset_index n) (n_asset_id n)"
    by (auto simp: resolved_node_def resolvable_def nodes_declared_def
        intro!: at_resolved(1) find_asset_at)
next
  fix e assume "e \<in> set (m_events (resolved m))"
  then obtain e' where e': "e' \<in> set (m_events m)" "e = resolved_event m e'" by (auto simp: resolved_def)
  with assms show "asset_at (resolved m) (e_asset_index e) (e_asset_id e)"
    by (auto simp: resolved_event_def resolvable_def events_declared_def
        intro!: at_resolved(1) find_asset_at)
  from e' assms show "node_at (resolved m) (e_source_node_index e) (e_asset_id e) (e_source_node_id e)"
    by (auto simp: resolved_event_def resolvable_def events_declared_def
        intro!: at_resolved(2) named_node_at)
qed

end
