(* ===== verification/Edge_Config_Load.thy ===== *)
theory Edge_Config_Load
  imports Edge_Config_Resolve
begin

text \<open>
  The two entry points of \<open>src/edge_config.c\<close>: \<open>edge_config_load\<close>, which runs the parser and
  then the three validators, and \<open>edge_config_wire_runtime\<close>, which turns the resolved indexes
  into the pointers and per-asset counters that the hot paths use.
\<close>

section \<open>Loading\<close>

text \<open>
  \<open>edge_config_load\<close> on the content of the file at the given path (\<open>None\<close> when \<open>fopen\<close> fails).
\<close>

definition edge_config_load :: "string option \<Rightarrow> EdgeModel \<Rightarrow> EdgeStatus \<times> EdgeModel" where
  "edge_config_load file model =
     (case file of
        None \<Rightarrow> (EDGE_STATUS_ERROR, model)
      | Some content \<Rightarrow>
          (case config_loop content (config_init model) of
             (Some status, s) \<Rightarrow> (status, cs_model s)
           | (None, s) \<Rightarrow>
               (let m = cs_model s in
                if validate_required_fields m \<noteq> EDGE_STATUS_OK then (EDGE_STATUS_INVALID, m)
                else if validate_duplicates m \<noteq> EDGE_STATUS_OK then (EDGE_STATUS_INVALID, m)
                else let (st, m') = validate_and_resolve_references m
                     in if st \<noteq> EDGE_STATUS_OK then (EDGE_STATUS_INVALID, m')
                        else (EDGE_STATUS_OK, m'))))"

section \<open>Runtime wiring\<close>

definition wire_asset :: "nat \<Rightarrow> EdgeModel \<Rightarrow> EdgeStatus option \<times> EdgeModel" where
  "wire_asset i m =
     (None, upd_asset i (\<lambda>a. a\<lparr>a_first_node_index := edge_invalid_index, a_node_count := 0,
        a_parent := (if a_parent_index a \<noteq> edge_invalid_index
                     then Some (unat (a_parent_index a)) else None)\<rparr>) m)"

definition wire_node :: "nat \<Rightarrow> EdgeModel \<Rightarrow> EdgeStatus option \<times> EdgeModel" where
  "wire_node i m =
     (let k = n_asset_index (m_nodes m ! i) in
      if k = edge_invalid_index then (Some EDGE_STATUS_INVALID, m)
      else (None,
            upd_asset (unat k)
              (\<lambda>a. a\<lparr>a_first_node_index := (if a_first_node_index a = edge_invalid_index
                                           then of_nat i else a_first_node_index a),
                     a_node_count := a_node_count a + 1\<rparr>)
              (upd_node i (\<lambda>n. n\<lparr>n_asset := Some (unat k)\<rparr>) m)))"

definition wire_event :: "nat \<Rightarrow> EdgeModel \<Rightarrow> EdgeStatus option \<times> EdgeModel" where
  "wire_event i m =
     (let e = m_events m ! i in
      if e_asset_index e = edge_invalid_index \<or> e_source_node_index e = edge_invalid_index
      then (Some EDGE_STATUS_INVALID, m)
      else (None, upd_event i (\<lambda>e. e\<lparr>e_asset := Some (unat (e_asset_index e)),
                                    e_source_node := Some (unat (e_source_node_index e))\<rparr>) m))"

definition edge_config_wire_runtime :: "EdgeModel \<Rightarrow> EdgeStatus \<times> EdgeModel" where
  "edge_config_wire_runtime m =
     (let (r, m') =
        and_then (for_upto (length (m_assets m)) wire_asset m) (\<lambda>m1.
        and_then (for_upto (length (m_nodes m)) wire_node m1) (\<lambda>m2.
        for_upto (length (m_events m)) wire_event m2))
      in (case r of None \<Rightarrow> (EDGE_STATUS_OK, m') | Some e \<Rightarrow> (e, m')))"

section \<open>What loading returns\<close>

lemma list_all_update_same:
  "list_all p xs \<Longrightarrow> (\<And>x. p x \<Longrightarrow> p (f x)) \<Longrightarrow> list_all p (xs[i := f (xs ! i)])"
  by (cases "i < length xs") (auto simp: list_all_length nth_list_update)

lemma upd_fits:
  assumes "model_fits m"
  shows "(\<And>a. asset_fits a \<Longrightarrow> asset_fits (f a)) \<Longrightarrow> model_fits (upd_asset i f m)"
    and "(\<And>n. node_fits n \<Longrightarrow> node_fits (g n)) \<Longrightarrow> model_fits (upd_node i g m)"
    and "(\<And>e. event_fits e \<Longrightarrow> event_fits (h e)) \<Longrightarrow> model_fits (upd_event i h m)"
  using assms
  by (simp_all add: model_fits_def upd_asset_def upd_node_def upd_event_def list_all_update_same)

lemma upd_index_fits:
  assumes "model_fits m"
  shows "model_fits (upd_asset i (a_parent_index_update f) m)"
    and "model_fits (upd_node i (n_asset_index_update f) m)"
    and "model_fits (upd_event i (e_asset_index_update f) m)"
    and "model_fits (upd_event i (e_source_node_index_update f) m)"
  by (rule upd_fits [OF assms]; simp add: asset_fits_def node_fits_def event_fits_def)+

lemma resolve_step_fits:
  assumes "model_fits m"
  shows "model_fits (snd (resolve_parent i m))" and "model_fits (snd (check_cycle i m))"
    and "model_fits (snd (resolve_node i m))" and "model_fits (snd (resolve_event i m))"
  using assms
  by (simp_all add: resolve_parent_def check_cycle_def resolve_node_def resolve_event_def Let_def
      upd_index_fits)

lemma loop_fits:
  assumes "model_fits m" and "\<And>i t. model_fits t \<Longrightarrow> model_fits (snd (body i t))"
  shows "model_fits (snd (for_upto n body m))"
  by (rule for_in_invariant [where I = model_fits, OF assms(1)]) (metis assms(2) snd_conv)

lemma validate_and_resolve_fits:
  "model_fits m \<Longrightarrow> model_fits (snd (validate_and_resolve_references m))"
proof -
  let ?r = "and_then (for_upto (length (m_assets m)) resolve_parent m) (\<lambda>m1.
        and_then (for_upto (length (m_assets m)) check_cycle m1) (\<lambda>m2.
        and_then (for_upto (length (m_nodes m)) resolve_node m2) (\<lambda>m3.
        for_upto (length (m_events m)) resolve_event m3)))"
  assume "model_fits m"
  then have "model_fits (snd ?r)"
    by (intro and_then_invariant [where I = model_fits] loop_fits resolve_step_fits)
  then show ?thesis
    unfolding validate_and_resolve_references_def Let_def by (auto split: prod.split option.split)
qed

text \<open>The parsed template, when the line loop reaches the end of the file.\<close>

definition parsed :: "string \<Rightarrow> EdgeModel \<Rightarrow> EdgeModel option" where
  "parsed content model =
     (case config_loop content (config_init model) of
        (Some _, _) \<Rightarrow> None | (None, s) \<Rightarrow> Some (cs_model s))"

definition valid_template :: "EdgeModel \<Rightarrow> bool" where
  "valid_template m = (required_fields m \<and> unique_ids m \<and> resolvable m)"

lemma config_init_inv: "model_fits m \<Longrightarrow> cs_inv (config_init m)"
  by (simp add: cs_inv_def config_init_def)

lemma parsed_fits: "model_fits m0 \<Longrightarrow> parsed content m0 = Some m \<Longrightarrow> model_fits m"
  using config_loop_inv [OF config_init_inv, of m0 content]
  by (auto simp: parsed_def cs_inv_def split: prod.splits option.splits)

lemma load_cases:
  assumes "model_fits m0"
  shows "edge_config_load None m0 = (EDGE_STATUS_ERROR, m0)"
    and "config_loop content (config_init m0) = (Some st, s) \<Longrightarrow>
         edge_config_load (Some content) m0 = (st, cs_model s)"
    and "parsed content m0 = Some m \<Longrightarrow> valid_template m \<Longrightarrow>
         edge_config_load (Some content) m0 = (EDGE_STATUS_OK, resolved m)"
    and "parsed content m0 = Some m \<Longrightarrow> \<not> valid_template m \<Longrightarrow>
         fst (edge_config_load (Some content) m0) = EDGE_STATUS_INVALID"
proof -
  show "edge_config_load None m0 = (EDGE_STATUS_ERROR, m0)" by (simp add: edge_config_load_def)
  show "edge_config_load (Some content) m0 = (st, cs_model s)"
    if "config_loop content (config_init m0) = (Some st, s)"
    using that by (simp add: edge_config_load_def)
  have val: "edge_config_load (Some content) m0 =
      (if \<not> (required_fields m \<and> unique_ids m) then (EDGE_STATUS_INVALID, m)
       else let (st, m') = validate_and_resolve_references m
            in if st \<noteq> EDGE_STATUS_OK then (EDGE_STATUS_INVALID, m') else (EDGE_STATUS_OK, m'))"
    and lim: "within_limits m" if "parsed content m0 = Some m"
  proof -
    from that obtain s where s: "config_loop content (config_init m0) = (None, s)" "cs_model s = m"
      by (auto simp: parsed_def split: prod.splits option.splits)
    have fits: "model_fits m" by (rule parsed_fits [OF assms that])
    then show "within_limits m" by (rule model_fits_limits)
    from fits have "length (m_events m) \<le> EDGE_MAX_EVENTS" by (simp add: model_fits_def)
    then show "edge_config_load (Some content) m0 =
      (if \<not> (required_fields m \<and> unique_ids m) then (EDGE_STATUS_INVALID, m)
       else let (st, m') = validate_and_resolve_references m
            in if st \<noteq> EDGE_STATUS_OK then (EDGE_STATUS_INVALID, m') else (EDGE_STATUS_OK, m'))"
      by (simp add: edge_config_load_def s validate_required_fields_iff validate_duplicates_iff Let_def)
  qed
  show "edge_config_load (Some content) m0 = (EDGE_STATUS_OK, resolved m)"
    if "parsed content m0 = Some m" "valid_template m"
    using that(2) by (simp add: val [OF that(1)] valid_template_def
        validate_and_resolve_iff(1) [OF lim [OF that(1)]])
  show "fst (edge_config_load (Some content) m0) = EDGE_STATUS_INVALID"
    if "parsed content m0 = Some m" "\<not> valid_template m"
    using that(2) validate_and_resolve_iff(2) [OF lim [OF that(1)]]
    by (auto simp: val [OF that(1)] valid_template_def case_prod_beta Let_def)
qed

lemma load_fits:
  assumes "model_fits m0"
  shows "model_fits (snd (edge_config_load src m0))"
proof (cases src)
  case None
  with assms show ?thesis by (simp add: edge_config_load_def)
next
  case (Some content)
  obtain r s where loop: "config_loop content (config_init m0) = (r, s)" by fastforce
  have "model_fits (cs_model s)"
    using config_loop_inv [OF config_init_inv [OF assms], of content] by (simp add: loop cs_inv_def)
  then show ?thesis
    using validate_and_resolve_fits [of "cs_model s"]
    by (simp add: edge_config_load_def Some loop Let_def case_prod_beta split: option.split)
qed

section \<open>What wiring computes\<close>

text \<open>
  \<open>wired\<close> gives the wired model in closed form: an asset's pointer to its parent, the index of the
  first node that belongs to it and the number of such nodes, and the pointers of nodes and events.
\<close>

definition owned_by :: "nat \<Rightarrow> EdgeNode \<Rightarrow> bool" where
  "owned_by j n = (n_asset_index n = of_nat j)"

definition wired_asset :: "EdgeNode list \<Rightarrow> nat \<Rightarrow> EdgeAsset \<Rightarrow> EdgeAsset" where
  "wired_asset ns j a =
     a\<lparr>a_first_node_index := index_of (first_index (owned_by j) 0 ns),
       a_node_count := of_nat (length (filter (owned_by j) ns)),
       a_parent := (if a_parent_index a \<noteq> edge_invalid_index
                    then Some (unat (a_parent_index a)) else None)\<rparr>"

definition wired_assets :: "EdgeNode list \<Rightarrow> EdgeAsset list \<Rightarrow> EdgeAsset list" where
  "wired_assets ns as = map (\<lambda>j. wired_asset ns j (as ! j)) [0..<length as]"

definition wired_node :: "EdgeNode \<Rightarrow> EdgeNode" where
  "wired_node n = n\<lparr>n_asset := Some (unat (n_asset_index n))\<rparr>"

definition wired_event :: "EdgeEvent \<Rightarrow> EdgeEvent" where
  "wired_event e = e\<lparr>e_asset := Some (unat (e_asset_index e)),
     e_source_node := Some (unat (e_source_node_index e))\<rparr>"

definition wired :: "EdgeModel \<Rightarrow> EdgeModel" where
  "wired m = m\<lparr>m_assets := wired_assets (m_nodes m) (m_assets m),
     m_nodes := map wired_node (m_nodes m), m_events := map wired_event (m_events m)\<rparr>"

text \<open>One more node only touches its own asset.\<close>

lemma wired_asset_snoc_other:
  "\<not> owned_by j n \<Longrightarrow> wired_asset (ns @ [n]) j a = wired_asset ns j a"
  by (simp add: wired_asset_def first_index_append split: option.split)

lemma wired_asset_snoc_own:
  assumes "owned_by j n" and "length ns \<le> 65536"
  shows "wired_asset (ns @ [n]) j a =
    (wired_asset ns j a)\<lparr>a_first_node_index :=
        (if a_first_node_index (wired_asset ns j a) = edge_invalid_index
         then of_nat (length ns) else a_first_node_index (wired_asset ns j a)),
      a_node_count := a_node_count (wired_asset ns j a) + 1\<rparr>"
proof (cases "first_index (owned_by j) 0 ns")
  case None
  with assms(1) show ?thesis
    by (simp add: wired_asset_def first_index_append index_of_def)
next
  case (Some k)
  from index_of_first(2) [OF assms(2) this] Some assms(1) show ?thesis
    by (simp add: wired_asset_def first_index_append)
qed

lemma wired_assets_snoc:
  assumes "length as \<le> EDGE_MAX_ASSETS" and "length ns \<le> 65536"
    and "unat (n_asset_index n) < length as"
  shows "wired_assets (ns @ [n]) as =
    (let k = unat (n_asset_index n); a = wired_assets ns as ! k in
     (wired_assets ns as)[k := a\<lparr>a_first_node_index :=
        (if a_first_node_index a = edge_invalid_index then of_nat (length ns) else a_first_node_index a),
        a_node_count := a_node_count a + 1\<rparr>])"
proof (rule nth_equalityI)
  fix j assume j: "j < length (wired_assets (ns @ [n]) as)"
  then have jl: "j < length as" by (simp add: wired_assets_def)
  have own: "owned_by j n \<longleftrightarrow> j = unat (n_asset_index n)"
  proof
    assume "owned_by j n"
    then show "j = unat (n_asset_index n)" using jl assms(1) by (simp add: owned_by_def edge_limits)
  next
    assume "j = unat (n_asset_index n)"
    then show "owned_by j n" by (simp add: owned_by_def)
  qed
  show "wired_assets (ns @ [n]) as ! j = (let k = unat (n_asset_index n); a = wired_assets ns as ! k in
     (wired_assets ns as)[k := a\<lparr>a_first_node_index :=
        (if a_first_node_index a = edge_invalid_index then of_nat (length ns) else a_first_node_index a),
        a_node_count := a_node_count a + 1\<rparr>]) ! j"
  proof (cases "owned_by j n")
    case True
    with own jl wired_asset_snoc_own [OF True assms(2), of "as ! j"] show ?thesis
      by (simp add: wired_assets_def Let_def)
  next
    case False
    with own jl wired_asset_snoc_other [OF False, of ns "as ! j"] show ?thesis
      by (simp add: wired_assets_def Let_def)
  qed
qed (simp add: wired_assets_def Let_def)

definition wirable :: "EdgeModel \<Rightarrow> bool" where
  "wirable m = (within_limits m \<and>
     (\<forall>n \<in> set (m_nodes m). n_asset_index n \<noteq> edge_invalid_index \<and>
        unat (n_asset_index n) < length (m_assets m)) \<and>
     (\<forall>e \<in> set (m_events m). e_asset_index e \<noteq> edge_invalid_index \<and>
        e_source_node_index e \<noteq> edge_invalid_index))"

lemma wire_assets_loop:
  "for_upto (length (m_assets m)) wire_asset m = (None, m\<lparr>m_assets := wired_assets [] (m_assets m)\<rparr>)"
proof -
  let ?f = "\<lambda>a. wired_asset [] 0 a" and ?as = "m_assets m"
  have step: "wire_asset i (m\<lparr>m_assets := map ?f (take i ?as) @ drop i ?as\<rparr>) =
      (if True then None else Some EDGE_STATUS_OK,
       m\<lparr>m_assets := map ?f (take (Suc i) ?as) @ drop (Suc i) ?as\<rparr>)" if "i < length ?as" for i
    unfolding rewritten_update(1) [OF that, symmetric]
    using rewritten_update(2) [OF that, of ?f]
    by (simp add: wire_asset_def upd_asset_def) (simp add: wired_asset_def index_of_def)
  have "wired_assets [] ?as = map ?f ?as"
    unfolding wired_assets_def by (rule nth_equalityI) (simp_all add: wired_asset_def)
  then show ?thesis
    using for_upto_map(1) [where S = "\<lambda>as. m\<lparr>m_assets := as\<rparr>" and ok = "\<lambda>_ _. True" and
        xs = ?as and f = ?f and body = wire_asset, OF step order_refl] by simp
qed

lemma wire_nodes_loop:
  assumes "wirable m" and "i \<le> length (m_nodes m)"
  shows "for_upto i wire_node (m\<lparr>m_assets := wired_assets [] (m_assets m)\<rparr>) =
    (None, m\<lparr>m_assets := wired_assets (take i (m_nodes m)) (m_assets m),
             m_nodes := map wired_node (take i (m_nodes m)) @ drop i (m_nodes m)\<rparr>)"
  using assms(2)
proof (induction i)
  case 0
  then show ?case by simp
next
  case (Suc i)
  let ?ns = "m_nodes m" and ?as = "m_assets m"
  let ?t = "m\<lparr>m_assets := wired_assets (take i ?ns) ?as,
             m_nodes := map wired_node (take i ?ns) @ drop i ?ns\<rparr>"
  have i: "i < length ?ns" using Suc.prems by simp
  then have mem: "?ns ! i \<in> set ?ns" by simp
  let ?k = "n_asset_index (?ns ! i)"
  have k: "?k \<noteq> edge_invalid_index" "unat ?k < length ?as"
    using assms(1) mem by (simp_all add: wirable_def)
  have at: "m_nodes ?t ! i = ?ns ! i" using i by (simp add: rewritten_update(2))
  have nodes: "upd_node i (\<lambda>n. n\<lparr>n_asset := Some (unat ?k)\<rparr>) ?t =
      ?t\<lparr>m_nodes := map wired_node (take (Suc i) ?ns) @ drop (Suc i) ?ns\<rparr>"
    unfolding rewritten_update(1) [OF i, symmetric]
    using rewritten_update(2) [OF i, of wired_node] by (simp add: upd_node_def wired_node_def)
  have "length ?as \<le> EDGE_MAX_ASSETS" "length (take i ?ns) \<le> 65536"
    using assms(1) by (auto simp: wirable_def within_limits_def edge_limits)
  note assets = wired_assets_snoc [OF this k(2), unfolded Let_def]
  have "wire_node i ?t = (None, m\<lparr>m_assets := wired_assets (take (Suc i) ?ns) ?as,
             m_nodes := map wired_node (take (Suc i) ?ns) @ drop (Suc i) ?ns\<rparr>)"
    unfolding wire_node_def Let_def at if_not_P [OF k(1)] nodes take_Suc_conv_app_nth [OF i] assets
    using i by (simp add: upd_asset_def)
  with Suc show ?case by (simp add: for_upto_Suc del: upt_Suc)
qed

lemma wire_events_loop:
  assumes "wirable m" and "m_events m' = m_events m"
  shows "for_upto (length (m_events m)) wire_event m' =
    (None, m'\<lparr>m_events := map wired_event (m_events m)\<rparr>)"
proof -
  let ?S = "\<lambda>es. m'\<lparr>m_events := es\<rparr>" and ?es = "m_events m"
  have step: "wire_event i (?S (map wired_event (take i ?es) @ drop i ?es)) =
      (if True then None else Some EDGE_STATUS_OK,
       ?S (map wired_event (take (Suc i) ?es) @ drop (Suc i) ?es))" if "i < length ?es" for i
  proof -
    have "?es ! i \<in> set ?es" using that by simp
    then have "e_asset_index (?es ! i) \<noteq> edge_invalid_index"
      "e_source_node_index (?es ! i) \<noteq> edge_invalid_index" using assms(1) by (simp_all add: wirable_def)
    then show ?thesis
      unfolding rewritten_update(1) [OF that, symmetric]
      using rewritten_update(2) [OF that, of wired_event]
      by (simp add: wire_event_def upd_event_def Let_def) (simp add: wired_event_def)
  qed
  have S: "?S ?es = m'" using assms(2) by simp
  show ?thesis
    using for_upto_map(1) [where S = ?S and ok = "\<lambda>_ _. True" and
        xs = ?es and f = wired_event and body = wire_event, OF step order_refl] unfolding S by simp
qed

lemma wire_runtime_wired:
  assumes "wirable m"
  shows "edge_config_wire_runtime m = (EDGE_STATUS_OK, wired m)"
proof -
  let ?m2 = "m\<lparr>m_assets := wired_assets (m_nodes m) (m_assets m), m_nodes := map wired_node (m_nodes m)\<rparr>"
  have ev: "for_upto (length (m_events m)) wire_event ?m2 =
      (None, ?m2\<lparr>m_events := map wired_event (m_events m)\<rparr>)"
    by (rule wire_events_loop [OF assms]) simp
  show ?thesis
    using wire_nodes_loop [OF assms order_refl] ev
    by (simp add: edge_config_wire_runtime_def wire_assets_loop wired_def)
qed

lemma refs_resolved_wirable: "within_limits m \<Longrightarrow> refs_resolved m \<Longrightarrow> wirable m"
  by (auto simp: wirable_def refs_resolved_def asset_at_def node_at_def)

section \<open>Decimal fields\<close>

lemma unat_u64_nat: "n \<le> ULONG_MAX \<Longrightarrow> unat (of_nat n :: u64) = n"
  by (simp add: ULONG_MAX_def)

lemma u64_nat_gt:
  assumes "n \<le> ULONG_MAX"
  shows "(of_nat n :: u64) > 65535 \<longleftrightarrow> n > 65535"
    and "(of_nat n :: u64) > 4294967295 \<longleftrightarrow> n > 4294967295"
  using unat_u64_nat [OF assms] by (simp_all add: word_less_nat_alt)

lemma ucast_of_nat_small:
  assumes "LENGTH('a) \<le> 64"
  shows "(ucast (of_nat n :: u64) :: 'a::len word) = of_nat n"
  by (rule bit_word_eqI) (use assms in \<open>auto simp: bit_simps\<close>)

text \<open>C37: \<open>parse_u16\<close> and \<open>parse_u32\<close> read the decimal text of every natural number: exactly the
  numbers that fit the field are stored, and any other number, however long its text, is rejected
  with the field left as it was.\<close>

theorem parse_unsigned_decimal:
  "parse_u16 (fmt_u n) v16 =
     (if n \<le> 65535 then (EDGE_STATUS_OK, of_nat n) else (EDGE_STATUS_INVALID, v16)) \<and>
   parse_u32 (fmt_u n) v32 =
     (if n \<le> 4294967295 then (EDGE_STATUS_OK, of_nat n) else (EDGE_STATUS_INVALID, v32))"
proof (cases "n \<le> ULONG_MAX")
  case True
  then show ?thesis
    using u64_nat_gt [OF True] fmt_u_nonempty [of n]
    by (simp add: parse_u16_def parse_u32_def strtoul_fmt_u ucast_of_nat_small not_less eq_commute [of "[]"])
next
  case False
  then show ?thesis by (simp add: parse_u16_def parse_u32_def strtoul_fmt_u) (simp add: ULONG_MAX_def)
qed

text \<open>C38: a minus sign is accepted by both unsigned fields: \<open>strtoul\<close> negates modulo \<open>2 ^ 64\<close>
  without an error, so that the text \<open>-n\<close> is stored as \<open>2 ^ 64 - n\<close> whenever that fits.\<close>

theorem parse_unsigned_negative:
  assumes "0 < n" and "n \<le> 65535"
  shows "parse_u16 (CHR ''-'' # fmt_u (2 ^ 64 - n)) v16 = (EDGE_STATUS_OK, of_nat n) \<and>
         parse_u32 (CHR ''-'' # fmt_u (2 ^ 64 - n)) v32 = (EDGE_STATUS_OK, of_nat n)"
proof -
  have le: "2 ^ 64 - n \<le> ULONG_MAX" using assms(1) by (simp add: ULONG_MAX_def)
  note minus = strtoul_minus_fmt_u [OF le]
  have "(of_nat (2 ^ 64 - n) :: u64) = of_nat (2 ^ 64) - of_nat n"
    using assms(2) by (intro of_nat_diff) simp
  moreover have "(of_nat (2 ^ 64) :: u64) = 0" by simp
  ultimately have neg: "- (of_nat (2 ^ 64 - n) :: u64) = of_nat n" by simp
  have n: "n \<le> ULONG_MAX" using assms(2) by (simp add: ULONG_MAX_def)
  show ?thesis
    unfolding parse_u16_def parse_u32_def minus neg Let_def prod.case
    using assms(2) u64_nat_gt [OF n] by (simp add: ucast_of_nat_small)
qed

theorem parse_unsigned_negative_witness:
  "parse_u16 (CHR ''-'' # fmt_u (2 ^ 64 - 1)) 7 = (EDGE_STATUS_OK, 1)"
  using parse_unsigned_negative [of 1 7 0] by simp

section \<open>Lines\<close>

text \<open>The content of a file of lines that all fit the buffer.\<close>

definition unlines :: "string list \<Rightarrow> string" where
  "unlines ls = concat (map (\<lambda>l. l @ [LF]) ls)"

definition line_ok :: "string \<Rightarrow> bool" where
  "line_ok l = (LF \<notin> set l \<and> NUL \<notin> set l \<and> length l < EDGE_MAX_LINE_LEN - 1)"

lemma unlines_Cons: "unlines (l # ls) = l @ LF # unlines ls"
  by (simp add: unlines_def)

lemma trim_newline_LF: "trim_newline (l @ [LF]) = trim_newline l"
  by (simp add: trim_newline_def)

lemma fgets_line:
  assumes "line_ok l"
  shows "fgets EDGE_MAX_LINE_LEN (l @ LF # rest) = Some (l @ [LF], rest, False)"
    and "cstr (l @ [LF]) = l @ [LF]"
  using assms read_upto_line [of l "EDGE_MAX_LINE_LEN - 1" rest]
  by (auto simp: fgets_def line_ok_def intro!: cstr_id)

lemma config_loop_lines:
  assumes "list_all line_ok ls"
  shows "config_loop (unlines ls @ rest) s =
    (case for_in (map trim_newline ls) config_line s of
       (Some status, s') \<Rightarrow> (Some status, s') | (None, s') \<Rightarrow> config_loop rest s')"
  using assms
proof (induction ls arbitrary: s)
  case Nil
  then show ?case by (simp add: unlines_def)
next
  case (Cons l ls)
  then have l: "line_ok l" by simp
  have "config_loop (unlines (l # ls) @ rest) s =
      (case config_line (trim_newline l) s of
         (Some status, s') \<Rightarrow> (Some status, s')
       | (None, s') \<Rightarrow> config_loop (unlines ls @ rest) s')"
    unfolding unlines_Cons append.simps append_assoc
    using config_loop_step [OF fgets_line(1) [OF l]] by (simp add: fgets_line(2) [OF l] trim_newline_LF)
  with Cons show ?case by (auto split: prod.splits option.splits)
qed

text \<open>C31: a template whose lines fit the line buffer is processed line by line: the load loop
  applies the line handler to each line in turn (without its trailing carriage returns), stops with
  the status of the first line that is rejected, and otherwise reaches the end of the file.\<close>

theorem config_loop_unlines:
  assumes "list_all line_ok ls"
  shows "config_loop (unlines ls) s = for_in (map trim_newline ls) config_line s"
  using config_loop_lines [OF assms, of "[]" s]
  by (simp add: config_loop_end fgets_def split: prod.splits option.splits)

theorem config_loop_unlines_witness:
  "config_loop (unlines [''[plant]'', ''id=p'' @ [CR], ''# note'', ''[asset'']) (config_init zero_model) =
   (Some EDGE_STATUS_INVALID, (config_init zero_model)
      \<lparr>cs_section := SECTION_PLANT, cs_model := zero_model\<lparr>m_id := ''p''\<rparr>\<rparr>)"
proof -
  have "list_all line_ok [''[plant]'', ''id=p'' @ [CR], ''# note'', ''[asset'']" by code_simp
  note config_loop_unlines [OF this, of "config_init zero_model"]
  moreover have "for_in (map trim_newline [''[plant]'', ''id=p'' @ [CR], ''# note'', ''[asset''])
      config_line (config_init zero_model) = (Some EDGE_STATUS_INVALID, (config_init zero_model)
      \<lparr>cs_section := SECTION_PLANT, cs_model := zero_model\<lparr>m_id := ''p''\<rparr>\<rparr>)" by code_simp
  ultimately show ?thesis by simp
qed

text \<open>C36: a line that does not fit the line buffer is never split into two lines: when the lines
  before it are accepted, loading stops there with the limit status and the model they built.\<close>

theorem config_load_overlong:
  assumes "list_all line_ok ls" and "for_in (map trim_newline ls) config_line (config_init m) = (None, s)"
    and "LF \<notin> set long" and "NUL \<notin> set long" and "EDGE_MAX_LINE_LEN - 1 \<le> length long"
  shows "edge_config_load (Some (unlines ls @ long @ rest)) m = (EDGE_STATUS_LIMIT, cs_model s)"
proof -
  have split: "long @ rest = take (EDGE_MAX_LINE_LEN - 1) long @ drop (EDGE_MAX_LINE_LEN - 1) long @ rest"
    by simp
  let ?buf = "take (EDGE_MAX_LINE_LEN - 1) long"
  have ru: "read_upto (length b) (b @ t) = (b, t, False)" if "LF \<notin> set b" for b t
    using that by (induction b) auto
  have len: "length ?buf = EDGE_MAX_LINE_LEN - 1" using assms(5) by simp
  have nolf: "LF \<notin> set ?buf" and nonul: "NUL \<notin> set ?buf" using assms(3,4) by (auto dest: in_set_takeD)
  have ne: "?buf \<noteq> []" using len by (auto simp: edge_limits)
  have F: "fgets EDGE_MAX_LINE_LEN (long @ rest) = Some (?buf, drop (EDGE_MAX_LINE_LEN - 1) long @ rest, False)"
    using ru [OF nolf] ne unfolding len by (subst split) (simp add: fgets_def)
  have "last ?buf \<noteq> LF" using nolf last_in_set [OF ne] by metis
  then have "config_loop (long @ rest) s = (Some EDGE_STATUS_LIMIT, s)"
    using len by (intro config_loop_overlong [OF F]) (simp add: cstr_id [OF nonul, unfolded One_nat_def])
  then show ?thesis
    using config_loop_lines [OF assms(1), of "long @ rest" "config_init m"] assms(2)
    by (simp add: edge_config_load_def)
qed

theorem config_load_overlong_witness:
  "edge_config_load (Some (unlines [''[plant]'', ''id=p''] @ replicate 600 (CHR ''x'') @ [LF])) zero_model =
   (EDGE_STATUS_LIMIT, zero_model\<lparr>m_id := ''p''\<rparr>)"
proof -
  let ?s = "(config_init zero_model)\<lparr>cs_section := SECTION_PLANT, cs_model := zero_model\<lparr>m_id := ''p''\<rparr>\<rparr>"
  have a: "list_all line_ok [''[plant]'', ''id=p'']" by code_simp
  have b: "for_in (map trim_newline [''[plant]'', ''id=p'']) config_line (config_init zero_model) =
      (None, ?s)" by code_simp
  have "LF \<notin> set (replicate 600 (CHR ''x''))" "NUL \<notin> set (replicate 600 (CHR ''x''))"
    by simp_all
  then show ?thesis
    using config_load_overlong [OF a b, of "replicate 600 (CHR ''x'')" "[LF]"] by (simp add: edge_limits)
qed

section \<open>Guarantees of a load\<close>

text \<open>C25: loading a template never overruns the model, whatever the bytes of the file: on every
  result, success or error, each text field fits its buffer with its terminator and no array exceeds
  its limit.\<close>

theorem edge_config_load_bounded:
  assumes "model_fits m0"
  shows "model_fits (snd (edge_config_load source m0))"
  by (rule load_fits [OF assms])

theorem edge_config_load_bounded_witness:
  "model_fits (snd (edge_config_load (Some ''[asset]'') zero_model))"
  by (rule edge_config_load_bounded [OF model_fits_zero])

lemma required_resolved: "required_fields (resolved m) = required_fields m"
  by (auto simp: required_fields_def resolved_def resolved_asset_def resolved_node_def resolved_event_def)

lemma unique_resolved: "unique_ids (resolved m) = unique_ids m"
  by (simp add: unique_ids_def resolved_def resolved_event_def comp_def)

lemma load_ok_parsed:
  assumes "model_fits m0" and "edge_config_load (Some content) m0 = (EDGE_STATUS_OK, m)"
  shows "\<exists>p. parsed content m0 = Some p \<and> valid_template p \<and> m = resolved p"
proof (cases "parsed content m0")
  case None
  then obtain st s where loop: "config_loop content (config_init m0) = (Some st, s)"
    by (auto simp: parsed_def split: prod.splits option.splits)
  have "st \<noteq> EDGE_STATUS_OK" using config_loop_not_ok [of content "config_init m0"] loop by auto
  with assms(2) show ?thesis using load_cases(2) [OF assms(1) loop] by simp
next
  case (Some p)
  then show ?thesis
    using load_cases(3,4) [OF assms(1) Some] assms(2) by (cases "valid_template p") auto
qed

text \<open>C4: edge_config_load decides exactly the documented rules of a template: it succeeds
  if and only if the lines parse, every required field is set, the identifiers are unique and every
  reference names something declared (a parent: something declared earlier); and the model it then
  delivers is the parsed one with each reference resolved to the index of what it names.\<close>

theorem edge_config_load_exact:
  assumes "model_fits m0"
  shows "edge_config_load (Some content) m0 = (EDGE_STATUS_OK, r) \<longleftrightarrow>
    (\<exists>m. parsed content m0 = Some m \<and> required_fields m \<and> unique_ids m \<and> resolvable m \<and>
         r = resolved m)"
proof
  assume "edge_config_load (Some content) m0 = (EDGE_STATUS_OK, r)"
  from load_ok_parsed [OF assms this] show "\<exists>m. parsed content m0 = Some m \<and> required_fields m \<and>
      unique_ids m \<and> resolvable m \<and> r = resolved m"
    by (auto simp: valid_template_def)
next
  assume "\<exists>m. parsed content m0 = Some m \<and> required_fields m \<and> unique_ids m \<and> resolvable m \<and>
      r = resolved m"
  then show "edge_config_load (Some content) m0 = (EDGE_STATUS_OK, r)"
    using load_cases(3) [OF assms] by (auto simp: valid_template_def)
qed

text \<open>A small template with one asset, one node and one event, and the model it parses to.\<close>

definition sample_lines :: "string list" where
  "sample_lines = [''# sample'', ''[plant]'', ''id=p'', ''name=Plant'',
     ''[asset]'', ''id=a'', ''type=area'', ''name=Area'', ''parent=p'',
     ''[asset]'', ''id=b'', ''type=pump'', ''name=Pump'', ''parent=a'',
     ''[node]'', ''asset=b'', ''id=t'', ''name=Temp'', ''data_type=double'', ''access=read_write'',
     ''source=modbus'', ''modbus_unit=1'', ''modbus_register=40001'', ''scale=0.5'',
     ''[event]'', ''asset=b'', ''id=hot'', ''source_node=t'', ''condition=greater_than'',
     ''threshold=80'', ''severity=500'']"

definition sample_asset :: "string \<Rightarrow> string \<Rightarrow> string \<Rightarrow> string \<Rightarrow> EdgeAsset" where
  "sample_asset key ty nm parent = zero_asset\<lparr>a_id := key, a_type := ty, a_name := nm,
     a_parent_id := parent, a_parent_index := edge_invalid_index\<rparr>"

definition sample_parsed :: EdgeModel where
  "sample_parsed = \<lparr>m_id = ''p'', m_name = ''Plant'',
     m_assets = [sample_asset ''a'' ''area'' ''Area'' ''p'', sample_asset ''b'' ''pump'' ''Pump'' ''a''],
     m_nodes = [zero_node\<lparr>n_id := ''t'', n_name := ''Temp'', n_asset_id := ''b'',
        n_asset_index := edge_invalid_index, n_data_type := Some EDGE_DATA_DOUBLE, n_writable := True,
        n_modbus_unit := 1, n_modbus_register := 40001, n_scale := f64_of_rat (1 / 2)\<rparr>],
     m_events = [zero_event\<lparr>e_id := ''hot'', e_asset_id := ''b'', e_source_node_id := ''t'',
        e_asset_index := edge_invalid_index, e_source_node_index := edge_invalid_index,
        e_condition := Some EDGE_EVENT_GREATER_THAN, e_threshold := f64_of_int 80, e_severity := 500\<rparr>]\<rparr>"

lemma sample_parses: "parsed (unlines sample_lines) zero_model = Some sample_parsed"
  by code_simp

lemma sample_valid: "required_fields sample_parsed" "unique_ids sample_parsed" "resolvable sample_parsed"
  by code_simp+

theorem edge_config_load_exact_witness:
  "edge_config_load (Some (unlines sample_lines)) zero_model = (EDGE_STATUS_OK, resolved sample_parsed)"
  using edge_config_load_exact [OF model_fits_zero] sample_parses sample_valid by blast

lemma load_sound_refs:
  assumes "model_fits m0" and "edge_config_load (Some content) m0 = (EDGE_STATUS_OK, m)"
  shows "refs_resolved m"
proof -
  from load_ok_parsed [OF assms] obtain p where p: "parsed content m0 = Some p"
    "valid_template p" "m = resolved p" by blast
  have "within_limits p" by (rule model_fits_limits [OF parsed_fits [OF assms(1) p(1)]])
  with p show ?thesis using resolved_refs [of p] by (simp add: valid_template_def)
qed

lemma wired_rest:
  assumes "model_fits m0" and "list_all at_rest (m_nodes m0)" and "edge_config_load (Some content) m0 = (EDGE_STATUS_OK, m)"
    and "edge_config_wire_runtime m = (EDGE_STATUS_OK, w)"
  shows "list_all at_rest (m_nodes w)" and "w = wired m"
proof -
  from load_ok_parsed [OF assms(1,3)] obtain p where p: "parsed content m0 = Some p" "m = resolved p" by blast
  have "list_all at_rest (m_nodes (cs_model (config_init m0)))" using assms(2) by (simp add: config_init_def)
  from config_loop_rest [OF this, of content] p(1) have "list_all at_rest (m_nodes p)"
    by (auto simp: parsed_def split: prod.splits option.splits)
  then have "list_all at_rest (m_nodes m)" by (simp add: p(2) resolved_def list.pred_set at_rest_def resolved_node_def)
  moreover have "within_limits m" using load_fits [OF assms(1), of "Some content"] assms(3) by (auto intro: model_fits_limits)
  from wire_runtime_wired [OF refs_resolved_wirable [OF this load_sound_refs [OF assms(1,3)]]] assms(4)
  show w: "w = wired m" by simp
  ultimately show "list_all at_rest (m_nodes w)" by (simp add: w wired_def list.pred_set at_rest_def wired_node_def)
qed

text \<open>C5: a model that loads is sound for every later component: it stays within the limits, every
  required field is set, identifiers are unique, each asset's parent index is invalid for a top-level
  asset and otherwise names its parent at a smaller index, and each node and event index is valid and
  points at the asset and node that its identifiers name.\<close>

theorem edge_config_load_sound:
  assumes "model_fits m0" and "edge_config_load (Some content) m0 = (EDGE_STATUS_OK, m)"
  shows "model_fits m \<and> required_fields m \<and> unique_ids m \<and> refs_resolved m"
proof -
  have "model_fits m" using load_fits [OF assms(1), of "Some content"] assms(2) by simp
  moreover from load_ok_parsed [OF assms] obtain p where "valid_template p" "m = resolved p" by blast
  ultimately show ?thesis
    using load_sound_refs [OF assms]
    by (simp add: required_resolved unique_resolved valid_template_def)
qed

theorem edge_config_load_sound_witness:
  "model_fits (resolved sample_parsed) \<and> required_fields (resolved sample_parsed) \<and>
   unique_ids (resolved sample_parsed) \<and> refs_resolved (resolved sample_parsed)"
proof (rule edge_config_load_sound [OF model_fits_zero])
  show "edge_config_load (Some (unlines sample_lines)) zero_model = (EDGE_STATUS_OK, resolved sample_parsed)"
    using load_cases(3) [OF model_fits_zero sample_parses] sample_valid by (simp add: valid_template_def)
qed

text \<open>In a resolved model with unique identifiers an asset owns exactly the nodes that name it.\<close>

lemma owned_by_names:
  assumes "refs_resolved m" and "unique_ids m" and "within_limits m"
    and "j < length (m_assets m)" and "n \<in> set (m_nodes m)"
  shows "owned_by j n \<longleftrightarrow> n_asset_id n = a_id (m_assets m ! j)"
proof -
  have at: "unat (n_asset_index n) < length (m_assets m)"
    "a_id (m_assets m ! unat (n_asset_index n)) = n_asset_id n"
    using assms(1,5) by (simp_all add: refs_resolved_def asset_at_def)
  have j: "unat (of_nat j :: u32) = j" using assms(3,4) by (simp add: within_limits_def edge_limits)
  have "distinct (map a_id (m_assets m))" using assms(2) by (simp add: unique_ids_def)
  then have "a_id (m_assets m ! unat (n_asset_index n)) = a_id (m_assets m ! j) \<longleftrightarrow>
      unat (n_asset_index n) = j"
    using at(1) assms(4) by (simp add: distinct_conv_nth) blast
  then show ?thesis unfolding owned_by_def at(2) [symmetric] using j by (metis word_unat_eq_iff)
qed

lemma wired_asset_exact:
  assumes "refs_resolved m" and "unique_ids m" and "within_limits m" and "j < length (m_assets m)"
  defines "names \<equiv> \<lambda>n. n_asset_id n = a_id (m_assets m ! j)" and "w \<equiv> wired m"
  shows "a_id (m_assets w ! j) = a_id (m_assets m ! j)"
    and "a_node_count (m_assets w ! j) = of_nat (length (filter names (m_nodes m)))"
    and "a_first_node_index (m_assets w ! j) = index_of (first_index names 0 (m_nodes m))"
    and "case a_parent (m_assets w ! j) of
          None \<Rightarrow> root_parent m (m_assets m ! j)
        | Some p \<Rightarrow> p < j \<and> a_id (m_assets w ! p) = a_parent_id (m_assets m ! j)"
proof -
  have wj: "m_assets w ! i = wired_asset (m_nodes m) i (m_assets m ! i)" if "i < length (m_assets m)" for i
    using that by (simp add: w_def wired_def wired_assets_def)
  note own = owned_by_names [OF assms(1-4)]
  have f: "filter (owned_by j) (m_nodes m) = filter names (m_nodes m)"
    by (rule filter_cong) (simp_all add: own names_def)
  have i: "first_index (owned_by j) 0 (m_nodes m) = first_index names 0 (m_nodes m)"
    by (rule first_index_cong) (simp add: own names_def)
  show "a_id (m_assets w ! j) = a_id (m_assets m ! j)"
    "a_node_count (m_assets w ! j) = of_nat (length (filter names (m_nodes m)))"
    "a_first_node_index (m_assets w ! j) = index_of (first_index names 0 (m_nodes m))"
    using assms(4) by (simp_all add: wj wired_asset_def f i)
  have ref: "if root_parent m (m_assets m ! j) then a_parent_index (m_assets m ! j) = edge_invalid_index
      else asset_at m (a_parent_index (m_assets m ! j)) (a_parent_id (m_assets m ! j)) \<and>
           unat (a_parent_index (m_assets m ! j)) < j"
    using assms(1,4) by (simp add: refs_resolved_def Let_def)
  show "case a_parent (m_assets w ! j) of
          None \<Rightarrow> root_parent m (m_assets m ! j)
        | Some p \<Rightarrow> p < j \<and> a_id (m_assets w ! p) = a_parent_id (m_assets m ! j)"
  proof (cases "root_parent m (m_assets m ! j)")
    case True
    with ref assms(4) show ?thesis by (simp add: wj wired_asset_def)
  next
    case False
    let ?p = "unat (a_parent_index (m_assets m ! j))"
    from False ref have p: "a_parent_index (m_assets m ! j) \<noteq> edge_invalid_index" "?p < j"
      "?p < length (m_assets m)" "a_id (m_assets m ! ?p) = a_parent_id (m_assets m ! j)"
      by (simp_all add: asset_at_def)
    have "a_id (m_assets w ! ?p) = a_parent_id (m_assets m ! j)"
      using p(3,4) by (simp add: wj [OF p(3)] wired_asset_def)
    moreover have "a_parent (m_assets w ! j) = Some ?p"
      using p(1) by (simp add: wj [OF assms(4)] wired_asset_def)
    ultimately show ?thesis using p(2) by simp
  qed
qed

lemma wired_refs_exact:
  assumes "refs_resolved m"
  defines "w \<equiv> wired m"
  shows "n \<in> set (m_nodes w) \<Longrightarrow> \<exists>k. n_asset n = Some k \<and> k < length (m_assets w) \<and>
       a_id (m_assets w ! k) = n_asset_id n"
    and "e \<in> set (m_events w) \<Longrightarrow> \<exists>k l. e_asset e = Some k \<and> e_source_node e = Some l \<and>
       k < length (m_assets w) \<and> l < length (m_nodes w) \<and> a_id (m_assets w ! k) = e_asset_id e \<and>
       n_asset_id (m_nodes w ! l) = e_asset_id e \<and> n_id (m_nodes w ! l) = e_source_node_id e"
proof -
  have as: "length (m_assets w) = length (m_assets m)"
    "\<And>k. k < length (m_assets m) \<Longrightarrow> a_id (m_assets w ! k) = a_id (m_assets m ! k)"
    by (simp_all add: w_def wired_def wired_assets_def wired_asset_def)
  show "\<exists>k. n_asset n = Some k \<and> k < length (m_assets w) \<and> a_id (m_assets w ! k) = n_asset_id n"
    if n: "n \<in> set (m_nodes w)"
  proof -
    from n obtain n' where n': "n' \<in> set (m_nodes m)" "n = wired_node n'"
      by (auto simp: w_def wired_def)
    then have "asset_at m (n_asset_index n') (n_asset_id n')" using assms(1) by (simp add: refs_resolved_def)
    with n'(2) as show ?thesis by (simp add: asset_at_def wired_node_def)
  qed
  show "\<exists>k l. e_asset e = Some k \<and> e_source_node e = Some l \<and>
       k < length (m_assets w) \<and> l < length (m_nodes w) \<and> a_id (m_assets w ! k) = e_asset_id e \<and>
       n_asset_id (m_nodes w ! l) = e_asset_id e \<and> n_id (m_nodes w ! l) = e_source_node_id e"
    if e: "e \<in> set (m_events w)"
  proof -
    from e obtain e' where e': "e' \<in> set (m_events m)" "e = wired_event e'"
      by (auto simp: w_def wired_def)
    then have "asset_at m (e_asset_index e') (e_asset_id e')"
      "node_at m (e_source_node_index e') (e_asset_id e') (e_source_node_id e')"
      using assms(1) by (simp_all add: refs_resolved_def)
    with e'(2) as show ?thesis
      by (simp add: asset_at_def node_at_def wired_event_def)
         (simp add: w_def wired_def wired_node_def)
  qed
qed

text \<open>C6: every model that loads can be wired, and wiring gives the hot paths exact data: the
  parent pointer of an asset is its resolved parent, the node count of an asset is the number of nodes
  that name it, its first node index is the index of the first of them (or the invalid index when
  there is none), and each node and event points at the asset and source node that it names.\<close>

theorem edge_config_wire_exact:
  assumes "model_fits m0" and "edge_config_load (Some content) m0 = (EDGE_STATUS_OK, m)"
  defines "names j \<equiv> \<lambda>n. n_asset_id n = a_id (m_assets m ! j)"
  shows "\<exists>w. edge_config_wire_runtime m = (EDGE_STATUS_OK, w) \<and>
    length (m_assets w) = length (m_assets m) \<and>
    (\<forall>j < length (m_assets w).
       a_id (m_assets w ! j) = a_id (m_assets m ! j) \<and>
       a_node_count (m_assets w ! j) = of_nat (length (filter (names j) (m_nodes m))) \<and>
       a_first_node_index (m_assets w ! j) =
         (case first_index (names j) 0 (m_nodes m) of None \<Rightarrow> edge_invalid_index | Some i \<Rightarrow> of_nat i) \<and>
       (case a_parent (m_assets w ! j) of
          None \<Rightarrow> root_parent m (m_assets m ! j)
        | Some p \<Rightarrow> p < j \<and> a_id (m_assets w ! p) = a_parent_id (m_assets m ! j))) \<and>
    (\<forall>n \<in> set (m_nodes w). \<exists>k. n_asset n = Some k \<and> k < length (m_assets w) \<and>
       a_id (m_assets w ! k) = n_asset_id n) \<and>
    (\<forall>e \<in> set (m_events w). \<exists>k l. e_asset e = Some k \<and> e_source_node e = Some l \<and>
       k < length (m_assets w) \<and> l < length (m_nodes w) \<and> a_id (m_assets w ! k) = e_asset_id e \<and>
       n_asset_id (m_nodes w ! l) = e_asset_id e \<and> n_id (m_nodes w ! l) = e_source_node_id e)"
proof (rule exI [of _ "wired m"], intro conjI allI impI ballI)
  from load_ok_parsed [OF assms(1,2)] obtain p where p: "parsed content m0 = Some p"
    "valid_template p" "m = resolved p" by blast
  have limp: "within_limits p" by (rule model_fits_limits [OF parsed_fits [OF assms(1) p(1)]])
  then have lim: "within_limits m" by (simp add: p(3) within_limits_def resolved_def)
  have ok: "refs_resolved m" "unique_ids m"
    using p(2,3) resolved_refs [OF limp] by (simp_all add: valid_template_def unique_resolved)
  show "edge_config_wire_runtime m = (EDGE_STATUS_OK, wired m)"
    by (rule wire_runtime_wired [OF refs_resolved_wirable [OF lim ok(1)]])
  show len: "length (m_assets (wired m)) = length (m_assets m)" by (simp add: wired_def wired_assets_def)
  fix j assume "j < length (m_assets (wired m))"
  then have j: "j < length (m_assets m)" by (simp add: len)
  note exact = wired_asset_exact [OF ok lim j, folded names_def]
  show "a_id (m_assets (wired m) ! j) = a_id (m_assets m ! j)"
    "a_node_count (m_assets (wired m) ! j) = of_nat (length (filter (names j) (m_nodes m)))"
    "a_first_node_index (m_assets (wired m) ! j) =
         (case first_index (names j) 0 (m_nodes m) of None \<Rightarrow> edge_invalid_index | Some i \<Rightarrow> of_nat i)"
    "case a_parent (m_assets (wired m) ! j) of
          None \<Rightarrow> root_parent m (m_assets m ! j)
        | Some p \<Rightarrow> p < j \<and> a_id (m_assets (wired m) ! p) = a_parent_id (m_assets m ! j)"
    using exact by (simp_all add: index_of_def)
next
  have ok: "refs_resolved m" using load_sound_refs [OF assms(1,2)] .
  fix n assume "n \<in> set (m_nodes (wired m))"
  then show "\<exists>k. n_asset n = Some k \<and> k < length (m_assets (wired m)) \<and>
       a_id (m_assets (wired m) ! k) = n_asset_id n" by (rule wired_refs_exact(1) [OF ok])
next
  have ok: "refs_resolved m" using load_sound_refs [OF assms(1,2)] .
  fix e assume "e \<in> set (m_events (wired m))"
  then show "\<exists>k l. e_asset e = Some k \<and> e_source_node e = Some l \<and>
       k < length (m_assets (wired m)) \<and> l < length (m_nodes (wired m)) \<and>
       a_id (m_assets (wired m) ! k) = e_asset_id e \<and>
       n_asset_id (m_nodes (wired m) ! l) = e_asset_id e \<and>
       n_id (m_nodes (wired m) ! l) = e_source_node_id e" by (rule wired_refs_exact(2) [OF ok])
qed

theorem edge_config_wire_exact_witness:
  "\<exists>w. edge_config_wire_runtime (resolved sample_parsed) = (EDGE_STATUS_OK, w) \<and>
     map a_node_count (m_assets w) = [0, 1] \<and> map n_asset (m_nodes w) = [Some 1]"
proof -
  have "edge_config_load (Some (unlines sample_lines)) zero_model = (EDGE_STATUS_OK, resolved sample_parsed)"
    using load_cases(3) [OF model_fits_zero sample_parses] sample_valid by (simp add: valid_template_def)
  from edge_config_wire_exact [OF model_fits_zero this] obtain w
    where w: "edge_config_wire_runtime (resolved sample_parsed) = (EDGE_STATUS_OK, w)" by blast
  have "map a_node_count (m_assets (snd (edge_config_wire_runtime (resolved sample_parsed)))) = [0, 1]"
    "map n_asset (m_nodes (snd (edge_config_wire_runtime (resolved sample_parsed)))) = [Some 1]"
    by code_simp+
  with w show ?thesis by simp
qed

text \<open>C34: parent references always form a forest: once every parent has been found at a smaller
  index, following parents from any asset reaches a top-level asset, so the cycle check that follows
  accepts every model that reaches it, unchanged, and its error branch is dead code.\<close>

theorem parent_cycle_check_dead:
  assumes "within_limits m" and "for_upto (length (m_assets m)) resolve_parent m = (None, m1)"
  shows "for_upto (length (m_assets m)) check_cycle m1 = (None, m1)"
proof -
  have "parents_declared m"
    using resolve_parents(2) [OF assms(1)] assms(2) by fastforce
  note par = this
  from resolve_parents(1) [OF assms(1) par] assms(2)
  have m1: "m1 = m\<lparr>m_assets := map (resolved_asset m) (m_assets m)\<rparr>" by simp
  have "within_limits m1" using assms(1) by (simp add: m1 within_limits_def)
  then show ?thesis
    using resolved_parents_below [OF par assms(1)] by (intro check_cycle_passes) (simp_all add: m1)
qed

theorem parent_cycle_check_dead_witness:
  "for_upto 2 check_cycle (snd (for_upto 2 resolve_parent sample_parsed)) =
     (None, snd (for_upto 2 resolve_parent sample_parsed))"
proof -
  have n: "length (m_assets sample_parsed) = 2" by (simp add: sample_parsed_def)
  have "fst (for_upto 2 resolve_parent sample_parsed) = None" by code_simp
  then have "for_upto (length (m_assets sample_parsed)) resolve_parent sample_parsed =
      (None, snd (for_upto 2 resolve_parent sample_parsed))" unfolding n by (metis prod.collapse)
  moreover have "within_limits sample_parsed" by code_simp
  ultimately show ?thesis using parent_cycle_check_dead [of sample_parsed] by (simp only: n)
qed

end
