(* ===== verification/Edge_Address_Space.thy ===== *)
theory Edge_Address_Space
  imports Edge_Server Edge_Config_Load Edge_Store_Values
begin

text \<open>
  The OPC UA address space of \<open>src/edge_address_space.c\<close>: the node identifiers, the value callbacks
  of the variables, and the creation of the plant object, the asset objects and the variables.

  The model that \<open>server->model\<close> points to is passed along.  \<open>node->asset->id\<close> is read through the
  index in \<open>n_asset\<close>; in a wired model every node has one.  A callback gets its node as an option,
  \<open>None\<close> for a null context, and a write gets its \<open>UA_DataValue *\<close> as an option.  A \<open>UA_Boolean\<close> is a
  C \<open>bool\<close>, whose byte is 0 or 1.
\<close>

section \<open>Identifiers and types\<close>

definition EDGE_NODEID_LEN :: nat where "EDGE_NODEID_LEN = 160"

definition print_nodeid :: "string \<Rightarrow> nat \<Rightarrow> EdgeStatus \<times> string" where
  "print_nodeid text dst_size =
     (let (written, dst) = snprintf dst_size text
      in if written \<ge> dst_size then (EDGE_STATUS_LIMIT, dst) else (EDGE_STATUS_OK, dst))"

definition make_plant_nodeid :: "EdgeModel \<Rightarrow> nat \<Rightarrow> EdgeStatus \<times> string" where
  "make_plant_nodeid model dst_size = print_nodeid (''plant:'' @ m_id model) dst_size"

definition make_asset_nodeid :: "EdgeAsset \<Rightarrow> nat \<Rightarrow> EdgeStatus \<times> string" where
  "make_asset_nodeid asset dst_size = print_nodeid (''asset:'' @ a_id asset) dst_size"

definition node_asset :: "EdgeModel \<Rightarrow> EdgeNode \<Rightarrow> EdgeAsset" where
  "node_asset model node = m_assets model ! the (n_asset node)"

definition make_variable_nodeid :: "EdgeModel \<Rightarrow> EdgeNode \<Rightarrow> nat \<Rightarrow> EdgeStatus \<times> string" where
  "make_variable_nodeid model node dst_size =
     print_nodeid (''node:'' @ a_id (node_asset model node) @ ''.'' @ n_id node) dst_size"

definition ua_type_for_node :: "EdgeNode \<Rightarrow> ua_data_type" where
  "ua_type_for_node node =
     (if n_data_type node = Some EDGE_DATA_BOOL then UA_BOOLEAN
      else if n_data_type node = Some EDGE_DATA_INT16 then UA_INT16
      else if n_data_type node = Some EDGE_DATA_INT32 then UA_INT32
      else if n_data_type node = Some EDGE_DATA_UINT32 then UA_UINT32
      else UA_DOUBLE)"

definition set_variant_from_edge_value :: "EdgeNode \<Rightarrow> ua_variant" where
  "set_variant_from_edge_value node =
     (if n_data_type node = Some EDGE_DATA_BOOL then UaBoolean ((union_get (n_value node) :: u8) \<noteq> 0)
      else if n_data_type node = Some EDGE_DATA_INT16 then UaInt16 (union_get (n_value node))
      else if n_data_type node = Some EDGE_DATA_INT32 then UaInt32 (union_get (n_value node))
      else if n_data_type node = Some EDGE_DATA_UINT32 then UaUInt32 (union_get (n_value node))
      else UaDouble (union_get (n_value node)))"

section \<open>The value callbacks\<close>

definition UA_STATUSCODE_BADINTERNALERROR :: u32 where "UA_STATUSCODE_BADINTERNALERROR = 0x80020000"
definition UA_STATUSCODE_BADNOTWRITABLE :: u32 where "UA_STATUSCODE_BADNOTWRITABLE = 0x803B0000"
definition UA_STATUSCODE_BADTYPEMISMATCH :: u32 where "UA_STATUSCODE_BADTYPEMISMATCH = 0x80740000"

lemmas ua_codes = UA_STATUSCODE_GOOD_def UA_STATUSCODE_BADINTERNALERROR_def
  UA_STATUSCODE_BADNOTWRITABLE_def UA_STATUSCODE_BADTYPEMISMATCH_def

record ua_data_value =
  ud_hasValue :: bool
  ud_value :: ua_variant

definition read_edge_node :: "EdgeNode option \<Rightarrow> ua_data_value \<Rightarrow> u32 \<times> ua_data_value" where
  "read_edge_node node_context data =
     (case node_context of
        None \<Rightarrow> (UA_STATUSCODE_BADINTERNALERROR, data)
      | Some node \<Rightarrow> (UA_STATUSCODE_GOOD, data\<lparr>ud_value := set_variant_from_edge_value node, ud_hasValue := True\<rparr>))"

definition write_edge_node :: "EdgeNode option \<Rightarrow> ua_data_value option \<Rightarrow> u32 \<times> EdgeNode option" where
  "write_edge_node node_context data =
     (case (node_context, data) of
        (Some node, Some dv) \<Rightarrow>
          if \<not> n_writable node \<or> \<not> ud_hasValue dv then (UA_STATUSCODE_BADNOTWRITABLE, Some node)
          else (case (n_data_type node, ud_value dv) of
                  (Some EDGE_DATA_BOOL, UaBoolean x) \<Rightarrow>
                    (UA_STATUSCODE_GOOD, Some (node\<lparr>n_value := union_put (if x then 1 else 0 :: u8) (n_value node),
                       n_pending_write := True\<rparr>))
                | (Some EDGE_DATA_INT16, UaInt16 x) \<Rightarrow>
                    (UA_STATUSCODE_GOOD, Some (node\<lparr>n_value := union_put x (n_value node), n_pending_write := True\<rparr>))
                | (Some EDGE_DATA_INT32, UaInt32 x) \<Rightarrow>
                    (UA_STATUSCODE_GOOD, Some (node\<lparr>n_value := union_put x (n_value node), n_pending_write := True\<rparr>))
                | (Some EDGE_DATA_UINT32, UaUInt32 x) \<Rightarrow>
                    (UA_STATUSCODE_GOOD, Some (node\<lparr>n_value := union_put x (n_value node), n_pending_write := True\<rparr>))
                | (Some EDGE_DATA_DOUBLE, UaDouble x) \<Rightarrow>
                    (UA_STATUSCODE_GOOD, Some (node\<lparr>n_value := union_put x (n_value node), n_pending_write := True\<rparr>))
                | _ \<Rightarrow> (UA_STATUSCODE_BADTYPEMISMATCH, Some node))
      | _ \<Rightarrow> (UA_STATUSCODE_BADNOTWRITABLE, node_context))"

section \<open>Building the address space\<close>

definition UA_NS0ID_OBJECTSFOLDER :: nat where "UA_NS0ID_OBJECTSFOLDER = 85"
definition UA_NS0ID_ORGANIZES :: nat where "UA_NS0ID_ORGANIZES = 35"
definition UA_NS0ID_HASCOMPONENT :: nat where "UA_NS0ID_HASCOMPONENT = 47"
definition UA_NS0ID_BASEOBJECTTYPE :: nat where "UA_NS0ID_BASEOBJECTTYPE = 58"
definition UA_NS0ID_BASEDATAVARIABLETYPE :: nat where "UA_NS0ID_BASEDATAVARIABLETYPE = 63"
definition UA_EVENTNOTIFIER_SUBSCRIBE_TO_EVENT :: u8 where "UA_EVENTNOTIFIER_SUBSCRIBE_TO_EVENT = 1"
definition UA_ACCESSLEVELMASK_READ :: u8 where "UA_ACCESSLEVELMASK_READ = 1"
definition UA_ACCESSLEVELMASK_WRITE :: u8 where "UA_ACCESSLEVELMASK_WRITE = 2"

definition add_plant_object ::
    "('v, 'u) ua_api \<Rightarrow> 'v EdgeServer \<Rightarrow> EdgeModel \<Rightarrow> u16 \<Rightarrow> 'u \<Rightarrow> EdgeStatus \<times> 'u" where
  "add_plant_object api server model ns u =
     (let (st, plant_id) = make_plant_nodeid model EDGE_NODEID_LEN in
      if st \<noteq> EDGE_STATUS_OK then (EDGE_STATUS_LIMIT, u)
      else let attr = \<lparr>oa_display_name = (''en-US'', m_name model),
                       oa_event_notifier = UA_EVENTNOTIFIER_SUBSCRIBE_TO_EVENT\<rparr>;
               (status, u') = UA_Server_addObjectNode api (sv_ua server) (UaString ns plant_id)
                 (UaNumeric UA_NS0ID_OBJECTSFOLDER) UA_NS0ID_ORGANIZES (ns, m_id model)
                 UA_NS0ID_BASEOBJECTTYPE attr u
           in (if status = UA_STATUSCODE_GOOD then EDGE_STATUS_OK else EDGE_STATUS_ERROR, u'))"

definition add_asset_object ::
    "('v, 'u) ua_api \<Rightarrow> 'v EdgeServer \<Rightarrow> EdgeModel \<Rightarrow> u16 \<Rightarrow> EdgeAsset \<Rightarrow> 'u \<Rightarrow> EdgeStatus \<times> 'u" where
  "add_asset_object api server model ns asset u =
     (let (st, asset_id) = make_asset_nodeid asset EDGE_NODEID_LEN in
      if st \<noteq> EDGE_STATUS_OK then (EDGE_STATUS_LIMIT, u)
      else let (st, parent_id) = (case a_parent asset of
                  Some p \<Rightarrow> make_asset_nodeid (m_assets model ! p) EDGE_NODEID_LEN
                | None \<Rightarrow> make_plant_nodeid model EDGE_NODEID_LEN)
           in if st \<noteq> EDGE_STATUS_OK then (EDGE_STATUS_LIMIT, u)
              else let attr = \<lparr>oa_display_name = (''en-US'', a_name asset),
                               oa_event_notifier = UA_EVENTNOTIFIER_SUBSCRIBE_TO_EVENT\<rparr>;
                       (status, u') = UA_Server_addObjectNode api (sv_ua server) (UaString ns asset_id)
                         (UaString ns parent_id) UA_NS0ID_ORGANIZES (ns, a_id asset)
                         UA_NS0ID_BASEOBJECTTYPE attr u
                   in (if status = UA_STATUSCODE_GOOD then EDGE_STATUS_OK else EDGE_STATUS_ERROR, u'))"

text \<open>The variable of node \<open>k\<close>; its value source has that node as context.\<close>

definition add_variable_node ::
    "('v, 'u) ua_api \<Rightarrow> 'v EdgeServer \<Rightarrow> EdgeModel \<Rightarrow> u16 \<Rightarrow> nat \<Rightarrow> 'u \<Rightarrow> EdgeStatus \<times> 'u" where
  "add_variable_node api server model ns k u =
     (let node = m_nodes model ! k;
          (st, node_id) = make_variable_nodeid model node EDGE_NODEID_LEN;
          (st', parent_id) = make_asset_nodeid (node_asset model node) EDGE_NODEID_LEN in
      if st \<noteq> EDGE_STATUS_OK \<or> st' \<noteq> EDGE_STATUS_OK then (EDGE_STATUS_LIMIT, u)
      else let level = UA_ACCESSLEVELMASK_READ;
               level = (if n_writable node then level OR UA_ACCESSLEVELMASK_WRITE else level);
               attr = \<lparr>va_display_name = (''en-US'', n_name node), va_data_type = ua_type_for_node node,
                       va_access_level = level, va_value = set_variant_from_edge_value node\<rparr>;
               (status, u') = UA_Server_addCallbackValueSourceVariableNode api (sv_ua server)
                 (UaString ns node_id) (UaString ns parent_id) UA_NS0ID_HASCOMPONENT (ns, n_id node)
                 UA_NS0ID_BASEDATAVARIABLETYPE attr (k, n_writable node) u
           in (if status = UA_STATUSCODE_GOOD then EDGE_STATUS_OK else EDGE_STATUS_ERROR, u'))"

definition or_error :: "EdgeStatus \<times> 'u \<Rightarrow> EdgeStatus option \<times> 'u" where
  "or_error r = (if fst r \<noteq> EDGE_STATUS_OK then Some EDGE_STATUS_ERROR else None, snd r)"

definition edge_address_space_load ::
    "('v, 'u) ua_api \<Rightarrow> 'v EdgeServer \<Rightarrow> EdgeModel \<Rightarrow> 'u \<Rightarrow> EdgeStatus \<times> 'u" where
  "edge_address_space_load api server model u =
     (let (ns, u1) = UA_Server_addNamespace api (sv_ua server) edge_namespace u;
          (r, u') = and_then (or_error (add_plant_object api server model ns u1)) (\<lambda>u2.
            and_then (for_upto (length (m_assets model))
              (\<lambda>i u. or_error (add_asset_object api server model ns (m_assets model ! i) u)) u2) (\<lambda>u3.
            for_upto (length (m_nodes model)) (\<lambda>i u. or_error (add_variable_node api server model ns i u)) u3))
      in (case r of Some st \<Rightarrow> st | None \<Rightarrow> EDGE_STATUS_OK, u'))"

section \<open>Entries that build on each other\<close>

text \<open>
  \<open>insertable\<close> is the documented condition for adding a node: its identifier is new and its parent
  exists.  \<open>buildable\<close> says that a list of entries can be added one after the other.
\<close>

definition insertable :: "ua_space \<Rightarrow> ua_nodeid \<times> ua_entry \<Rightarrow> bool" where
  "insertable S x = (fst x \<notin> dom S \<and> entry_parent (snd x) \<in> dom S)"

definition put_entry :: "ua_space \<Rightarrow> ua_nodeid \<times> ua_entry \<Rightarrow> ua_space" where
  "put_entry S x = S(fst x \<mapsto> snd x)"

fun buildable :: "ua_space \<Rightarrow> (ua_nodeid \<times> ua_entry) list \<Rightarrow> bool" where
  "buildable S [] = True"
| "buildable S (x # xs) = (insertable S x \<and> buildable (put_entry S x) xs)"

lemma buildable_append [simp]:
  "buildable S (xs @ ys) = (buildable S xs \<and> buildable (foldl put_entry S xs) ys)"
  by (induction xs arbitrary: S) simp_all

lemma dom_put_entries: "dom (foldl put_entry S xs) = dom S \<union> fst ` set xs"
  by (induction xs arbitrary: S) (auto simp: put_entry_def)

lemma put_entries_map_of:
  assumes "distinct (map fst xs)"
  shows "foldl put_entry S xs = S ++ map_of xs"
  using assms
proof (induction xs arbitrary: S)
  case (Cons x xs)
  then have "fst x \<notin> dom (map_of xs)" by (simp add: dom_map_of_conv_image_fst)
  then have "put_entry S x ++ map_of xs = (S ++ map_of xs)(fst x \<mapsto> snd x)"
    by (simp add: put_entry_def map_add_upd_left)
  with Cons show ?case by (cases x) (auto simp: map_add_def split: option.split)
qed simp

lemma buildable_iff:
  "buildable S xs \<longleftrightarrow> distinct (map fst xs) \<and> fst ` set xs \<inter> dom S = {} \<and>
     (\<forall>i < length xs. entry_parent (snd (xs ! i)) \<in> dom S \<union> fst ` set (take i xs))"
proof (induction xs rule: rev_induct)
  case (snoc x xs)
  have b: "buildable S (xs @ [x]) \<longleftrightarrow> buildable S xs \<and> fst x \<notin> dom S \<union> fst ` set xs \<and>
      entry_parent (snd x) \<in> dom S \<union> fst ` set xs"
    by (simp add: insertable_def dom_put_entries)
  have p: "(\<forall>i < length (xs @ [x]). entry_parent (snd ((xs @ [x]) ! i)) \<in> dom S \<union> fst ` set (take i (xs @ [x]))) \<longleftrightarrow>
      (\<forall>i < length xs. entry_parent (snd (xs ! i)) \<in> dom S \<union> fst ` set (take i xs)) \<and>
      entry_parent (snd x) \<in> dom S \<union> fst ` set xs"
    by (auto simp: less_Suc_eq nth_append)
  have d: "distinct (map fst (xs @ [x])) \<longleftrightarrow> distinct (map fst xs) \<and> fst x \<notin> fst ` set xs"
    "fst ` set (xs @ [x]) \<inter> dom S = {} \<longleftrightarrow> fst ` set xs \<inter> dom S = {} \<and> fst x \<notin> dom S" by auto
  show ?case unfolding b p d snoc.IH by blast
qed simp

text \<open>A loop that adds one entry per iteration.\<close>

lemma build_loop:
  assumes step: "\<And>i u. i < n \<Longrightarrow> \<exists>u'. body i u = (if insertable (space u) (f i) then None else Some e, u') \<and>
      (insertable (space u) (f i) \<longrightarrow> space u' = put_entry (space u) (f i))"
  shows "\<exists>u'. for_upto n body u = (if buildable (space u) (map f [0..<n]) then None else Some e, u') \<and>
      (buildable (space u) (map f [0..<n]) \<longrightarrow> space u' = foldl put_entry (space u) (map f [0..<n]))"
  using step
proof (induction n)
  case (Suc n)
  then obtain u1 where u1: "for_upto n body u = (if buildable (space u) (map f [0..<n]) then None else Some e, u1)"
    "buildable (space u) (map f [0..<n]) \<longrightarrow> space u1 = foldl put_entry (space u) (map f [0..<n])"
    by (metis less_Suc_eq)
  show ?case
  proof (cases "buildable (space u) (map f [0..<n])")
    case True
    from Suc.prems [of n u1] obtain u2 where
      "body n u1 = (if insertable (space u1) (f n) then None else Some e, u2)"
      "insertable (space u1) (f n) \<longrightarrow> space u2 = put_entry (space u1) (f n)" by auto
    with True u1 show ?thesis by (simp add: for_upto_Suc del: upt_Suc) (simp add: put_entry_def)
  next
    case False
    with u1 show ?thesis by (simp add: for_upto_Suc del: upt_Suc) simp
  qed
qed simp

section \<open>The entries of a model\<close>

definition object_attr :: "string \<Rightarrow> ua_object_attr" where
  "object_attr nm = \<lparr>oa_display_name = (''en-US'', nm), oa_event_notifier = 1\<rparr>"

definition plant_key :: "u16 \<Rightarrow> EdgeModel \<Rightarrow> ua_nodeid" where
  "plant_key ns m = UaString ns (''plant:'' @ m_id m)"

definition asset_key :: "u16 \<Rightarrow> string \<Rightarrow> ua_nodeid" where
  "asset_key ns aid = UaString ns (''asset:'' @ aid)"

definition plant_entry :: "u16 \<Rightarrow> EdgeModel \<Rightarrow> ua_nodeid \<times> ua_entry" where
  "plant_entry ns m = (plant_key ns m, UaObjectEntry (UaNumeric 85) (ns, m_id m) (object_attr (m_name m)))"

definition asset_entry :: "u16 \<Rightarrow> EdgeModel \<Rightarrow> EdgeAsset \<Rightarrow> ua_nodeid \<times> ua_entry" where
  "asset_entry ns m a = (asset_key ns (a_id a),
     UaObjectEntry (case a_parent a of None \<Rightarrow> plant_key ns m | Some p \<Rightarrow> asset_key ns (a_id (m_assets m ! p)))
       (ns, a_id a) (object_attr (a_name a)))"

definition variable_entry :: "u16 \<Rightarrow> EdgeModel \<Rightarrow> nat \<Rightarrow> ua_nodeid \<times> ua_entry" where
  "variable_entry ns m k = (let n = m_nodes m ! k; aid = a_id (node_asset m n) in
     (UaString ns (''node:'' @ aid @ ''.'' @ n_id n),
      UaVariableEntry (asset_key ns aid) (ns, n_id n)
        \<lparr>va_display_name = (''en-US'', n_name n), va_data_type = ua_type_for_node n,
          va_access_level = (if n_writable n then 3 else 1), va_value = set_variant_from_edge_value n\<rparr>
        (k, n_writable n)))"

definition space_entries :: "u16 \<Rightarrow> EdgeModel \<Rightarrow> (ua_nodeid \<times> ua_entry) list" where
  "space_entries ns m = plant_entry ns m # map (asset_entry ns m) (m_assets m) @
     map (variable_entry ns m) [0..<length (m_nodes m)]"

text \<open>The documented behaviour of the calls that add nodes, on the address space \<open>space u\<close>.\<close>

definition ua_space_laws :: "('v, 'u) ua_api \<Rightarrow> 'v \<Rightarrow> u16 \<Rightarrow> ('u \<Rightarrow> ua_space) \<Rightarrow> bool" where
  "ua_space_laws api v ns space =
     ((\<forall>u. \<exists>u'. UA_Server_addNamespace api (Some v) edge_namespace u = (ns, u') \<and> space u' = space u) \<and>
      (\<forall>u i p q a. \<exists>st u'. UA_Server_addObjectNode api (Some v) i p UA_NS0ID_ORGANIZES q UA_NS0ID_BASEOBJECTTYPE a u = (st, u') \<and>
         (st = UA_STATUSCODE_GOOD \<longleftrightarrow> insertable (space u) (i, UaObjectEntry p q a)) \<and>
         space u' = (if st = UA_STATUSCODE_GOOD then put_entry (space u) (i, UaObjectEntry p q a) else space u)) \<and>
      (\<forall>u i p q a s. \<exists>st u'. UA_Server_addCallbackValueSourceVariableNode api (Some v) i p UA_NS0ID_HASCOMPONENT q
             UA_NS0ID_BASEDATAVARIABLETYPE a s u = (st, u') \<and>
         (st = UA_STATUSCODE_GOOD \<longleftrightarrow> insertable (space u) (i, UaVariableEntry p q a s) \<and>
            variant_has_type (va_value a) (va_data_type a)) \<and>
         space u' = (if st = UA_STATUSCODE_GOOD then put_entry (space u) (i, UaVariableEntry p q a s) else space u)))"

lemma mem_ua_space_laws: "ua_space_laws mem_ua () 2 ms_space"
  by (auto simp: ua_space_laws_def mem_ua_def mem_insert_def insertable_def put_entry_def UA_STATUSCODE_GOOD_def
      domIff split: if_splits)

text \<open>Identifiers that fit their fields fit the buffer of a node identifier.\<close>

definition nodeids_fit :: "EdgeModel \<Rightarrow> bool" where
  "nodeids_fit m = (fits EDGE_MAX_ID_LEN (m_id m) \<and> (\<forall>a \<in> set (m_assets m). fits EDGE_MAX_ID_LEN (a_id a)) \<and>
     (\<forall>n \<in> set (m_nodes m). fits EDGE_MAX_ID_LEN (n_id n)))"

definition pointers_ok :: "EdgeModel \<Rightarrow> bool" where
  "pointers_ok m = ((\<forall>j < length (m_assets m). case a_parent (m_assets m ! j) of None \<Rightarrow> True | Some p \<Rightarrow> p < j) \<and>
     (\<forall>n \<in> set (m_nodes m). \<exists>k < length (m_assets m). n_asset n = Some k))"

lemma print_nodeid_fits: "length text < 160 \<Longrightarrow> print_nodeid text EDGE_NODEID_LEN = (EDGE_STATUS_OK, text)"
  by (simp add: print_nodeid_def snprintf_def EDGE_NODEID_LEN_def)

lemma variable_type: "variant_has_type (set_variant_from_edge_value n) (ua_type_for_node n)"
  by (simp add: set_variant_from_edge_value_def ua_type_for_node_def)

section \<open>Loading\<close>

lemma add_plant_entry:
  assumes "ua_space_laws api v ns space" and "sv_ua server = Some v" and "nodeids_fit m"
  shows "\<exists>u'. or_error (add_plant_object api server m ns u) =
      (if insertable (space u) (plant_entry ns m) then None else Some EDGE_STATUS_ERROR, u') \<and>
    (insertable (space u) (plant_entry ns m) \<longrightarrow> space u' = put_entry (space u) (plant_entry ns m))"
proof -
  have "length (''plant:'' @ m_id m) < 160" using assms(3) by (simp add: nodeids_fit_def fits_def edge_limits)
  note pid = print_nodeid_fits [OF this]
  obtain st u' where st: "UA_Server_addObjectNode api (Some v) (plant_key ns m) (UaNumeric 85) UA_NS0ID_ORGANIZES
      (ns, m_id m) UA_NS0ID_BASEOBJECTTYPE (object_attr (m_name m)) u = (st, u')"
    "st = UA_STATUSCODE_GOOD \<longleftrightarrow> insertable (space u) (plant_entry ns m)"
    "space u' = (if st = UA_STATUSCODE_GOOD then put_entry (space u) (plant_entry ns m) else space u)"
    using assms(1) unfolding ua_space_laws_def plant_entry_def by blast
  then show ?thesis
    unfolding add_plant_object_def make_plant_nodeid_def pid Let_def prod.case
    by (simp add: assms(2) or_error_def plant_key_def object_attr_def
        UA_NS0ID_OBJECTSFOLDER_def UA_EVENTNOTIFIER_SUBSCRIBE_TO_EVENT_def)
qed

lemma add_asset_entry:
  assumes "ua_space_laws api v ns space" and "sv_ua server = Some v" and "nodeids_fit m" and "pointers_ok m"
    and "j < length (m_assets m)"
  defines "x \<equiv> asset_entry ns m (m_assets m ! j)"
  shows "\<exists>u'. or_error (add_asset_object api server m ns (m_assets m ! j) u) =
      (if insertable (space u) x then None else Some EDGE_STATUS_ERROR, u') \<and>
    (insertable (space u) x \<longrightarrow> space u' = put_entry (space u) x)"
proof -
  let ?a = "m_assets m ! j"
  let ?p = "case a_parent ?a of None \<Rightarrow> ''plant:'' @ m_id m | Some p \<Rightarrow> ''asset:'' @ a_id (m_assets m ! p)"
  have fit: "length (''asset:'' @ a_id (m_assets m ! i)) < 160" if "i < length (m_assets m)" for i
  proof -
    have "fits EDGE_MAX_ID_LEN (a_id (m_assets m ! i))" using assms(3) that by (simp add: nodeids_fit_def)
    then show ?thesis by (simp add: fits_def edge_limits)
  qed
  have "length (''plant:'' @ m_id m) < 160" using assms(3) by (simp add: nodeids_fit_def fits_def edge_limits)
  note pid = print_nodeid_fits [OF this] and aid = print_nodeid_fits [OF fit]
  have par: "(case a_parent ?a of Some p \<Rightarrow> make_asset_nodeid (m_assets m ! p) EDGE_NODEID_LEN
      | None \<Rightarrow> make_plant_nodeid m EDGE_NODEID_LEN) = (EDGE_STATUS_OK, ?p)"
  proof (cases "a_parent ?a")
    case None
    show ?thesis unfolding None option.case make_plant_nodeid_def by (rule pid)
  next
    case (Some p)
    with assms(4,5) have "p < length (m_assets m)" by (force simp: pointers_ok_def)
    then show ?thesis unfolding Some option.case make_asset_nodeid_def by (rule aid)
  qed
  have own: "make_asset_nodeid ?a EDGE_NODEID_LEN = (EDGE_STATUS_OK, ''asset:'' @ a_id ?a)"
    unfolding make_asset_nodeid_def by (rule aid [OF assms(5)])
  have x: "x = (asset_key ns (a_id ?a), UaObjectEntry (UaString ns ?p) (ns, a_id ?a) (object_attr (a_name ?a)))"
    by (simp add: x_def asset_entry_def plant_key_def asset_key_def split: option.split)
  obtain st u' where st: "UA_Server_addObjectNode api (Some v) (asset_key ns (a_id ?a)) (UaString ns ?p) UA_NS0ID_ORGANIZES
      (ns, a_id ?a) UA_NS0ID_BASEOBJECTTYPE (object_attr (a_name ?a)) u = (st, u')"
    "st = UA_STATUSCODE_GOOD \<longleftrightarrow> insertable (space u) x"
    "space u' = (if st = UA_STATUSCODE_GOOD then put_entry (space u) x else space u)"
    using assms(1) unfolding ua_space_laws_def x by blast
  then show ?thesis
    unfolding add_asset_object_def par own Let_def prod.case
    by (simp add: assms(2) or_error_def asset_key_def object_attr_def UA_EVENTNOTIFIER_SUBSCRIBE_TO_EVENT_def)
qed

lemma add_variable_entry:
  assumes "ua_space_laws api v ns space" and "sv_ua server = Some v" and "nodeids_fit m" and "pointers_ok m"
    and "k < length (m_nodes m)"
  defines "x \<equiv> variable_entry ns m k"
  shows "\<exists>u'. or_error (add_variable_node api server m ns k u) =
      (if insertable (space u) x then None else Some EDGE_STATUS_ERROR, u') \<and>
    (insertable (space u) x \<longrightarrow> space u' = put_entry (space u) x)"
proof -
  let ?n = "m_nodes m ! k" let ?aid = "a_id (node_asset m ?n)"
  let ?attr = "\<lparr>va_display_name = (''en-US'', n_name ?n), va_data_type = ua_type_for_node ?n,
    va_access_level = (if n_writable ?n then 3 else 1), va_value = set_variant_from_edge_value ?n\<rparr>"
  have n: "?n \<in> set (m_nodes m)" using assms(5) by simp
  then obtain l where "n_asset ?n = Some l" "l < length (m_assets m)" using assms(4) by (auto simp: pointers_ok_def)
  then have a: "node_asset m ?n \<in> set (m_assets m)" by (simp add: node_asset_def)
  have "length ?aid < 64" "length (n_id ?n) < 64"
    using assms(3) n a by (auto simp: nodeids_fit_def fits_def edge_limits)
  then have "length (''asset:'' @ ?aid) < 160" "length (''node:'' @ ?aid @ ''.'' @ n_id ?n) < 160" by simp_all
  note ids = this [THEN print_nodeid_fits]
  have lv: "(if n_writable ?n then UA_ACCESSLEVELMASK_READ OR UA_ACCESSLEVELMASK_WRITE else UA_ACCESSLEVELMASK_READ) =
      (if n_writable ?n then 3 else 1 :: u8)"
    by (simp add: UA_ACCESSLEVELMASK_READ_def UA_ACCESSLEVELMASK_WRITE_def)
  have x: "x = (UaString ns (''node:'' @ ?aid @ ''.'' @ n_id ?n),
      UaVariableEntry (asset_key ns ?aid) (ns, n_id ?n) ?attr (k, n_writable ?n))"
    by (simp add: x_def variable_entry_def Let_def)
  have ty: "variant_has_type (va_value ?attr) (va_data_type ?attr)" by (simp add: variable_type)
  obtain st u' where st: "UA_Server_addCallbackValueSourceVariableNode api (Some v)
      (UaString ns (''node:'' @ ?aid @ ''.'' @ n_id ?n)) (asset_key ns ?aid) UA_NS0ID_HASCOMPONENT (ns, n_id ?n)
      UA_NS0ID_BASEDATAVARIABLETYPE ?attr (k, n_writable ?n) u = (st, u')"
    "st = UA_STATUSCODE_GOOD \<longleftrightarrow> insertable (space u) x \<and> variant_has_type (va_value ?attr) (va_data_type ?attr)"
    "space u' = (if st = UA_STATUSCODE_GOOD then put_entry (space u) x else space u)"
    using assms(1) unfolding ua_space_laws_def x by blast
  then have "add_variable_node api server m ns k u =
      (if insertable (space u) x then EDGE_STATUS_OK else EDGE_STATUS_ERROR, u')"
    unfolding add_variable_node_def Let_def make_variable_nodeid_def make_asset_nodeid_def ids lv
    by (simp add: assms(2) asset_key_def variable_type)
  with st ty show ?thesis by (simp add: or_error_def)
qed

text \<open>What loading the address space does on any model whose identifiers fit and whose pointers are set.\<close>

lemma space_load:
  assumes laws: "ua_space_laws api v ns space" and sv: "sv_ua server = Some v" and m: "nodeids_fit m" "pointers_ok m"
  defines "xs \<equiv> space_entries ns m"
  shows "\<exists>u'. edge_address_space_load api server m u =
      (if buildable (space u) xs then EDGE_STATUS_OK else EDGE_STATUS_ERROR, u') \<and>
    (buildable (space u) xs \<longrightarrow> space u' = foldl put_entry (space u) xs)"
proof -
  let ?as = "map (\<lambda>j. asset_entry ns m (m_assets m ! j)) [0..<length (m_assets m)]"
  let ?vs = "map (variable_entry ns m) [0..<length (m_nodes m)]"
  let ?ab = "\<lambda>i u. or_error (add_asset_object api server m ns (m_assets m ! i) u)"
  let ?vb = "\<lambda>i u. or_error (add_variable_node api server m ns i u)"
  have as: "?as = map (asset_entry ns m) (m_assets m)" by (rule nth_equalityI) simp_all
  obtain u1 where u1: "UA_Server_addNamespace api (Some v) edge_namespace u = (ns, u1)" "space u1 = space u"
    using laws [unfolded ua_space_laws_def, THEN conjunct1, THEN spec, of u] by (elim exE conjE) (rule that)
  obtain u2 where u2: "or_error (add_plant_object api server m ns u1) =
      (if insertable (space u) (plant_entry ns m) then None else Some EDGE_STATUS_ERROR, u2)"
    "insertable (space u) (plant_entry ns m) \<longrightarrow> space u2 = put_entry (space u) (plant_entry ns m)"
    using add_plant_entry [OF laws sv m(1), of u1] unfolding u1(2) by blast
  obtain u3 where u3: "for_upto (length (m_assets m)) ?ab u2 =
      (if buildable (space u2) ?as then None else Some EDGE_STATUS_ERROR, u3)"
    "buildable (space u2) ?as \<longrightarrow> space u3 = foldl put_entry (space u2) ?as"
    using build_loop [where body = ?ab and space = space, OF add_asset_entry [OF laws sv m]] by blast
  obtain u4 where u4: "for_upto (length (m_nodes m)) ?vb u3 =
      (if buildable (space u3) ?vs then None else Some EDGE_STATUS_ERROR, u4)"
    "buildable (space u3) ?vs \<longrightarrow> space u4 = foldl put_entry (space u3) ?vs"
    using build_loop [where body = ?vb and space = space, OF add_variable_entry [OF laws sv m]] by blast
  have xs: "xs = plant_entry ns m # ?as @ ?vs" by (simp only: xs_def space_entries_def as)
  show ?thesis
  proof (cases "insertable (space u) (plant_entry ns m)")
    case False
    then show ?thesis
      using u1 u2 by (auto simp: edge_address_space_load_def sv and_then_def xs Let_def)
  next
    case plant: True
    show ?thesis
    proof (cases "buildable (space u2) ?as")
      case False
      with plant show ?thesis
        using u1 u2 u3 by (auto simp: edge_address_space_load_def sv and_then_def xs Let_def)
    next
      case True
      with plant show ?thesis
        using u1 u2 u3 u4 by (auto simp: edge_address_space_load_def sv and_then_def xs Let_def)
    qed
  qed
qed

section \<open>Models that come from a template\<close>

lemma wired_frame:
  "m_id (wired m) = m_id m" "length (m_assets (wired m)) = length (m_assets m)"
  "map a_id (m_assets (wired m)) = map a_id (m_assets m)"
  "map n_id (m_nodes (wired m)) = map n_id (m_nodes m)"
  "map n_asset_id (m_nodes (wired m)) = map n_asset_id (m_nodes m)"
proof -
  show "map a_id (m_assets (wired m)) = map a_id (m_assets m)"
    by (rule nth_equalityI) (simp_all add: wired_def wired_assets_def wired_asset_def)
qed (simp_all add: wired_def wired_assets_def wired_node_def)

lemma loaded_wired:
  assumes "model_fits m0" and "edge_config_load (Some content) m0 = (EDGE_STATUS_OK, m)"
    and "edge_config_wire_runtime m = (EDGE_STATUS_OK, w)"
  shows "w = wired m" and "model_fits m" and "unique_ids m" and "refs_resolved m" and "within_limits m"
    and "required_fields m"
proof -
  from load_ok_parsed [OF assms(1,2)] obtain p where p: "parsed content m0 = Some p"
    "valid_template p" "m = resolved p" by blast
  show fit: "model_fits m" using load_fits [OF assms(1), of "Some content"] assms(2) by simp
  then show lim: "within_limits m" by (rule model_fits_limits)
  show "unique_ids m" "required_fields m"
    using p(2,3) by (simp_all add: valid_template_def unique_resolved required_resolved)
  show refs: "refs_resolved m" by (rule load_sound_refs [OF assms(1,2)])
  show "w = wired m" using wire_runtime_wired [OF refs_resolved_wirable [OF lim refs]] assms(3) by simp
qed

text \<open>What the address space needs of a model.\<close>

definition space_ready :: "EdgeModel \<Rightarrow> bool" where
  "space_ready w = (nodeids_fit w \<and> pointers_ok w \<and> distinct (map a_id (m_assets w)) \<and>
     (\<forall>n \<in> set (m_nodes w). a_id (node_asset w n) = n_asset_id n))"

lemma wired_space_ready:
  assumes "model_fits m0" and "edge_config_load (Some content) m0 = (EDGE_STATUS_OK, m)"
    and "edge_config_wire_runtime m = (EDGE_STATUS_OK, w)"
  shows "space_ready w"
proof -
  note l = loaded_wired [OF assms]
  have "nodeids_fit w"
  proof -
    have "\<forall>x \<in> set (map a_id (m_assets m)). fits EDGE_MAX_ID_LEN x" "\<forall>x \<in> set (map n_id (m_nodes m)). fits EDGE_MAX_ID_LEN x"
      "fits EDGE_MAX_ID_LEN (m_id m)"
      using l(2) by (auto simp: model_fits_def list.pred_set asset_fits_def node_fits_def)
    then have "\<forall>x \<in> set (map a_id (m_assets w)). fits EDGE_MAX_ID_LEN x" "\<forall>x \<in> set (map n_id (m_nodes w)). fits EDGE_MAX_ID_LEN x"
      "fits EDGE_MAX_ID_LEN (m_id w)" unfolding l(1) wired_frame by simp_all
    then show ?thesis by (simp add: nodeids_fit_def)
  qed
  moreover have ptr: "\<exists>k. n_asset n = Some k \<and> k < length (m_assets w) \<and> a_id (m_assets w ! k) = n_asset_id n"
    if "n \<in> set (m_nodes w)" for n
    using wired_refs_exact(1) [OF l(4)] that unfolding l(1) .
  moreover have "case a_parent (m_assets w ! j) of None \<Rightarrow> True | Some p \<Rightarrow> p < j" if "j < length (m_assets w)" for j
    using wired_asset_exact(4) [OF l(4,3,5), of j] that
    unfolding l(1) wired_frame(2) by (auto split: option.splits)
  moreover have "distinct (map a_id (m_assets w))" using l(3) by (simp only: l(1) wired_frame(3) unique_ids_def)
  ultimately show ?thesis unfolding space_ready_def pointers_ok_def node_asset_def by fastforce
qed

text \<open>The entries of a model that is ready build on each other when the keys of its nodes differ.\<close>

lemma entry_keys:
  assumes "space_ready w"
  shows "map fst (space_entries ns w) = UaString ns (''plant:'' @ m_id w) #
    map (\<lambda>a. UaString ns (''asset:'' @ a_id a)) (m_assets w) @ map (\<lambda>n. UaString ns (node_key n)) (m_nodes w)"
proof -
  have "fst (variable_entry ns w k) = UaString ns (node_key (m_nodes w ! k))" if "k < length (m_nodes w)" for k
    using assms that by (simp add: variable_entry_def node_key_def space_ready_def Let_def)
  then have "map (fst \<circ> variable_entry ns w) [0..<length (m_nodes w)] = map (\<lambda>n. UaString ns (node_key n)) (m_nodes w)"
    by (intro nth_equalityI) simp_all
  then show ?thesis
    by (simp add: space_entries_def plant_entry_def plant_key_def asset_entry_def asset_key_def comp_def)
qed

lemma entries_buildable:
  assumes "space_ready w" and "UaNumeric 85 \<in> dom S" and "\<forall>t. UaString ns t \<notin> dom S"
  shows "buildable S (space_entries ns w) \<longleftrightarrow> distinct (map node_key (m_nodes w))"
proof -
  let ?xs = "space_entries ns w" and ?as = "m_assets w"
  have "distinct (map fst ?xs) \<longleftrightarrow> distinct (map node_key (m_nodes w))"
    using assms(1) unfolding entry_keys [OF assms(1)]
    by (auto simp: space_ready_def distinct_map inj_on_def node_key_def)
  moreover have "fst ` set ?xs \<inter> dom S = {}"
  proof -
    have "\<forall>x \<in> set (map fst ?xs). \<exists>t. x = UaString ns t" unfolding entry_keys [OF assms(1)] by auto
    with assms(3) show ?thesis by force
  qed
  moreover have "entry_parent (snd (?xs ! i)) \<in> dom S \<union> fst ` set (take i ?xs)" if "i < length ?xs" for i
  proof -
    have pre: "fst ` set (take i ?xs) = set (take i (map fst ?xs))" by (simp add: take_map)
    consider "i = 0" | j where "i = Suc j" "j < length ?as"
      | k where "i = Suc (length ?as + k)" "k < length (m_nodes w)"
    proof (cases i)
      case (Suc j)
      have len: "i < Suc (length ?as + length (m_nodes w))" using \<open>i < length ?xs\<close> by (simp add: space_entries_def)
      show ?thesis
      proof (cases "j < length ?as")
        case True
        with Suc that(2) show ?thesis by blast
      next
        case False
        with Suc len show ?thesis by (intro that(3) [of "j - length ?as"]) simp_all
      qed
    qed (rule that(1))
    then show ?thesis
    proof cases
      case 1
      then show ?thesis using assms(2) by (simp add: space_entries_def plant_entry_def)
    next
      case (2 j)
      then have x: "?xs ! i = asset_entry ns w (?as ! j)" by (simp add: space_entries_def nth_append)
      have t: "take i (map fst ?xs) = plant_key ns w # map (\<lambda>a. asset_key ns (a_id a)) (take j ?as)"
        unfolding entry_keys [OF assms(1)] using 2 by (simp add: plant_key_def asset_key_def take_map)
      have "case a_parent (?as ! j) of None \<Rightarrow> True | Some p \<Rightarrow> p < j"
        using assms(1) 2(2) by (simp add: space_ready_def pointers_ok_def)
      then have "entry_parent (snd (asset_entry ns w (?as ! j))) \<in> set (take i (map fst ?xs))"
      proof (cases "a_parent (?as ! j)")
        case None
        then show ?thesis unfolding t by (simp add: asset_entry_def)
      next
        case (Some p)
        with \<open>case a_parent (?as ! j) of None \<Rightarrow> True | Some p \<Rightarrow> p < j\<close> have p: "p < length (take j ?as)" using 2(2) by simp
        then have "?as ! p \<in> set (take j ?as)" using nth_mem [OF p] by simp
        with Some show ?thesis unfolding t by (simp add: asset_entry_def)
      qed
      then show ?thesis unfolding x pre by blast
    next
      case (3 k)
      then have x: "?xs ! i = variable_entry ns w k" by (simp add: space_entries_def nth_append)
      have t: "asset_key ns (a_id a) \<in> set (take i (map fst ?xs))" if "a \<in> set ?as" for a
        unfolding entry_keys [OF assms(1)] using 3 that by (auto simp: asset_key_def)
      have "node_asset w (m_nodes w ! k) \<in> set ?as"
        using assms(1) nth_mem [OF 3(2)] by (fastforce simp: space_ready_def pointers_ok_def node_asset_def)
      from t [OF this] show ?thesis unfolding x pre by (simp add: variable_entry_def Let_def)
    qed
  qed
  ultimately show ?thesis unfolding buildable_iff by blast
qed

section \<open>Claims on the address space\<close>

text \<open>C7: from the template to the address space: for every template that loads and wires, over a
  server that behaves as documented and has nothing in the gateway's namespace yet, loading the address
  space succeeds exactly when the keys of the nodes differ, and then adds exactly the plant object under
  the Objects folder, every asset object under its parent asset or the plant, and every variable under
  its asset, with the data type of its node, the access level of its access right and the node as
  context of its callbacks; otherwise it reports an error.  Parents come first in every template
  that loads, so no insertion ever misses its parent.\<close>

theorem address_space_load_exact:
  assumes "model_fits m0" and "edge_config_load (Some content) m0 = (EDGE_STATUS_OK, m)"
    and "edge_config_wire_runtime m = (EDGE_STATUS_OK, w)"
    and "ua_space_laws api v ns space" and "sv_ua server = Some v"
    and "UaNumeric 85 \<in> dom (space u)" and "\<forall>t. UaString ns t \<notin> dom (space u)"
  shows "\<exists>u'. edge_address_space_load api server w u =
      (if distinct (map node_key (m_nodes w)) then EDGE_STATUS_OK else EDGE_STATUS_ERROR, u') \<and>
    (distinct (map node_key (m_nodes w)) \<longrightarrow> space u' = space u ++ map_of (space_entries ns w))"
proof -
  have ready: "space_ready w" by (rule wired_space_ready [OF assms(1-3)])
  then have w: "nodeids_fit w" "pointers_ok w" by (simp_all add: space_ready_def)
  note b = entries_buildable [OF ready assms(6,7)]
  have "foldl put_entry (space u) (space_entries ns w) = space u ++ map_of (space_entries ns w)"
    if "buildable (space u) (space_entries ns w)"
    by (rule put_entries_map_of) (use that buildable_iff in blast)
  with space_load [OF assms(4,5) w, of u] show ?thesis unfolding b by auto
qed

theorem address_space_load_exact_witness:
  "\<exists>u'. edge_address_space_load mem_ua mem_server_on (wired (resolved sample_parsed)) mem_fresh = (EDGE_STATUS_OK, u') \<and>
     ms_space u' = ms_space mem_fresh ++ map_of (space_entries 2 (wired (resolved sample_parsed)))"
proof -
  let ?m = "resolved sample_parsed"
  have l: "edge_config_load (Some (unlines sample_lines)) zero_model = (EDGE_STATUS_OK, ?m)"
    using load_cases(3) [OF model_fits_zero sample_parses] sample_valid by (simp add: valid_template_def)
  have "within_limits ?m" "refs_resolved ?m"
    using load_fits [OF model_fits_zero, of "Some (unlines sample_lines)"] l
      load_sound_refs [OF model_fits_zero l] by (auto intro: model_fits_limits)
  then have w: "edge_config_wire_runtime ?m = (EDGE_STATUS_OK, wired ?m)"
    by (intro wire_runtime_wired refs_resolved_wirable)
  have d: "distinct (map node_key (m_nodes (wired ?m)))"
    by (simp add: wired_def resolved_def sample_parsed_def)
  have s: "UaNumeric 85 \<in> dom (ms_space mem_fresh)" "\<forall>t. UaString 2 t \<notin> dom (ms_space mem_fresh)"
    "sv_ua mem_server_on = Some ()" by (simp_all add: mem_fresh_def mem_server_on_def)
  show ?thesis
    using address_space_load_exact [OF model_fits_zero l w mem_ua_space_laws s(3,1,2)] d by simp
qed

text \<open>C19: reads and writes through OPC UA are well typed: the value that a read delivers always has
  the declared type of the variable; a write is accepted exactly when the node is writable and the value is a
  scalar of that type, and then the next read delivers the written value, the node is marked for
  write-back, and nothing else of it changes; a refused write changes nothing.\<close>

theorem callbacks_typed:
  assumes "n_data_type node = Some t"
  shows "(\<exists>dv'. read_edge_node (Some node) dv = (UA_STATUSCODE_GOOD, dv') \<and> ud_hasValue dv' \<and>
      variant_has_type (ud_value dv') (ua_type_for_node node)) \<and>
    (fst (write_edge_node (Some node) (Some x)) = UA_STATUSCODE_GOOD \<longleftrightarrow>
      n_writable node \<and> ud_hasValue x \<and> variant_has_type (ud_value x) (ua_type_for_node node)) \<and>
    (case write_edge_node (Some node) (Some x) of (st, node') \<Rightarrow>
       if st = UA_STATUSCODE_GOOD
       then (\<exists>n. node' = Some n \<and> snd (read_edge_node (Some n) dv) = dv\<lparr>ud_hasValue := True, ud_value := ud_value x\<rparr> \<and>
             n_pending_write n \<and> n\<lparr>n_value := n_value node, n_pending_write := n_pending_write node\<rparr> = node)
       else node' = Some node)"
proof -
  have r: "\<exists>dv'. read_edge_node (Some node) dv = (UA_STATUSCODE_GOOD, dv') \<and> ud_hasValue dv' \<and>
      variant_has_type (ud_value dv') (ua_type_for_node node)"
    using variable_type [of node] by (simp add: read_edge_node_def)
  show ?thesis
  proof (cases "n_writable node \<and> ud_hasValue x")
    case False
    then show ?thesis using r by (auto simp: write_edge_node_def ua_codes)
  next
    case True
    have u: "union_get (y :: 64 word) = y" for y by (simp add: union_get_def)
    from True show ?thesis
      using r assms
      by (cases t; cases "ud_value x")
         (simp_all add: write_edge_node_def read_edge_node_def set_variant_from_edge_value_def ua_type_for_node_def ua_codes u)
  qed
qed

theorem callbacks_typed_witness:
  "fst (write_edge_node (Some (zero_node\<lparr>n_data_type := Some EDGE_DATA_INT16, n_writable := True\<rparr>))
     (Some \<lparr>ud_hasValue = True, ud_value = UaInt16 9\<rparr>)) = UA_STATUSCODE_GOOD \<and>
   fst (write_edge_node (Some (zero_node\<lparr>n_data_type := Some EDGE_DATA_INT16, n_writable := True\<rparr>))
     (Some \<lparr>ud_hasValue = True, ud_value = UaInt32 9\<rparr>)) \<noteq> UA_STATUSCODE_GOOD"
  using callbacks_typed [of "zero_node\<lparr>n_data_type := Some EDGE_DATA_INT16, n_writable := True\<rparr>" EDGE_DATA_INT16]
  by (simp add: ua_type_for_node_def)

end
