(* ===== verification/Edge_Registers.thy ===== *)
theory Edge_Registers
  imports Edge_Types
begin

text \<open>
  The register codec of \<open>src/edge_modbus.c\<close>: how a node value is laid out in one or two 16-bit
  Modbus holding registers, \<open>apply_registers_to_node\<close> reading it and \<open>pack_node_to_registers\<close>
  writing it.  A \<open>uint16_t[2]\<close> buffer is a pair.  The locale \<open>register_codec\<close> states what the
  polling and writing code relies on; its interpretation \<open>regs\<close> discharges it for the two
  functions of the source.
\<close>

section \<open>The codec\<close>

type_synonym reg_pair = "u16 \<times> u16"

definition register_width_for_node :: "EdgeNode \<Rightarrow> u16" where
  "register_width_for_node node =
     (if n_data_type node = Some EDGE_DATA_INT32 \<or> n_data_type node = Some EDGE_DATA_UINT32
      then 2 else 1)"

definition node_scale :: "EdgeNode \<Rightarrow> f64" where
  "node_scale node = (if \<not> f64_eq (n_scale node) f64_zero then n_scale node else f64_of_int 1)"

definition apply_registers_to_node :: "EdgeNode \<Rightarrow> reg_pair \<Rightarrow> EdgeNode" where
  "apply_registers_to_node node raw =
     (let scale = node_scale node;
          v = n_value node
      in case n_data_type node of
           Some EDGE_DATA_BOOL \<Rightarrow>
             node\<lparr>n_value := union_put ((if fst raw AND 1 \<noteq> 0 then 1 else 0) :: u8) v\<rparr>
         | Some EDGE_DATA_INT16 \<Rightarrow> node\<lparr>n_value := union_put (fst raw) v\<rparr>
         | Some EDGE_DATA_INT32 \<Rightarrow>
             node\<lparr>n_value := union_put (push_bit 16 (ucast (fst raw) :: u32) OR ucast (snd raw)) v\<rparr>
         | Some EDGE_DATA_UINT32 \<Rightarrow>
             node\<lparr>n_value := union_put (push_bit 16 (ucast (fst raw) :: u32) OR ucast (snd raw)) v\<rparr>
         | Some EDGE_DATA_DOUBLE \<Rightarrow>
             node\<lparr>n_value := union_put (f64_mul (f64_of_int (sint (fst raw))) scale) v\<rparr>
         | None \<Rightarrow> node)"

definition pack_node_to_registers :: "c_impl \<Rightarrow> EdgeNode \<Rightarrow> reg_pair \<Rightarrow> u16 \<times> reg_pair" where
  "pack_node_to_registers cc node out =
     (case n_data_type node of
        Some EDGE_DATA_BOOL \<Rightarrow>
          (1, (if (union_get (n_value node) :: u8) \<noteq> 0 then 1 else 0, snd out))
      | Some EDGE_DATA_INT16 \<Rightarrow> (1, (union_get (n_value node), snd out))
      | Some EDGE_DATA_INT32 \<Rightarrow>
          (let v = union_get (n_value node) :: u32
           in (2, (ucast (drop_bit 16 v AND 0xFFFF), ucast (v AND 0xFFFF))))
      | Some EDGE_DATA_UINT32 \<Rightarrow>
          (let v = union_get (n_value node) :: u32
           in (2, (ucast (drop_bit 16 v AND 0xFFFF), ucast (v AND 0xFFFF))))
      | Some EDGE_DATA_DOUBLE \<Rightarrow>
          (let scale = node_scale node;
               engineering = f64_div (union_get (n_value node)) scale
           in if \<not> f64_isfinite engineering then (1, (0, snd out))
              else let rounded = f64_to_long cc
                     (if f64_le f64_zero engineering then f64_add engineering f64_half
                      else f64_sub engineering f64_half)
                   in (1, (ucast rounded, snd out)))
      | None \<Rightarrow> (1, (0, snd out)))"

lemma apply_registers_frame [frame_simps]:
  "n_id (apply_registers_to_node n raw) = n_id n"
  "n_name (apply_registers_to_node n raw) = n_name n"
  "n_asset_id (apply_registers_to_node n raw) = n_asset_id n"
  "n_asset_index (apply_registers_to_node n raw) = n_asset_index n"
  "n_asset (apply_registers_to_node n raw) = n_asset n"
  "n_data_type (apply_registers_to_node n raw) = n_data_type n"
  "n_writable (apply_registers_to_node n raw) = n_writable n"
  "n_modbus_unit (apply_registers_to_node n raw) = n_modbus_unit n"
  "n_modbus_register (apply_registers_to_node n raw) = n_modbus_register n"
  "n_scale (apply_registers_to_node n raw) = n_scale n"
  "n_pending_write (apply_registers_to_node n raw) = n_pending_write n"
  by (auto simp: apply_registers_to_node_def Let_def split: option.splits EdgeDataType.splits)

lemma node_scale_frame [simp]:
  "node_scale (n\<lparr>n_value := v\<rparr>) = node_scale n"
  by (simp add: node_scale_def)

section \<open>Splitting and joining 32-bit values\<close>

lemma low_half: "(v :: u32) AND 0xFFFF = take_bit 16 v"
  by (simp add: take_bit_eq_mask mask_numeral)

lemma join_split32:
  "push_bit 16 (ucast (ucast (drop_bit 16 v AND 0xFFFF) :: u16) :: u32) OR
   ucast (ucast (v AND 0xFFFF) :: u16) = (v :: u32)"
  unfolding low_half by (rule bit_word_eqI) (auto simp: bit_simps)

lemma split_join32:
  fixes hi lo :: u16
  defines "v \<equiv> push_bit 16 (ucast hi :: u32) OR ucast lo"
  shows "ucast (drop_bit 16 v AND 0xFFFF) = hi" and "ucast (v AND 0xFFFF) = lo"
  unfolding low_half v_def
  by (rule bit_word_eqI; auto simp: bit_simps dest: bit_imp_le_length)+

section \<open>Round trips\<close>

text \<open>The 16-bit result of the double branch, for a quotient close to an integer.\<close>

lemma f64_to_long_ucast:
  assumes "f64_isfinite t" and "f64_trunc t = sint (r :: u16)"
  shows "(ucast (f64_to_long cc t) :: u16) = r"
proof -
  have "f64_to_long cc t = of_int (sint r)"
    using assms sint_bounds16 [of r] by (simp add: f64_to_long_def)
  moreover have "(ucast (of_int (sint r) :: u64) :: u16) = of_int (sint r)"
    by (rule bit_word_eqI) (simp add: bit_simps)
  ultimately show ?thesis by simp
qed

lemma node_scale_nonzero:
  assumes "f64_isfinite (n_scale n)"
  shows "f64_isfinite (node_scale n)" and "f64_val (node_scale n) \<noteq> 0"
    and "f64_val (n_scale n) \<noteq> 0 \<Longrightarrow> node_scale n = n_scale n"
    and "f64_val (n_scale n) = 0 \<Longrightarrow> node_scale n = f64_of_int 1"
  using assms f64_of_int_exact [of 1] by (auto simp: node_scale_def f64_eq_val)

text \<open>
  Scaling a 16-bit register and unscaling the product stays within \<open>1/8\<close> of the register, when
  the magnitude of the scale keeps the product in the normal range.
\<close>

lemma scale_unscale:
  fixes r :: int
  assumes "f64_isfinite s" and "pow2 (- 1000) \<le> \<bar>f64_val s\<bar>" and "\<bar>f64_val s\<bar> \<le> pow2 1000"
    and "\<bar>r\<bar> \<le> 2 ^ 15"
  defines "e \<equiv> f64_div (f64_mul (f64_of_int r) s) s"
  shows "f64_isfinite e" and "\<bar>f64_val e - of_int r\<bar> \<le> 1 / 8"
proof -
  let ?x = "f64_mul (f64_of_int r) s" and ?s = "f64_val s" and ?r = "of_int r :: rat"
  have ri: "f64_isfinite (f64_of_int r)" "f64_val (f64_of_int r) = ?r"
    using f64_of_int_exact [of r] assms(4) by auto
  have "0 < \<bar>?s\<bar>" using assms(2) pow2_pos [of "- 1000"] by linarith
  then have s0: "?s \<noteq> 0" by simp
  have "f64_isfinite e \<and> \<bar>f64_val e - ?r\<bar> \<le> 1 / 8"
  proof (cases "r = 0")
    case True
    have x: "?x = f64_make (f64_sign (f64_of_int r) \<noteq> f64_sign s) 0"
      using ri assms(1) True
      by (simp add: f64_mul_def f64_finite_not_nan f64_finite_not_inf round_mag_def)
    have x0: "f64_isfinite ?x" "f64_val ?x = 0"
      unfolding x by (simp_all add: inf_mag_def f64_make_val)
    then have "e = f64_make (f64_sign ?x \<noteq> f64_sign s) 0"
      using assms(1) s0
      by (simp add: e_def f64_div_def f64_finite_not_nan f64_finite_not_inf round_mag_def f64_mag_pos)
    then show ?thesis using True by (simp add: inf_mag_def f64_make_val)
  next
    case False
    then have r1: "1 \<le> \<bar>?r\<bar>" by (metis of_int_1_le_iff of_int_abs zero_less_abs_iff int_one_le_iff_zero_less)
    have r2: "\<bar>?r\<bar> \<le> 2 ^ 15"
      using assms(4) by (metis of_int_abs of_int_le_iff of_int_numeral of_int_power)
    let ?p = "?r * ?s"
    have p: "\<bar>?p\<bar> = \<bar>?r\<bar> * \<bar>?s\<bar>" by (simp add: abs_mult)
    have "pow2 (- 1022) \<le> pow2 (- 1000)" by (simp only: pow2_le_iff)
    then have "pow2 (- 1022) \<le> 1 * \<bar>?s\<bar>" using assms(2) by linarith
    also have "\<dots> \<le> \<bar>?p\<bar>" unfolding p using r1 by (rule mult_right_mono) simp
    finally have p1: "pow2 (- 1022) \<le> \<bar>?p\<bar>" .
    have "\<bar>?p\<bar> \<le> pow2 15 * pow2 1000"
      unfolding p using r2 assms(3) by (intro mult_mono) (auto simp: pow2_def)
    then have p2: "\<bar>?p\<bar> \<le> pow2 1023"
      using pow2_mono [of "15 + 1000" 1023] unfolding pow2_add by simp
    have mul: "f64_isfinite ?x" "\<bar>f64_val ?x - ?p\<bar> \<le> \<bar>?p\<bar> * pow2 (- 53)"
      using f64_mul_error [OF ri(1) assms(1)] p1 p2 by (simp_all add: ri)
    let ?q = "f64_val ?x / ?s"
    have "\<bar>?q - ?r\<bar> = \<bar>f64_val ?x - ?p\<bar> / \<bar>?s\<bar>"
      using s0 by (simp add: diff_divide_distrib flip: abs_divide)
    also have "\<dots> \<le> \<bar>?p\<bar> * pow2 (- 53) / \<bar>?s\<bar>"
      using mul(2) by (rule divide_right_mono) simp
    also have "\<dots> = \<bar>?r\<bar> * pow2 (- 53)" using s0 by (simp add: p)
    finally have q: "\<bar>?q - ?r\<bar> \<le> \<bar>?r\<bar> * pow2 (- 53)" .
    have "\<bar>?r\<bar> * pow2 (- 53) \<le> 2 ^ 15 * pow2 (- 53)" using r2 by (rule mult_right_mono) simp
    also have "\<dots> \<le> 1 / 32" by (simp add: pow2_def)
    finally have d: "\<bar>?q - ?r\<bar> \<le> 1 / 32" using q by linarith
    have "\<bar>?r\<bar> \<le> 32768" using r2 by simp
    then have q1: "1 / 2 \<le> \<bar>?q\<bar>" "\<bar>?q\<bar> \<le> 65536" using d r1 by linarith+
    have "pow2 (- 1022) \<le> pow2 (- 1)" "pow2 16 \<le> pow2 1023" by (simp_all only: pow2_le_iff)
    moreover have "pow2 (- 1) = 1 / 2" "pow2 16 = 65536" by (simp_all add: pow2_def)
    ultimately have q2: "pow2 (- 1022) \<le> \<bar>?q\<bar>" "\<bar>?q\<bar> \<le> pow2 1023"
      using q1 by linarith+
    note div = f64_div_error [OF mul(1) assms(1) s0 q2, folded e_def]
    have "\<bar>?q\<bar> * pow2 (- 53) \<le> 65536 * pow2 (- 53)" using q1(2) by (rule mult_right_mono) simp
    also have "\<dots> \<le> 1 / 32" by (simp add: pow2_def)
    finally have "\<bar>f64_val e - ?q\<bar> \<le> 1 / 32" using div(2) by linarith
    with d div(1) show ?thesis by linarith
  qed
  then show "f64_isfinite e" "\<bar>f64_val e - ?r\<bar> \<le> 1 / 8" by simp_all
qed

text \<open>
  Nodes whose scale is usable: zero (which the code reads as one) or of a magnitude between
  \<open>2 ^ -1000\<close> and \<open>2 ^ 1000\<close>.  Only a double node depends on its scale.
\<close>

definition scale_ok :: "EdgeNode \<Rightarrow> bool" where
  "scale_ok n =
     (n_data_type n = Some EDGE_DATA_DOUBLE \<longrightarrow>
        f64_isfinite (n_scale n) \<and>
        (f64_val (n_scale n) = 0 \<or>
         pow2 (- 1000) \<le> \<bar>f64_val (n_scale n)\<bar> \<and> \<bar>f64_val (n_scale n)\<bar> \<le> pow2 1000))"

lemma scale_ok_node_scale:
  assumes "scale_ok n" and "n_data_type n = Some EDGE_DATA_DOUBLE"
  shows "f64_isfinite (node_scale n)" and "pow2 (- 1000) \<le> \<bar>f64_val (node_scale n)\<bar>"
    and "\<bar>f64_val (node_scale n)\<bar> \<le> pow2 1000"
proof -
  from assms have fin: "f64_isfinite (n_scale n)" by (simp add: scale_ok_def)
  note sc = node_scale_nonzero [OF fin]
  show "f64_isfinite (node_scale n)" by (rule sc(1))
  have one: "f64_val (f64_of_int 1) = 1" using f64_of_int_exact(2) [of 1] by simp
  have "pow2 (- 1000) \<le> \<bar>f64_val (node_scale n)\<bar> \<and> \<bar>f64_val (node_scale n)\<bar> \<le> pow2 1000"
  proof (cases "f64_val (n_scale n) = 0")
    case True
    have "pow2 (- 1000) \<le> pow2 0" "pow2 0 \<le> pow2 1000" by (simp_all only: pow2_le_iff)
    then show ?thesis unfolding sc(4) [OF True] one by simp
  next
    case False
    then show ?thesis using assms unfolding sc(3) [OF False] by (simp add: scale_ok_def)
  qed
  then show "pow2 (- 1000) \<le> \<bar>f64_val (node_scale n)\<bar>" "\<bar>f64_val (node_scale n)\<bar> \<le> pow2 1000"
    by simp_all
qed

lemma pack_apply_double:
  assumes "n_data_type n = Some EDGE_DATA_DOUBLE" and "scale_ok n"
  shows "pack_node_to_registers cc (apply_registers_to_node n raw) out = (1, (fst raw, snd out))"
proof -
  let ?r = "sint (fst raw)"
  have r: "\<bar>?r\<bar> \<le> 2 ^ 15" using sint_bounds16 [of "fst raw"] by auto
  define e where "e = f64_div (f64_mul (f64_of_int ?r) (node_scale n)) (node_scale n)"
  note e = scale_unscale [OF scale_ok_node_scale [OF assms(2,1)] r, folded e_def]
  note t = f64_round_half [OF e r]
  have "pack_node_to_registers cc (apply_registers_to_node n raw) out =
      (1, (ucast (f64_to_long cc (if f64_le f64_zero e then f64_add e f64_half else f64_sub e f64_half)),
           snd out))"
    using assms(1) e(1)
    by (simp add: apply_registers_to_node_def pack_node_to_registers_def e_def Let_def union_get_def)
  then show ?thesis using f64_to_long_ucast [OF t] by simp
qed

lemma bool_bit: "((if b then 1 else 0 :: u16) AND 1 \<noteq> 0) = b"
  by simp

lemma pack_apply_regs:
  assumes "n_data_type n = Some t" and "scale_ok n"
  shows "pack_node_to_registers cc (apply_registers_to_node n (hi, lo)) (out0, out1) =
    (case t of
       EDGE_DATA_BOOL \<Rightarrow> (1, (hi AND 1, out1))
     | EDGE_DATA_INT16 \<Rightarrow> (1, (hi, out1))
     | EDGE_DATA_INT32 \<Rightarrow> (2, (hi, lo))
     | EDGE_DATA_UINT32 \<Rightarrow> (2, (hi, lo))
     | EDGE_DATA_DOUBLE \<Rightarrow> (1, (hi, out1)))"
proof (cases "t = EDGE_DATA_DOUBLE")
  case True
  then show ?thesis using pack_apply_double [OF _ assms(2)] assms(1) by simp
next
  case False
  have b: "hi AND 1 = (if hi AND 1 \<noteq> 0 then 1 else 0)"
    by (cases "even hi") (simp_all add: and_one_eq mod_2_eq_odd)
  show ?thesis
    using assms(1) False split_join32 [of hi lo] b
    by (cases t)
       (simp_all add: apply_registers_to_node_def pack_node_to_registers_def Let_def split: if_splits)
qed

text \<open>C20: polling is lossless on the registers: for every register content and every data type,
  packing the value that was read from a register gives back the register (for a boolean its lowest
  bit), for every usable scale of a double and despite the rounding of the multiplication and the
  division; no conversion is undefined.\<close>

theorem pack_apply_registers:
  assumes "n_data_type n = Some t" and "scale_ok n"
  shows "pack_node_to_registers cc (apply_registers_to_node n (hi, lo)) (out0, out1) =
    (case t of
       EDGE_DATA_BOOL \<Rightarrow> (1, (hi AND 1, out1))
     | EDGE_DATA_INT16 \<Rightarrow> (1, (hi, out1))
     | EDGE_DATA_INT32 \<Rightarrow> (2, (hi, lo))
     | EDGE_DATA_UINT32 \<Rightarrow> (2, (hi, lo))
     | EDGE_DATA_DOUBLE \<Rightarrow> (1, (hi, out1)))"
  by (rule pack_apply_regs [OF assms])

definition sample_double :: EdgeNode where
  "sample_double = zero_node\<lparr>n_id := ''t'', n_data_type := Some EDGE_DATA_DOUBLE, n_writable := True,
     n_modbus_unit := 1, n_modbus_register := 40001, n_scale := f64_half\<rparr>"

lemma sample_double_ok: "scale_ok sample_double"
proof -
  have "pow2 (- 1000) \<le> pow2 (- 1)" "pow2 (- 1) \<le> pow2 1000" by (simp_all only: pow2_le_iff)
  then show ?thesis
    unfolding scale_ok_def sample_double_def by (simp add: f64_half_val pow2_def [of "- 1"])
qed

theorem pack_apply_registers_witness:
  "\<forall>cc. pack_node_to_registers cc (apply_registers_to_node sample_double (65530, 0)) (0, 0) = (1, (65530, 0))"
  using pack_apply_registers [OF _ sample_double_ok, of EDGE_DATA_DOUBLE _ 65530 0 0 0]
  by (simp add: sample_double_def)

section \<open>The codec as an interface\<close>

text \<open>
  What polling and writing rely on.  \<open>usable\<close> selects the nodes for which the codec is lossless;
  \<open>rewrite\<close> is one write-back of a node that was read from the registers.
\<close>

locale register_codec =
  fixes width :: "'n \<Rightarrow> u16"
    and unpack :: "'n \<Rightarrow> reg_pair \<Rightarrow> 'n"
    and pack :: "'n \<Rightarrow> reg_pair \<Rightarrow> u16 \<times> reg_pair"
    and usable :: "'n \<Rightarrow> bool"
  assumes width_pack: "fst (pack n out) = width n"
    and width_range: "width n = 1 \<or> width n = 2"
    and width_unpack: "width (unpack n raw) = width n"
    and usable_unpack: "usable (unpack n raw) = usable n"
    and unpack_pack_unpack: "usable n \<Longrightarrow> unpack n (snd (pack (unpack n raw) out)) = unpack n raw"
begin

definition rewrite :: "'n \<Rightarrow> reg_pair \<Rightarrow> reg_pair \<Rightarrow> reg_pair" where
  "rewrite n out raw = snd (pack (unpack n raw) out)"

lemma rewrite_stable: "usable n \<Longrightarrow> unpack n ((rewrite n out ^^ k) raw) = unpack n raw"
  by (induction k) (simp_all add: rewrite_def unpack_pack_unpack)

lemma pack_width_unpack: "fst (pack (unpack n raw) out) = width n"
  by (simp add: width_pack width_unpack)

end

lemma apply_low_bit:
  "n_data_type n = Some EDGE_DATA_BOOL \<Longrightarrow>
     apply_registers_to_node n (hi AND 1, lo) = apply_registers_to_node n (hi, lo')"
  by (simp add: apply_registers_to_node_def and.assoc)

lemma apply_one_register:
  "n_data_type n \<noteq> Some EDGE_DATA_INT32 \<Longrightarrow> n_data_type n \<noteq> Some EDGE_DATA_UINT32 \<Longrightarrow>
     apply_registers_to_node n (hi, lo) = apply_registers_to_node n (hi, lo')"
  by (simp add: apply_registers_to_node_def Let_def split: option.split EdgeDataType.split)

interpretation regs: register_codec register_width_for_node apply_registers_to_node
  "pack_node_to_registers cc" "\<lambda>n. n_data_type n \<noteq> None \<and> scale_ok n" for cc
proof unfold_locales
  fix n :: EdgeNode and raw out :: reg_pair
  show "fst (pack_node_to_registers cc n out) = register_width_for_node n"
    by (auto simp: pack_node_to_registers_def register_width_for_node_def Let_def
        split: option.splits EdgeDataType.splits)
  show "register_width_for_node n = 1 \<or> register_width_for_node n = 2"
    by (simp add: register_width_for_node_def)
  show "register_width_for_node (apply_registers_to_node n raw) = register_width_for_node n"
    by (simp add: register_width_for_node_def frame_simps)
  show "(n_data_type (apply_registers_to_node n raw) \<noteq> None \<and> scale_ok (apply_registers_to_node n raw)) =
      (n_data_type n \<noteq> None \<and> scale_ok n)"
    by (simp add: scale_ok_def frame_simps)
  assume "n_data_type n \<noteq> None \<and> scale_ok n"
  then obtain t where t: "n_data_type n = Some t" and ok: "scale_ok n" by auto
  obtain hi lo where raw: "raw = (hi, lo)" by (cases raw)
  obtain out0 out1 where out: "out = (out0, out1)" by (cases out)
  show "apply_registers_to_node n (snd (pack_node_to_registers cc
      (apply_registers_to_node n raw) out)) = apply_registers_to_node n raw"
    unfolding raw out pack_apply_regs [OF t ok]
    using t by (cases t) (simp_all add: apply_low_bit [of n _ lo lo] apply_one_register [of n _ out1 lo])
qed

text \<open>C21: a value never drifts: a node that is read from the registers, written back and read
  again, any number of times, keeps the value of the first reading, for every data type, register
  content and usable scale.\<close>

theorem register_value_stable:
  assumes "n_data_type n \<noteq> None" and "scale_ok n"
  shows "apply_registers_to_node n
      (((\<lambda>r. snd (pack_node_to_registers cc (apply_registers_to_node n r) out)) ^^ k) raw) =
    apply_registers_to_node n raw"
  using regs.rewrite_stable [where n = n and cc = cc and out = out and k = k and raw = raw] assms unfolding regs.rewrite_def by simp

theorem register_value_stable_witness:
  "\<forall>cc. apply_registers_to_node sample_double
      (((\<lambda>r. snd (pack_node_to_registers cc (apply_registers_to_node sample_double r) (0, 0))) ^^ 100) (7, 0)) =
    apply_registers_to_node sample_double (7, 0)"
  using register_value_stable [OF _ sample_double_ok] by (simp add: sample_double_def)

lemma apply_pack_regs:
  assumes "n_data_type n = Some t" and "t \<noteq> EDGE_DATA_DOUBLE" and "n_data_type n0 = Some t" and "bool_ok n"
  shows "node_member t (n_value (apply_registers_to_node n0 (snd (pack_node_to_registers cc n out)))) =
         node_member t (n_value n)"
proof -
  have b: "(union_get (n_value n) :: u8) = 0 \<or> (union_get (n_value n) :: u8) = 1" if "t = EDGE_DATA_BOOL"
    using assms(1,4) that by (auto simp: bool_ok_def)
  show ?thesis
  proof (cases t)
    case EDGE_DATA_BOOL
    with b [OF this] assms(1,3) show ?thesis
      by (auto simp: apply_registers_to_node_def pack_node_to_registers_def node_member_def)
  qed (use assms in \<open>simp_all add: apply_registers_to_node_def pack_node_to_registers_def node_member_def
      Let_def join_split32\<close>)
qed

text \<open>C22: writing is lossless for the discrete types: a boolean or integer value that is packed
  into registers and read by any node of the same type arrives unchanged, over the whole range of the
  type, high word first for 32-bit values.\<close>

theorem apply_pack_registers:
  assumes "n_data_type n = Some t" and "t \<noteq> EDGE_DATA_DOUBLE" and "n_data_type n0 = Some t" and "bool_ok n"
  shows "node_member t (n_value (apply_registers_to_node n0 (snd (pack_node_to_registers cc n out)))) =
         node_member t (n_value n)"
  by (rule apply_pack_regs [OF assms])

theorem apply_pack_registers_witness:
  "\<forall>cc. node_member EDGE_DATA_INT32 (n_value (apply_registers_to_node
      (zero_node\<lparr>n_data_type := Some EDGE_DATA_INT32\<rparr>)
      (snd (pack_node_to_registers cc
        (zero_node\<lparr>n_data_type := Some EDGE_DATA_INT32, n_value := union_put (- 70000 :: u32) 0\<rparr>) (0, 0))))) =
    - 70000"
proof
  fix cc
  let ?n = "zero_node\<lparr>n_data_type := Some EDGE_DATA_INT32, n_value := union_put (- 70000 :: u32) 0\<rparr>"
  have "node_member EDGE_DATA_INT32 (n_value ?n) = - 70000" by code_simp
  with apply_pack_registers [of ?n EDGE_DATA_INT32 "zero_node\<lparr>n_data_type := Some EDGE_DATA_INT32\<rparr>" cc "(0, 0)"]
  show "node_member EDGE_DATA_INT32 (n_value (apply_registers_to_node
      (zero_node\<lparr>n_data_type := Some EDGE_DATA_INT32\<rparr>) (snd (pack_node_to_registers cc ?n (0, 0))))) = - 70000"
    by (simp add: bool_ok_def)
qed

end
