(* ===== verification/Edge_Modbus.thy ===== *)
theory Edge_Modbus
  imports Edge_Registers
begin

text \<open>
  The Modbus client of \<open>src/edge_modbus.c\<close>: connection with back-off, polling and register
  writes.  \<open>modbus_api\<close> collects the libmodbus functions and the clock that the file calls, as
  functions on a state \<open>'m\<close> of everything behind them (network, devices, clock); a \<open>modbus_t *\<close> is
  a \<open>'c option\<close> with \<open>None\<close> for the null pointer.  A \<open>uint16_t[2]\<close> buffer is passed to a read and
  comes back with its new content.  The \<open>struct timespec\<close> that \<open>clock_gettime\<close> fills is the pair of
  its two 64-bit fields.  Every function of the source is called with pointers to existing objects,
  so the arguments stand for the objects and the null checks on them never fire.
\<close>

section \<open>The library below\<close>

record ('c, 'm) modbus_api =
  modbus_new_tcp :: "string \<Rightarrow> int \<Rightarrow> 'm \<Rightarrow> 'c option \<times> 'm"
  modbus_connect :: "'c option \<Rightarrow> 'm \<Rightarrow> int \<times> 'm"
  modbus_close :: "'c option \<Rightarrow> 'm \<Rightarrow> 'm"
  modbus_free :: "'c option \<Rightarrow> 'm \<Rightarrow> 'm"
  modbus_set_slave :: "'c option \<Rightarrow> int \<Rightarrow> 'm \<Rightarrow> int \<times> 'm"
  modbus_read_registers :: "'c option \<Rightarrow> int \<Rightarrow> int \<Rightarrow> reg_pair \<Rightarrow> 'm \<Rightarrow> int \<times> reg_pair \<times> 'm"
  modbus_write_register :: "'c option \<Rightarrow> int \<Rightarrow> int \<Rightarrow> 'm \<Rightarrow> int \<times> 'm"
  modbus_write_registers :: "'c option \<Rightarrow> int \<Rightarrow> int \<Rightarrow> reg_pair \<Rightarrow> 'm \<Rightarrow> int \<times> 'm"
  clock_gettime :: "'m \<Rightarrow> (u64 \<times> u64) \<times> 'm"

section \<open>State\<close>

definition EDGE_MODBUS_HOST_LEN :: nat where "EDGE_MODBUS_HOST_LEN = 64"
definition edge_modbus_register_base :: u32 where "edge_modbus_register_base = 40001"
definition edge_modbus_backoff_initial_us :: u64 where "edge_modbus_backoff_initial_us = 500000"
definition edge_modbus_backoff_max_us :: u64 where "edge_modbus_backoff_max_us = 30000000"

lemmas modbus_consts = EDGE_MODBUS_HOST_LEN_def edge_modbus_register_base_def
  edge_modbus_backoff_initial_us_def edge_modbus_backoff_max_us_def

record 'c EdgeModbus =
  mb_host :: string
  mb_port :: u16
  mb_connected :: bool
  mb_enabled :: bool
  mb_poll_count :: u64
  mb_read_ok_count :: u64
  mb_read_error_count :: u64
  mb_write_ok_count :: u64
  mb_write_error_count :: u64
  mb_next_connect_attempt_us :: u64
  mb_connect_backoff_us :: u64
  mb_ctx :: "'c option"

definition zero_modbus :: "'c EdgeModbus" where
  "zero_modbus = \<lparr>mb_host = [], mb_port = 0, mb_connected = False, mb_enabled = False,
     mb_poll_count = 0, mb_read_ok_count = 0, mb_read_error_count = 0, mb_write_ok_count = 0,
     mb_write_error_count = 0, mb_next_connect_attempt_us = 0, mb_connect_backoff_us = 0,
     mb_ctx = None\<rparr>"

section \<open>Connection\<close>

definition now_us :: "('c, 'm) modbus_api \<Rightarrow> 'm \<Rightarrow> u64 \<times> 'm" where
  "now_us api w =
     (let ((tv_sec, tv_nsec), w') = clock_gettime api w
      in (tv_sec * 1000000 + tv_nsec div 1000, w'))"

definition edge_modbus_init :: "string option \<Rightarrow> u16 \<Rightarrow> EdgeStatus \<times> 'c EdgeModbus" where
  "edge_modbus_init host port =
     (case host of
        None \<Rightarrow> (EDGE_STATUS_OK, zero_modbus\<lparr>mb_enabled := False\<rparr>)
      | Some h \<Rightarrow>
          if h = [] \<or> port = 0 then (EDGE_STATUS_OK, zero_modbus\<lparr>mb_enabled := False\<rparr>)
          else if length h \<ge> EDGE_MODBUS_HOST_LEN then (EDGE_STATUS_LIMIT, zero_modbus)
          else (EDGE_STATUS_OK, zero_modbus\<lparr>mb_host := h, mb_port := port, mb_enabled := True\<rparr>))"

definition note_connect_failure ::
    "('c, 'm) modbus_api \<Rightarrow> 'c EdgeModbus \<Rightarrow> 'm \<Rightarrow> 'c EdgeModbus \<times> 'm" where
  "note_connect_failure api mb w =
     (let next0 = (if mb_connect_backoff_us mb = 0 then edge_modbus_backoff_initial_us
                   else mb_connect_backoff_us mb * 2);
          next1 = (if next0 > edge_modbus_backoff_max_us then edge_modbus_backoff_max_us else next0);
          (now, w') = now_us api w
      in (mb\<lparr>mb_connect_backoff_us := next1, mb_next_connect_attempt_us := now + next1\<rparr>, w'))"

definition edge_modbus_connect ::
    "('c, 'm) modbus_api \<Rightarrow> 'c EdgeModbus \<Rightarrow> 'm \<Rightarrow> EdgeStatus \<times> 'c EdgeModbus \<times> 'm" where
  "edge_modbus_connect api mb w =
     (if \<not> mb_enabled mb then (EDGE_STATUS_OK, mb, w)
      else if mb_connected mb then (EDGE_STATUS_OK, mb, w)
      else let (wait, w1) =
             (if mb_next_connect_attempt_us mb \<noteq> 0
              then let (now, w') = now_us api w in (now < mb_next_connect_attempt_us mb, w')
              else (False, w))
           in if wait then (EDGE_STATUS_ERROR, mb, w1)
              else let (ctx, w2) = modbus_new_tcp api (mb_host mb) (uint (mb_port mb)) w1
                   in if ctx = None
                      then let (mb', w3) = note_connect_failure api mb w2
                           in (EDGE_STATUS_ERROR, mb', w3)
                      else let (rc, w3) = modbus_connect api ctx w2
                           in if rc = - 1
                              then let w4 = modbus_free api ctx w3;
                                       (mb', w5) = note_connect_failure api mb w4
                                   in (EDGE_STATUS_ERROR, mb', w5)
                              else (EDGE_STATUS_OK,
                                    mb\<lparr>mb_ctx := ctx, mb_connected := True,
                                      mb_connect_backoff_us := 0, mb_next_connect_attempt_us := 0\<rparr>,
                                    w3))"

definition edge_modbus_disconnect ::
    "('c, 'm) modbus_api \<Rightarrow> 'c EdgeModbus \<Rightarrow> 'm \<Rightarrow> 'c EdgeModbus \<times> 'm" where
  "edge_modbus_disconnect api mb w =
     (if mb_ctx mb = None then (mb, w)
      else (mb\<lparr>mb_ctx := None, mb_connected := False\<rparr>,
            modbus_free api (mb_ctx mb) (modbus_close api (mb_ctx mb) w)))"

definition edge_modbus_clear ::
    "('c, 'm) modbus_api \<Rightarrow> 'c EdgeModbus \<Rightarrow> 'm \<Rightarrow> 'c EdgeModbus \<times> 'm" where
  "edge_modbus_clear api mb w =
     (let (mb', w') = edge_modbus_disconnect api mb w in (zero_modbus, w'))"

section \<open>Polling\<close>

text \<open>The local variables of the polling loop with the objects it changes.\<close>

record ('c, 'm) PollState =
  ps_modbus :: "'c EdgeModbus"
  ps_model :: EdgeModel
  ps_current_unit :: u16
  ps_unit_set :: bool
  ps_world :: 'm

definition register_offset :: "EdgeNode \<Rightarrow> int" where
  "register_offset node = sint (n_modbus_register node - edge_modbus_register_base)"

text \<open>One iteration: \<open>None\<close> to go on with the next node, \<open>Some ()\<close> for the early return.\<close>

definition poll_node :: "('c, 'm) modbus_api \<Rightarrow> nat \<Rightarrow> ('c, 'm) PollState \<Rightarrow> unit option \<times> ('c, 'm) PollState" where
  "poll_node api i ps =
     (let node = m_nodes (ps_model ps) ! i; mb = ps_modbus ps in
      if n_modbus_register node < edge_modbus_register_base then (None, ps)
      else
        let offset = register_offset node;
            width = uint (register_width_for_node node);
            need = (\<not> ps_unit_set ps \<or> ps_current_unit ps \<noteq> n_modbus_unit node);
            (rc, w1) = (if need then modbus_set_slave api (mb_ctx mb) (uint (n_modbus_unit node)) (ps_world ps)
                        else (0, ps_world ps))
        in if need \<and> rc = - 1
           then (None, ps\<lparr>ps_modbus := mb\<lparr>mb_read_error_count := mb_read_error_count mb + 1\<rparr>,
                          ps_world := w1\<rparr>)
           else
             let ps1 = (if need then ps\<lparr>ps_current_unit := n_modbus_unit node, ps_unit_set := True\<rparr> else ps);
                 (read_count, reg_values, w2) =
                   modbus_read_registers api (mb_ctx mb) offset width (0, 0) w1
             in if read_count \<noteq> width
                then let (mb', w3) = edge_modbus_disconnect api
                           (mb\<lparr>mb_read_error_count := mb_read_error_count mb + 1\<rparr>) w2
                     in (Some (), ps1\<lparr>ps_modbus := mb', ps_world := w3\<rparr>)
                else (None, ps1\<lparr>ps_model := (ps_model ps)\<lparr>m_nodes := (m_nodes (ps_model ps))
                                   [i := apply_registers_to_node node reg_values]\<rparr>,
                                ps_modbus := mb\<lparr>mb_read_ok_count := mb_read_ok_count mb + 1\<rparr>,
                                ps_world := w2\<rparr>))"

definition edge_modbus_poll ::
    "('c, 'm) modbus_api \<Rightarrow> 'c EdgeModbus \<Rightarrow> EdgeModel \<Rightarrow> 'm \<Rightarrow>
     EdgeStatus \<times> 'c EdgeModbus \<times> EdgeModel \<times> 'm" where
  "edge_modbus_poll api mb0 model w =
     (let mb = mb0\<lparr>mb_poll_count := mb_poll_count mb0 + 1\<rparr> in
      if \<not> mb_enabled mb then (EDGE_STATUS_OK, mb, model, w)
      else let (st, mb1, w1) = (if \<not> mb_connected mb then edge_modbus_connect api mb w
                                else (EDGE_STATUS_OK, mb, w))
           in if \<not> mb_connected mb \<and> st \<noteq> EDGE_STATUS_OK then (EDGE_STATUS_OK, mb1, model, w1)
              else let (r, ps) = for_upto (length (m_nodes model)) (poll_node api)
                         \<lparr>ps_modbus = mb1, ps_model = model, ps_current_unit = 0, ps_unit_set = False,
                           ps_world = w1\<rparr>
                   in (EDGE_STATUS_OK, ps_modbus ps, ps_model ps, ps_world ps))"

section \<open>Writing\<close>

definition edge_modbus_write_node ::
    "c_impl \<Rightarrow> ('c, 'm) modbus_api \<Rightarrow> 'c EdgeModbus \<Rightarrow> EdgeNode \<Rightarrow> 'm \<Rightarrow>
     EdgeStatus \<times> 'c EdgeModbus \<times> 'm" where
  "edge_modbus_write_node cc api mb node w =
     (if \<not> mb_enabled mb then (EDGE_STATUS_OK, mb, w)
      else if \<not> n_writable node then (EDGE_STATUS_INVALID, mb, w)
      else if n_modbus_register node < edge_modbus_register_base then (EDGE_STATUS_INVALID, mb, w)
      else
        let (st, mb1, w1) = (if \<not> mb_connected mb then edge_modbus_connect api mb w
                             else (EDGE_STATUS_OK, mb, w))
        in if \<not> mb_connected mb \<and> st \<noteq> EDGE_STATUS_OK
           then (EDGE_STATUS_ERROR, mb1\<lparr>mb_write_error_count := mb_write_error_count mb1 + 1\<rparr>, w1)
           else
             let offset = register_offset node;
                 (rc, w2) = modbus_set_slave api (mb_ctx mb1) (uint (n_modbus_unit node)) w1
             in if rc = - 1
                then (EDGE_STATUS_ERROR, mb1\<lparr>mb_write_error_count := mb_write_error_count mb1 + 1\<rparr>, w2)
                else
                  let (width, vals) = pack_node_to_registers cc node (0, 0);
                      (rc, w3) = (if width = 1
                                  then modbus_write_register api (mb_ctx mb1) offset (uint (fst vals)) w2
                                  else modbus_write_registers api (mb_ctx mb1) offset (uint width) vals w2);
                      failed = (if width = 1 then rc \<noteq> 1 else rc \<noteq> uint width)
                  in if failed
                     then let (mb2, w4) = edge_modbus_disconnect api
                                (mb1\<lparr>mb_write_error_count := mb_write_error_count mb1 + 1\<rparr>) w3
                          in (EDGE_STATUS_ERROR, mb2, w4)
                     else (EDGE_STATUS_OK,
                           mb1\<lparr>mb_write_ok_count := mb_write_ok_count mb1 + 1\<rparr>, w3))"

section \<open>The connection invariant\<close>

text \<open>
  \<open>connected\<close> says exactly whether there is a library context; the back-off is zero or lies between
  its initial and its maximal value, and a connection resets it.
\<close>

definition mb_inv :: "'c EdgeModbus \<Rightarrow> bool" where
  "mb_inv mb =
     (length (mb_host mb) < EDGE_MODBUS_HOST_LEN \<and>
      (mb_connected mb \<longleftrightarrow> mb_ctx mb \<noteq> None) \<and> (mb_connected mb \<longrightarrow> mb_enabled mb) \<and>
      (mb_connect_backoff_us mb = 0 \<or>
       edge_modbus_backoff_initial_us \<le> mb_connect_backoff_us mb \<and>
       mb_connect_backoff_us mb \<le> edge_modbus_backoff_max_us) \<and>
      (mb_connected mb \<longrightarrow> mb_connect_backoff_us mb = 0 \<and> mb_next_connect_attempt_us mb = 0))"

definition next_backoff :: "u64 \<Rightarrow> u64" where
  "next_backoff b = (let n = (if b = 0 then edge_modbus_backoff_initial_us else b * 2)
     in if n > edge_modbus_backoff_max_us then edge_modbus_backoff_max_us else n)"

lemma note_connect_failure_eq:
  "note_connect_failure api mb w =
     (mb\<lparr>mb_connect_backoff_us := next_backoff (mb_connect_backoff_us mb),
        mb_next_connect_attempt_us := fst (now_us api w) + next_backoff (mb_connect_backoff_us mb)\<rparr>,
      snd (now_us api w))"
  by (simp add: note_connect_failure_def next_backoff_def Let_def case_prod_beta)

lemma next_backoff_range:
  assumes "b = 0 \<or> edge_modbus_backoff_initial_us \<le> b \<and> b \<le> edge_modbus_backoff_max_us"
  shows "edge_modbus_backoff_initial_us \<le> next_backoff b"
    and "next_backoff b \<le> edge_modbus_backoff_max_us"
    and "unat (next_backoff b) = (if b = 0 then 500000 else min (2 * unat b) 30000000)"
proof -
  have "unat (next_backoff b) = (if b = 0 then 500000 else min (2 * unat b) 30000000)"
  proof (cases "b = 0")
    case True
    then show ?thesis by (simp add: next_backoff_def modbus_consts)
  next
    case False
    with assms have "unat b \<le> 30000000" by (simp add: word_le_nat_alt modbus_consts)
    then have "unat (b * 2) = 2 * unat b" by (simp add: unat_word_ariths)
    with False show ?thesis
      by (auto simp: next_backoff_def modbus_consts word_less_nat_alt min_def)
  qed
  note u = this
  then show "unat (next_backoff b) = (if b = 0 then 500000 else min (2 * unat b) 30000000)" .
  have "b = 0 \<or> 500000 \<le> unat b" using assms by (auto simp: word_le_nat_alt modbus_consts)
  then show "edge_modbus_backoff_initial_us \<le> next_backoff b" "next_backoff b \<le> edge_modbus_backoff_max_us"
    unfolding word_le_nat_alt u by (auto simp: modbus_consts)
qed

text \<open>Everything the later proofs need of a connection attempt.\<close>

definition mb_counters :: "'c EdgeModbus \<Rightarrow> u64 list" where
  "mb_counters mb = [mb_poll_count mb, mb_read_ok_count mb, mb_read_error_count mb,
     mb_write_ok_count mb, mb_write_error_count mb]"

lemma connect_result:
  assumes "edge_modbus_connect api mb w = (st, mb', w')"
  shows "mb_inv mb \<Longrightarrow> mb_inv mb'"
    and "mb_counters mb' = mb_counters mb"
    and "mb_enabled mb' = mb_enabled mb"
    and "st = EDGE_STATUS_OK \<Longrightarrow> mb_enabled mb \<Longrightarrow> mb_connected mb'"
    and "st \<noteq> EDGE_STATUS_OK \<Longrightarrow> mb_connected mb' = mb_connected mb \<and> mb_ctx mb' = mb_ctx mb"
    and "st = EDGE_STATUS_OK \<or> st = EDGE_STATUS_ERROR"
  using assms next_backoff_range [of "mb_connect_backoff_us mb"]
  by (auto simp: edge_modbus_connect_def note_connect_failure_eq Let_def mb_inv_def mb_counters_def
      split: if_splits prod.splits)

lemma disconnect_result:
  "mb_inv mb \<Longrightarrow> mb_inv (fst (edge_modbus_disconnect api mb w))"
  "mb_counters (fst (edge_modbus_disconnect api mb w)) = mb_counters mb"
  "mb_inv mb \<Longrightarrow> \<not> mb_connected (fst (edge_modbus_disconnect api mb w))"
  "mb_enabled (fst (edge_modbus_disconnect api mb w)) = mb_enabled mb"
  by (auto simp: edge_modbus_disconnect_def mb_inv_def mb_counters_def)

lemma mb_inv_count [simp]:
  "mb_inv (mb_poll_count_update f mb) = mb_inv mb"
  "mb_inv (mb_read_ok_count_update f mb) = mb_inv mb"
  "mb_inv (mb_read_error_count_update f mb) = mb_inv mb"
  "mb_inv (mb_write_ok_count_update f mb) = mb_inv mb"
  "mb_inv (mb_write_error_count_update f mb) = mb_inv mb"
  by (simp_all add: mb_inv_def)

text \<open>The four outcomes of one polling iteration.\<close>

lemma poll_node_cases:
  fixes api :: "('c, 'm) modbus_api" and ps :: "('c, 'm) PollState" and i :: nat
  defines "node \<equiv> m_nodes (ps_model ps) ! i" and "mb \<equiv> ps_modbus ps"
  obtains
    (skip) "n_modbus_register node < edge_modbus_register_base" "poll_node api i ps = (None, ps)"
  | (no_slave) w1 where "\<not> n_modbus_register node < edge_modbus_register_base"
      "poll_node api i ps =
         (None, ps\<lparr>ps_modbus := mb\<lparr>mb_read_error_count := mb_read_error_count mb + 1\<rparr>, ps_world := w1\<rparr>)"
  | (failed) u b w2 where "\<not> n_modbus_register node < edge_modbus_register_base"
      "poll_node api i ps =
         (Some (), ps\<lparr>ps_current_unit := u, ps_unit_set := b,
            ps_modbus := fst (edge_modbus_disconnect api (mb\<lparr>mb_read_error_count := mb_read_error_count mb + 1\<rparr>) w2),
            ps_world := snd (edge_modbus_disconnect api (mb\<lparr>mb_read_error_count := mb_read_error_count mb + 1\<rparr>) w2)\<rparr>)"
  | (ok) raw w2 where "\<not> n_modbus_register node < edge_modbus_register_base"
      "poll_node api i ps =
         (None, ps\<lparr>ps_current_unit := n_modbus_unit node, ps_unit_set := True,
            ps_model := (ps_model ps)\<lparr>m_nodes := (m_nodes (ps_model ps))[i := apply_registers_to_node node raw]\<rparr>,
            ps_modbus := mb\<lparr>mb_read_ok_count := mb_read_ok_count mb + 1\<rparr>, ps_world := w2\<rparr>)"
proof (cases "n_modbus_register node < edge_modbus_register_base")
  case True
  then have "poll_node api i ps = (None, ps)" by (simp add: poll_node_def node_def Let_def)
  with True skip show ?thesis by blast
next
  case ge: False
  define need where "need = (\<not> ps_unit_set ps \<or> ps_current_unit ps \<noteq> n_modbus_unit node)"
  define sl where "sl = (if need then modbus_set_slave api (mb_ctx mb) (uint (n_modbus_unit node)) (ps_world ps)
      else (0, ps_world ps))"
  define ps1 where "ps1 = (if need then ps\<lparr>ps_current_unit := n_modbus_unit node, ps_unit_set := True\<rparr> else ps)"
  have ps1: "ps1 = ps\<lparr>ps_current_unit := n_modbus_unit node, ps_unit_set := True\<rparr>"
    by (cases ps) (auto simp: ps1_def need_def)
  obtain rc raw w2 where rd: "modbus_read_registers api (mb_ctx mb) (register_offset node)
      (uint (register_width_for_node node)) (0, 0) (snd sl) = (rc, raw, w2)" by (metis prod_cases3)
  let ?err = "mb\<lparr>mb_read_error_count := mb_read_error_count mb + 1\<rparr>"
  have eq: "poll_node api i ps =
     (if need \<and> fst sl = - 1 then (None, ps\<lparr>ps_modbus := ?err, ps_world := snd sl\<rparr>)
      else if rc \<noteq> uint (register_width_for_node node)
      then (Some (), ps1\<lparr>ps_modbus := fst (edge_modbus_disconnect api ?err w2),
                         ps_world := snd (edge_modbus_disconnect api ?err w2)\<rparr>)
      else (None, ps1\<lparr>ps_model := (ps_model ps)\<lparr>m_nodes := (m_nodes (ps_model ps))
                         [i := apply_registers_to_node node raw]\<rparr>,
                      ps_modbus := mb\<lparr>mb_read_ok_count := mb_read_ok_count mb + 1\<rparr>, ps_world := w2\<rparr>))"
    unfolding poll_node_def Let_def node_def [symmetric] mb_def [symmetric] need_def [symmetric]
      sl_def [symmetric] ps1_def [symmetric]
    using ge rd by (simp add: case_prod_beta)
  show ?thesis
  proof (cases "need \<and> fst sl = - 1")
    case True
    show ?thesis by (rule no_slave [OF ge, of "snd sl"]) (simp add: eq True)
  next
    case slave: False
    show ?thesis
    proof (cases "rc = uint (register_width_for_node node)")
      case True
      show ?thesis by (rule ok [OF ge, of w2 raw]) (simp add: eq slave True ps1)
    next
      case False
      show ?thesis
        by (rule failed [OF ge, of w2 True "n_modbus_unit node"]) (simp add: eq slave False ps1)
    qed
  qed
qed

lemma poll_node_inv:
  assumes "mb_inv (ps_modbus ps)"
  shows "mb_inv (ps_modbus (snd (poll_node api i ps)))"
  by (cases rule: poll_node_cases [of ps i api]) (use assms in \<open>auto intro!: disconnect_result(1)\<close>)

lemma poll_loop_inv:
  assumes "mb_inv (ps_modbus ps)"
  shows "mb_inv (ps_modbus (snd (for_upto n (poll_node api) ps)))"
  by (rule for_in_invariant [where I = "\<lambda>ps. mb_inv (ps_modbus ps)", OF assms])
     (metis poll_node_inv snd_conv)

lemma poll_inv:
  assumes "mb_inv mb"
  shows "mb_inv (fst (snd (edge_modbus_poll api mb model w)))"
proof -
  let ?mb = "mb\<lparr>mb_poll_count := mb_poll_count mb + 1\<rparr>"
  obtain st mb1 w1 where c: "(if \<not> mb_connected mb then edge_modbus_connect api ?mb w
      else (EDGE_STATUS_OK, ?mb, w)) = (st, mb1, w1)" by (metis prod_cases3)
  have "mb_inv mb1"
  proof (cases "mb_connected mb")
    case True
    with c assms show ?thesis by auto
  next
    case False
    with c have "edge_modbus_connect api ?mb w = (st, mb1, w1)" by simp
    from connect_result(1) [OF this] assms show ?thesis by simp
  qed
  then show ?thesis
    using c assms by (simp add: edge_modbus_poll_def Let_def case_prod_beta poll_loop_inv)
qed

lemma write_node_inv:
  assumes "mb_inv mb"
  shows "mb_inv (fst (snd (edge_modbus_write_node cc api mb node w)))"
proof -
  obtain st mb1 w1 where c: "(if \<not> mb_connected mb then edge_modbus_connect api mb w
      else (EDGE_STATUS_OK, mb, w)) = (st, mb1, w1)" by (metis prod_cases3)
  have "mb_inv mb1"
  proof (cases "mb_connected mb")
    case True
    with c assms show ?thesis by auto
  next
    case False
    with c have "edge_modbus_connect api mb w = (st, mb1, w1)" by simp
    from connect_result(1) [OF this] assms show ?thesis by simp
  qed
  then show ?thesis
    unfolding edge_modbus_write_node_def c
    using assms by (simp add: Let_def case_prod_beta disconnect_result(1))
qed

section \<open>Every history of calls\<close>

text \<open>
  Any interleaving of the public operations, with arbitrary results of the library and arbitrary
  changes of the world in between.
\<close>

inductive modbus_step ::
    "c_impl \<Rightarrow> ('c, 'm) modbus_api \<Rightarrow> 'c EdgeModbus \<times> 'm \<Rightarrow> 'c EdgeModbus \<times> 'm \<Rightarrow> bool" for cc api where
  ms_connect: "edge_modbus_connect api mb w = (st, mb', w') \<Longrightarrow> modbus_step cc api (mb, w) (mb', w')"
| ms_disconnect: "edge_modbus_disconnect api mb w = (mb', w') \<Longrightarrow> modbus_step cc api (mb, w) (mb', w')"
| ms_poll: "edge_modbus_poll api mb model w = (st, mb', model', w') \<Longrightarrow> modbus_step cc api (mb, w) (mb', w')"
| ms_write: "edge_modbus_write_node cc api mb node w = (st, mb', w') \<Longrightarrow> modbus_step cc api (mb, w) (mb', w')"
| ms_clear: "edge_modbus_clear api mb w = (mb', w') \<Longrightarrow> modbus_step cc api (mb, w) (mb', w')"
| ms_world: "modbus_step cc api (mb, w) (mb, w')"

inductive_cases modbus_stepE: "modbus_step cc api s t"

lemma zero_modbus_inv: "mb_inv zero_modbus"
  by (simp add: mb_inv_def zero_modbus_def modbus_consts)

lemma init_inv: "mb_inv (snd (edge_modbus_init host port))"
  by (simp add: edge_modbus_init_def mb_inv_def zero_modbus_def modbus_consts split: option.split)

interpretation mbsys: invariant_system "modbus_step cc api" "\<lambda>(mb, w). mb_inv mb" for cc api
proof
  fix s t assume "modbus_step cc api s t" and "(\<lambda>(mb, w). mb_inv mb) s"
  then show "(\<lambda>(mb, w). mb_inv mb) t"
  proof cases
    case (ms_connect mb w st mb' w')
    with connect_result(1) [OF ms_connect(3)] \<open>(\<lambda>(mb, w). mb_inv mb) s\<close> show ?thesis by simp
  next
    case (ms_disconnect mb w mb' w')
    with disconnect_result(1) [of mb api w] \<open>(\<lambda>(mb, w). mb_inv mb) s\<close> show ?thesis by simp
  next
    case (ms_poll mb model w st mb' model' w')
    with poll_inv [of mb api model w] \<open>(\<lambda>(mb, w). mb_inv mb) s\<close> show ?thesis by simp
  next
    case (ms_write mb node w st mb' w')
    with write_node_inv [of mb cc api node w] \<open>(\<lambda>(mb, w). mb_inv mb) s\<close> show ?thesis by simp
  next
    case (ms_clear mb w mb' w')
    then show ?thesis using zero_modbus_inv by (simp add: edge_modbus_clear_def case_prod_beta)
  qed auto
qed

section \<open>A simulated line\<close>

text \<open>
  A device in memory that answers every request while it is up: it shows that the behaviour which
  the theorems below ask of the library can be had, and serves to evaluate the model.
\<close>

record sim_line =
  sl_up :: bool
  sl_unit :: "int option"
  sl_regs :: "int \<Rightarrow> int \<Rightarrow> u16"
  sl_clock :: u64

definition sim_api :: "(unit, sim_line) modbus_api" where
  "sim_api = \<lparr>modbus_new_tcp = (\<lambda>host port w. (Some (), w)),
     modbus_connect = (\<lambda>c w. if sl_up w then (0, w\<lparr>sl_unit := Some 255\<rparr>) else (- 1, w)),
     modbus_close = (\<lambda>c w. w\<lparr>sl_unit := None\<rparr>),
     modbus_free = (\<lambda>c w. w),
     modbus_set_slave = (\<lambda>c u w. if sl_unit w \<noteq> None \<and> 0 \<le> u \<and> u \<le> 247
        then (0, w\<lparr>sl_unit := Some u\<rparr>) else (- 1, w)),
     modbus_read_registers = (\<lambda>c a n dst w.
        case sl_unit w of None \<Rightarrow> (- 1, dst, w)
        | Some u \<Rightarrow> (n, (sl_regs w u a, if n = 2 then sl_regs w u (a + 1) else snd dst), w)),
     modbus_write_register = (\<lambda>c a v w.
        case sl_unit w of None \<Rightarrow> (- 1, w)
        | Some u \<Rightarrow> (1, w\<lparr>sl_regs := (sl_regs w)(u := (sl_regs w u)(a := of_int v))\<rparr>)),
     modbus_write_registers = (\<lambda>c a n vs w.
        case sl_unit w of None \<Rightarrow> (- 1, w)
        | Some u \<Rightarrow> (n, w\<lparr>sl_regs := (sl_regs w)(u := (sl_regs w u)(a := fst vs, a + 1 := snd vs))\<rparr>)),
     clock_gettime = (\<lambda>w. ((sl_clock w, 0), w))\<rparr>"

definition sim_start :: sim_line where
  "sim_start = \<lparr>sl_up = True, sl_unit = None, sl_regs = (\<lambda>u a. of_int (u * 100 + a)), sl_clock = 10\<rparr>"

definition sim_client :: "unit EdgeModbus" where
  "sim_client = zero_modbus\<lparr>mb_host := ''plc'', mb_port := 502, mb_enabled := True\<rparr>"

lemma sim_client_init: "edge_modbus_init (Some ''plc'') 502 = (EDGE_STATUS_OK, sim_client)"
  by (simp add: edge_modbus_init_def sim_client_def modbus_consts)

section \<open>Claims on the connection\<close>

text \<open>C23: after any sequence of connection attempts, polls, writes, disconnects and clears, with
  any behaviour of the library and the network, the client is marked connected exactly when it holds
  a library context, only an enabled client is connected, the host fits its buffer, and the back-off
  is zero or between half a second and thirty seconds, and zero while connected.\<close>

theorem modbus_connection_invariant:
  assumes "edge_modbus_init host port = (st, mb0)" and "(modbus_step cc api)\<^sup>*\<^sup>* (mb0, w0) (mb, w)"
  shows "(mb_connected mb \<longleftrightarrow> mb_ctx mb \<noteq> None) \<and> (mb_connected mb \<longrightarrow> mb_enabled mb) \<and>
    length (mb_host mb) < 64 \<and>
    (mb_connect_backoff_us mb = 0 \<or>
       500000 \<le> mb_connect_backoff_us mb \<and> mb_connect_backoff_us mb \<le> 30000000 \<and> \<not> mb_connected mb)"
proof -
  have "mb_inv mb0" using init_inv assms(1) by (metis snd_conv)
  with mbsys.reach_inv [OF assms(2)] have "mb_inv mb" by simp
  then show ?thesis by (auto simp: mb_inv_def modbus_consts)
qed

theorem modbus_connection_invariant_witness:
  "mb_connected (fst (snd (edge_modbus_connect sim_api sim_client sim_start))) \<and>
   mb_ctx (fst (snd (edge_modbus_connect sim_api sim_client sim_start))) \<noteq> None"
proof -
  obtain st mb w where c: "edge_modbus_connect sim_api sim_client sim_start = (st, mb, w)"
    by (metis prod_cases3)
  have "(modbus_step \<lparr>ub_int16 = \<lambda>_. 0, ub_int32 = \<lambda>_. 0, ub_uint32 = \<lambda>_. 0, ub_long = \<lambda>_. 0\<rparr>
      sim_api)\<^sup>*\<^sup>* (sim_client, sim_start) (mb, w)"
    by (rule r_into_rtranclp) (rule modbus_step.ms_connect [OF c])
  with sim_client_init have "mb_connected mb \<longleftrightarrow> mb_ctx mb \<noteq> None"
    by (rule modbus_connection_invariant [THEN conjunct1])
  moreover have "mb_connected (fst (snd (edge_modbus_connect sim_api sim_client sim_start)))" by code_simp
  ultimately show ?thesis by (simp add: c)
qed

text \<open>C29: while the back-off time of a failed attempt has not passed, a connection attempt fails
  at once: it changes nothing and calls nothing of the library but the clock.\<close>

theorem modbus_backoff_waits:
  assumes "mb_enabled mb" and "\<not> mb_connected mb" and "mb_next_connect_attempt_us mb \<noteq> 0"
    and "fst (now_us api w) < mb_next_connect_attempt_us mb"
  shows "edge_modbus_connect api mb w = (EDGE_STATUS_ERROR, mb, snd (clock_gettime api w))"
  using assms by (simp add: edge_modbus_connect_def Let_def case_prod_beta now_us_def)

definition sim_waiting :: "unit EdgeModbus" where
  "sim_waiting = sim_client\<lparr>mb_connect_backoff_us := 500000, mb_next_connect_attempt_us := 10500000\<rparr>"

theorem modbus_backoff_waits_witness:
  "edge_modbus_connect sim_api sim_waiting sim_start = (EDGE_STATUS_ERROR, sim_waiting, sim_start)"
proof -
  have "edge_modbus_connect sim_api sim_waiting sim_start =
      (EDGE_STATUS_ERROR, sim_waiting, snd (clock_gettime sim_api sim_start))"
    by (rule modbus_backoff_waits)
       (simp_all add: sim_waiting_def sim_client_def sim_start_def sim_api_def now_us_def zero_modbus_def)
  then show ?thesis by (simp add: sim_api_def)
qed



section \<open>Polling whatever the line does\<close>

text \<open>
  \<open>polled_prefix\<close> relates the model before and after the first \<open>k\<close> nodes were visited: each of them
  is as it was or holds some registers, applied to the old node; the rest is untouched.
\<close>

definition polled_prefix :: "nat \<Rightarrow> EdgeModel \<Rightarrow> EdgeModel \<Rightarrow> bool" where
  "polled_prefix k m m' =
     (m'\<lparr>m_nodes := []\<rparr> = m\<lparr>m_nodes := []\<rparr> \<and> length (m_nodes m') = length (m_nodes m) \<and>
      (\<forall>i < length (m_nodes m). m_nodes m' ! i = m_nodes m ! i \<or>
         i < k \<and> \<not> n_modbus_register (m_nodes m ! i) < edge_modbus_register_base \<and>
         (\<exists>raw. m_nodes m' ! i = apply_registers_to_node (m_nodes m ! i) raw)))"

lemma polled_prefix_refl: "polled_prefix k m m"
  by (simp add: polled_prefix_def)

lemma polled_prefix_mono: "polled_prefix k m m' \<Longrightarrow> k \<le> l \<Longrightarrow> polled_prefix l m m'"
  by (auto simp: polled_prefix_def)

lemma polled_prefix_step:
  assumes "polled_prefix i m m'" and "i < length (m_nodes m)"
    and "\<not> n_modbus_register (m_nodes m ! i) < edge_modbus_register_base"
  shows "polled_prefix (Suc i) m
    (m'\<lparr>m_nodes := (m_nodes m')[i := apply_registers_to_node (m_nodes m ! i) raw]\<rparr>)"
  unfolding polled_prefix_def
proof (intro conjI allI impI)
  show "m'\<lparr>m_nodes := (m_nodes m')[i := apply_registers_to_node (m_nodes m ! i) raw]\<rparr>\<lparr>m_nodes := []\<rparr> =
      m\<lparr>m_nodes := []\<rparr>" using assms(1) by (simp add: polled_prefix_def)
  show "length (m_nodes (m'\<lparr>m_nodes := (m_nodes m')[i := apply_registers_to_node (m_nodes m ! i) raw]\<rparr>)) =
      length (m_nodes m)" using assms(1) by (simp add: polled_prefix_def)
  fix j assume j: "j < length (m_nodes m)"
  have "length (m_nodes m') = length (m_nodes m)"
    and old: "m_nodes m' ! j = m_nodes m ! j \<or>
      j < i \<and> \<not> n_modbus_register (m_nodes m ! j) < edge_modbus_register_base \<and>
      (\<exists>raw. m_nodes m' ! j = apply_registers_to_node (m_nodes m ! j) raw)"
    using assms(1) j by (simp_all add: polled_prefix_def)
  with assms(2,3) j show "m_nodes (m'\<lparr>m_nodes := (m_nodes m')[i := apply_registers_to_node (m_nodes m ! i) raw]\<rparr>) ! j =
      m_nodes m ! j \<or> j < Suc i \<and> \<not> n_modbus_register (m_nodes m ! j) < edge_modbus_register_base \<and>
      (\<exists>raw'. m_nodes (m'\<lparr>m_nodes := (m_nodes m')[i := apply_registers_to_node (m_nodes m ! i) raw]\<rparr>) ! j =
         apply_registers_to_node (m_nodes m ! j) raw')"
    by (cases "j = i"; cases raw) auto
qed

lemma polled_prefix_untouched:
  "polled_prefix i m m' \<Longrightarrow> i < length (m_nodes m) \<Longrightarrow> m_nodes m' ! i = m_nodes m ! i"
  by (auto simp: polled_prefix_def)

definition poll_outcome :: "nat \<Rightarrow> EdgeModel \<Rightarrow> unit option \<times> ('c, 'm) PollState \<Rightarrow> bool" where
  "poll_outcome n m res =
     (case res of
        (None, ps) \<Rightarrow> polled_prefix n m (ps_model ps) \<and> mb_inv (ps_modbus ps)
      | (Some _, ps) \<Rightarrow> (\<exists>k < n. polled_prefix k m (ps_model ps)) \<and> mb_inv (ps_modbus ps) \<and>
                        \<not> mb_connected (ps_modbus ps))"

lemma poll_node_outcome:
  assumes "polled_prefix n m (ps_model ps)" and "mb_inv (ps_modbus ps)" and "n < length (m_nodes m)"
  shows "poll_outcome (Suc n) m (poll_node api n ps)"
proof -
  have at: "m_nodes (ps_model ps) ! n = m_nodes m ! n" by (rule polled_prefix_untouched [OF assms(1,3)])
  have more: "polled_prefix (Suc n) m (ps_model ps)" by (rule polled_prefix_mono [OF assms(1)]) simp
  note disc = disconnect_result(1,3) [of "(ps_modbus ps)\<lparr>mb_read_error_count :=
      mb_read_error_count (ps_modbus ps) + 1\<rparr>" api]
  show ?thesis
  proof (cases rule: poll_node_cases [of ps n api])
    case (ok raw w2)
    then show ?thesis
      using assms(2) polled_prefix_step [OF assms(1,3), of raw] at by (simp add: poll_outcome_def)
  qed (use assms more disc in \<open>auto simp: poll_outcome_def\<close>)
qed

lemma poll_loop_outcome:
  assumes "mb_inv (ps_modbus ps)" and "n \<le> length (m_nodes (ps_model ps))"
  shows "poll_outcome n (ps_model ps) (for_upto n (poll_node api) ps)"
  using assms(2)
proof (induction n)
  case 0
  then show ?case using assms(1) by (simp add: polled_prefix_refl poll_outcome_def)
next
  case (Suc n)
  obtain r ps1 where loop: "for_upto n (poll_node api) ps = (r, ps1)" by fastforce
  show ?case
  proof (cases r)
    case (Some e)
    with Suc loop show ?thesis
      by (auto simp: for_upto_Suc poll_outcome_def less_Suc_eq simp del: upt_Suc)
  next
    case None
    with Suc loop have "polled_prefix n (ps_model ps) (ps_model ps1)" "mb_inv (ps_modbus ps1)"
      by (auto simp: poll_outcome_def)
    with Suc.prems have "poll_outcome (Suc n) (ps_model ps) (poll_node api n ps1)"
      by (intro poll_node_outcome) auto
    with None loop show ?thesis by (simp add: for_upto_Suc del: upt_Suc)
  qed
qed

text \<open>What a poll does up to the loop.\<close>

lemma poll_unfold [consumes 1, case_names no_link link]:
  fixes mb :: "'c EdgeModbus"
  assumes "mb_enabled mb"
  defines "mb0 \<equiv> mb\<lparr>mb_poll_count := mb_poll_count mb + 1\<rparr>"
  obtains (no_link) st mb1 w1 where "\<not> mb_connected mb" "edge_modbus_connect api mb0 w = (st, mb1, w1)"
      "st \<noteq> EDGE_STATUS_OK" "edge_modbus_poll api mb model w = (EDGE_STATUS_OK, mb1, model, w1)"
  | (link) mb1 w1 r ps where "mb_inv mb \<Longrightarrow> mb_inv mb1" "mb_connected mb \<Longrightarrow> mb1 = mb0 \<and> w1 = w"
      "for_upto (length (m_nodes model)) (poll_node api) \<lparr>ps_modbus = mb1, ps_model = model,
         ps_current_unit = 0, ps_unit_set = False, ps_world = w1\<rparr> = (r, ps)"
      "edge_modbus_poll api mb model w = (EDGE_STATUS_OK, ps_modbus ps, ps_model ps, ps_world ps)"
proof -
  define c where "c = (if \<not> mb_connected mb then edge_modbus_connect api mb0 w else (EDGE_STATUS_OK, mb0, w))"
  obtain st mb1 w1 where c3: "c = (st, mb1, w1)" by (metis prod_cases3)
  obtain r ps where loop: "for_upto (length (m_nodes model)) (poll_node api) \<lparr>ps_modbus = mb1,
      ps_model = model, ps_current_unit = 0, ps_unit_set = False, ps_world = w1\<rparr> = (r, ps)" by fastforce
  have c': "(if \<not> mb_connected mb0 then edge_modbus_connect api mb0 w else (EDGE_STATUS_OK, mb0, w)) = (st, mb1, w1)"
    using c3 by (simp add: c_def mb0_def)
  have eq: "edge_modbus_poll api mb model w =
      (if \<not> mb_connected mb \<and> st \<noteq> EDGE_STATUS_OK then (EDGE_STATUS_OK, mb1, model, w1)
       else (EDGE_STATUS_OK, ps_modbus ps, ps_model ps, ps_world ps))"
    unfolding edge_modbus_poll_def Let_def mb0_def [symmetric] c' prod.case loop
    using assms(1) by (simp add: mb0_def)
  show ?thesis
  proof (cases "\<not> mb_connected mb \<and> st \<noteq> EDGE_STATUS_OK")
    case True
    then have "edge_modbus_connect api mb0 w = (st, mb1, w1)" using c3 by (simp add: c_def)
    with True eq show ?thesis by (intro no_link) auto
  next
    case False
    have inv: "mb_inv mb1" if "mb_inv mb"
    proof (cases "mb_connected mb")
      case True
      with c3 that show ?thesis by (auto simp: c_def mb0_def)
    next
      case False
      then have "edge_modbus_connect api mb0 w = (st, mb1, w1)" using c3 by (simp add: c_def)
      from connect_result(1) [OF this] that show ?thesis by (simp add: mb0_def)
    qed
    show ?thesis by (rule link [OF inv _ loop]) (use c3 eq False in \<open>auto simp: c_def\<close>)
  qed
qed

lemma poll_safe:
  assumes "mb_inv mb" and "edge_modbus_poll api mb model w = (st, mb', model', w')"
  shows "st = EDGE_STATUS_OK \<and> mb_inv mb' \<and>
    (\<exists>k \<le> length (m_nodes model). polled_prefix k model model' \<and>
       (k < length (m_nodes model) \<longrightarrow> \<not> mb_connected mb' ))"
proof (cases "mb_enabled mb")
  case False
  with assms have "st = EDGE_STATUS_OK" "mb' = mb\<lparr>mb_poll_count := mb_poll_count mb + 1\<rparr>" "model' = model"
    by (simp_all add: edge_modbus_poll_def)
  with assms(1) False show ?thesis by (auto simp: polled_prefix_refl mb_inv_def)
next
  case True
  let ?n = "length (m_nodes model)"
  from True show ?thesis
  proof (cases rule: poll_unfold [of mb api w model])
    case (no_link st1 mb1 w1)
    have r: "st = EDGE_STATUS_OK" "mb' = mb1" "model' = model" using no_link(4) assms(2) by simp_all
    have "mb_inv mb1" using connect_result(1) [OF no_link(2)] assms(1) by simp
    with r show ?thesis by (auto intro!: exI [of _ ?n] polled_prefix_refl)
  next
    case (link mb1 w1 r ps)
    have res: "st = EDGE_STATUS_OK" "mb' = ps_modbus ps" "model' = ps_model ps"
      using link(4) assms(2) by simp_all
    have "poll_outcome ?n model (r, ps)"
      using poll_loop_outcome [of "\<lparr>ps_modbus = mb1, ps_model = model, ps_current_unit = 0,
          ps_unit_set = False, ps_world = w1\<rparr>" ?n api] link(1) [OF assms(1)] link(3) by simp
    with res show ?thesis
      by (cases r) (auto simp: poll_outcome_def intro: less_imp_le)
  qed
qed


definition sim_model :: EdgeModel where
  "sim_model = zero_model\<lparr>m_nodes := [sample_double,
     zero_node\<lparr>n_data_type := Some EDGE_DATA_UINT32, n_modbus_unit := 2, n_modbus_register := 40011\<rparr>,
     zero_node\<lparr>n_data_type := Some EDGE_DATA_INT16, n_modbus_unit := 2, n_modbus_register := 7\<rparr>]\<rparr>"

lemma sim_client_inv: "mb_inv sim_client"
  using init_inv sim_client_init by (metis snd_conv)


end
