(* ===== verification/Edge_Modbus_Line.thy ===== *)
theory Edge_Modbus_Line
  imports Edge_Modbus
begin

text \<open>
  Polling and writing over a line that answers.  \<open>answering_line\<close> states the documented behaviour
  of libmodbus against a device that answers every request: \<open>sel w c\<close> is the unit selected on a
  connected context, \<open>bank w u\<close> the holding registers of unit \<open>u\<close>.  Under it a poll delivers every
  mapped register and a write reaches the device.  The simulated line satisfies it.
\<close>

definition answering_line ::
    "('c, 'm) modbus_api \<Rightarrow> ('m \<Rightarrow> 'c \<Rightarrow> int option) \<Rightarrow> ('m \<Rightarrow> int \<Rightarrow> int \<Rightarrow> u16) \<Rightarrow> bool" where
  "answering_line api sel bank =
     (\<forall>w c u. sel w c = Some u \<longrightarrow>
        (\<forall>v. 0 \<le> v \<and> v \<le> 247 \<longrightarrow> (\<exists>w'. modbus_set_slave api (Some c) v w = (0, w') \<and>
           sel w' c = Some v \<and> bank w' = bank w)) \<and>
        (\<forall>a dst. \<exists>w'. modbus_read_registers api (Some c) a 1 dst w = (1, (bank w u a, snd dst), w') \<and>
           sel w' c = Some u \<and> bank w' = bank w) \<and>
        (\<forall>a dst. \<exists>w'. modbus_read_registers api (Some c) a 2 dst w = (2, (bank w u a, bank w u (a + 1)), w') \<and>
           sel w' c = Some u \<and> bank w' = bank w) \<and>
        (\<forall>a x. \<exists>w'. modbus_write_register api (Some c) a (uint x) w = (1, w') \<and>
           sel w' c = Some u \<and> bank w' = (bank w)(u := (bank w u)(a := x))) \<and>
        (\<forall>a vs. \<exists>w'. modbus_write_registers api (Some c) a 2 vs w = (2, w') \<and>
           sel w' c = Some u \<and> bank w' = (bank w)(u := (bank w u)(a := fst vs, a + 1 := snd vs))))"

lemma line_laws:
  assumes "answering_line api sel bank" and "sel w c = Some u"
  shows "0 \<le> v \<Longrightarrow> v \<le> 247 \<Longrightarrow> \<exists>w'. modbus_set_slave api (Some c) v w = (0, w') \<and>
           sel w' c = Some v \<and> bank w' = bank w"
    and "\<exists>w'. modbus_read_registers api (Some c) a 1 dst w = (1, (bank w u a, snd dst), w') \<and>
           sel w' c = Some u \<and> bank w' = bank w"
    and "\<exists>w'. modbus_read_registers api (Some c) a 2 dst w = (2, (bank w u a, bank w u (a + 1)), w') \<and>
           sel w' c = Some u \<and> bank w' = bank w"
    and "\<exists>w'. modbus_write_register api (Some c) a (uint x) w = (1, w') \<and>
           sel w' c = Some u \<and> bank w' = (bank w)(u := (bank w u)(a := x))"
    and "\<exists>w'. modbus_write_registers api (Some c) a 2 vs w = (2, w') \<and>
           sel w' c = Some u \<and> bank w' = (bank w)(u := (bank w u)(a := fst vs, a + 1 := snd vs))"
  using assms(1) [unfolded answering_line_def, THEN spec, THEN spec, THEN spec, THEN mp, OF assms(2)]
  by blast+

lemma line_set_slave:
  assumes "answering_line api sel bank" and "sel w c = Some u" and "unat (v :: u16) \<le> 247"
  obtains w' where "modbus_set_slave api (Some c) (uint v) w = (0, w')" "sel w' c = Some (uint v)"
    "bank w' = bank w"
proof -
  have "int (unat v) \<le> 247" using assms(3) by linarith
  then have "0 \<le> uint v" "uint v \<le> 247" by simp_all
  from line_laws(1) [OF assms(1,2) this] show ?thesis by (elim exE conjE) (rule that)
qed

definition wide :: "EdgeNode \<Rightarrow> bool" where
  "wide n = (register_width_for_node n = 2)"

definition bank_pair :: "(int \<Rightarrow> int \<Rightarrow> u16) \<Rightarrow> EdgeNode \<Rightarrow> reg_pair" where
  "bank_pair b n = (let u = uint (n_modbus_unit n); a = register_offset n
     in (b u a, if wide n then b u (a + 1) else 0))"

lemma line_read:
  assumes "answering_line api sel bank" and "sel w c = Some (uint (n_modbus_unit n))"
  obtains w' where "modbus_read_registers api (Some c) (register_offset n)
      (uint (register_width_for_node n)) (0, 0) w = (uint (register_width_for_node n), bank_pair (bank w) n, w')"
    "sel w' c = sel w c" "bank w' = bank w"
proof (cases "wide n")
  case True
  then have "uint (register_width_for_node n) = 2" by (simp add: wide_def)
  moreover obtain w' where "modbus_read_registers api (Some c) (register_offset n) 2 (0, 0) w =
      (2, (bank w (uint (n_modbus_unit n)) (register_offset n), bank w (uint (n_modbus_unit n)) (register_offset n + 1)), w')"
      "sel w' c = Some (uint (n_modbus_unit n))" "bank w' = bank w"
    using line_laws(3) [OF assms] by blast
  ultimately show ?thesis using True assms(2) by (intro that [of w']) (simp_all add: bank_pair_def Let_def)
next
  case False
  then have "uint (register_width_for_node n) = 1" by (simp add: wide_def register_width_for_node_def split: if_splits)
  moreover obtain w' where "modbus_read_registers api (Some c) (register_offset n) 1 (0, 0) w =
      (1, (bank w (uint (n_modbus_unit n)) (register_offset n), snd (0 :: u16, 0)), w')"
      "sel w' c = Some (uint (n_modbus_unit n))" "bank w' = bank w"
    using line_laws(2) [OF assms] by blast
  ultimately show ?thesis using False assms(2) by (intro that [of w']) (simp_all add: bank_pair_def Let_def)
qed

section \<open>Polling\<close>

definition mapped :: "EdgeNode \<Rightarrow> bool" where
  "mapped n = (edge_modbus_register_base \<le> n_modbus_register n)"

definition polled :: "(int \<Rightarrow> int \<Rightarrow> u16) \<Rightarrow> EdgeNode \<Rightarrow> EdgeNode" where
  "polled b n = (if mapped n then apply_registers_to_node n (bank_pair b n) else n)"

text \<open>The state of the loop after the first \<open>i\<close> nodes.\<close>

definition poll_at :: "('m \<Rightarrow> 'c \<Rightarrow> int option) \<Rightarrow> ('m \<Rightarrow> int \<Rightarrow> int \<Rightarrow> u16) \<Rightarrow> (int \<Rightarrow> int \<Rightarrow> u16) \<Rightarrow> 'c \<Rightarrow>
    'c EdgeModbus \<Rightarrow> EdgeModel \<Rightarrow> nat \<Rightarrow> ('c, 'm) PollState \<Rightarrow> bool" where
  "poll_at sel bank b c mb model i ps =
     (ps_model ps = model\<lparr>m_nodes := map (polled b) (take i (m_nodes model)) @ drop i (m_nodes model)\<rparr> \<and>
      ps_modbus ps = mb\<lparr>mb_read_ok_count := mb_read_ok_count mb +
        of_nat (length (filter mapped (take i (m_nodes model))))\<rparr> \<and>
      bank (ps_world ps) = b \<and>
      (\<exists>u. sel (ps_world ps) c = Some u \<and> (ps_unit_set ps \<longrightarrow> u = uint (ps_current_unit ps))))"

lemma poll_node_answering:
  assumes line: "answering_line api sel bank" and ctx: "mb_ctx mb = Some c"
    and i: "i < length (m_nodes model)" and unit: "unat (n_modbus_unit (m_nodes model ! i)) \<le> 247"
    and at: "poll_at sel bank b c mb model i ps"
  shows "\<exists>ps'. poll_node api i ps = (None, ps') \<and> poll_at sel bank b c mb model (Suc i) ps'"
proof -
  let ?ns = "m_nodes model" and ?n = "m_nodes model ! i"
  have node: "m_nodes (ps_model ps) ! i = ?n" using at i by (simp add: poll_at_def rewritten_update(2))
  have upd: "(m_nodes (ps_model ps))[i := polled b ?n] =
      map (polled b) (take (Suc i) ?ns) @ drop (Suc i) ?ns"
    using at rewritten_update(1) [OF i, of "polled b"] by (simp add: poll_at_def)
  have take: "take (Suc i) ?ns = take i ?ns @ [?n]" using i by (simp add: take_Suc_conv_app_nth)
  show ?thesis
  proof (cases "mapped ?n")
    case False
    then have "poll_node api i ps = (None, ps)"
      by (simp add: poll_node_def node mapped_def not_le Let_def)
    moreover have "map (polled b) (take (Suc i) ?ns) @ drop (Suc i) ?ns =
        map (polled b) (take i ?ns) @ drop i ?ns"
      using False i by (simp add: take polled_def Cons_nth_drop_Suc)
    ultimately show ?thesis using at False by (auto simp: poll_at_def take)
  next
    case True
    define need where "need = (\<not> ps_unit_set ps \<or> ps_current_unit ps \<noteq> n_modbus_unit ?n)"
    from at obtain u where u: "sel (ps_world ps) c = Some u"
      "ps_unit_set ps \<longrightarrow> u = uint (ps_current_unit ps)" by (auto simp: poll_at_def)
    obtain w1 where w1: "(if need then modbus_set_slave api (Some c) (uint (n_modbus_unit ?n)) (ps_world ps)
        else (0, ps_world ps)) = (0, w1)" "sel w1 c = Some (uint (n_modbus_unit ?n))" "bank w1 = b"
    proof (cases need)
      case True
      from line_set_slave [OF line u(1) unit] obtain w' where
        "modbus_set_slave api (Some c) (uint (n_modbus_unit ?n)) (ps_world ps) = (0, w')"
        "sel w' c = Some (uint (n_modbus_unit ?n))" "bank w' = bank (ps_world ps)" by blast
      with True at show ?thesis by (intro that) (auto simp: poll_at_def)
    next
      case False
      with u at show ?thesis by (intro that) (auto simp: poll_at_def need_def)
    qed
    from line_read [OF line w1(2)] obtain w2 where w2:
      "modbus_read_registers api (Some c) (register_offset ?n) (uint (register_width_for_node ?n)) (0, 0) w1 =
        (uint (register_width_for_node ?n), bank_pair b ?n, w2)"
      "sel w2 c = Some (uint (n_modbus_unit ?n))" "bank w2 = b" using w1 by metis
    have cx: "mb_ctx (ps_modbus ps) = Some c" using at ctx by (simp add: poll_at_def)
    let ?ps1 = "if need then ps\<lparr>ps_current_unit := n_modbus_unit ?n, ps_unit_set := True\<rparr> else ps"
    let ?ps' = "?ps1\<lparr>ps_model := (ps_model ps)\<lparr>m_nodes := (m_nodes (ps_model ps))[i := polled b ?n]\<rparr>,
        ps_modbus := (ps_modbus ps)\<lparr>mb_read_ok_count := mb_read_ok_count (ps_modbus ps) + 1\<rparr>, ps_world := w2\<rparr>"
    have "poll_node api i ps = (None, ?ps')"
      unfolding poll_node_def Let_def node need_def [symmetric] cx w1(1) prod.case w2(1)
      using True by (simp add: mapped_def polled_def not_less)
    moreover have "poll_at sel bank b c mb model (Suc i) ?ps'"
      using at True w2 unfolding poll_at_def upd by (auto simp: take need_def)
    ultimately show ?thesis by blast
  qed
qed

lemma poll_answering:
  assumes "answering_line api sel bank" and "mb_enabled mb" and "mb_connected mb"
    and "mb_ctx mb = Some c" and "sel w c = Some u"
    and "\<forall>n \<in> set (m_nodes model). unat (n_modbus_unit n) \<le> 247"
  shows "\<exists>w' u'. edge_modbus_poll api mb model w =
    (EDGE_STATUS_OK,
     mb\<lparr>mb_poll_count := mb_poll_count mb + 1,
        mb_read_ok_count := mb_read_ok_count mb + of_nat (length (filter mapped (m_nodes model)))\<rparr>,
     model\<lparr>m_nodes := map (polled (bank w)) (m_nodes model)\<rparr>, w') \<and> bank w' = bank w \<and> sel w' c = Some u'"
proof -
  let ?mb = "mb\<lparr>mb_poll_count := mb_poll_count mb + 1\<rparr>" and ?n = "length (m_nodes model)"
  let ?ps = "\<lparr>ps_modbus = ?mb, ps_model = model, ps_current_unit = 0, ps_unit_set = False, ps_world = w\<rparr>"
  have "\<exists>ps'. for_upto ?n (poll_node api) ?ps = (None, ps') \<and>
      poll_at sel bank (bank w) c ?mb model ?n ps'"
  proof (rule for_upto_total)
    show "poll_at sel bank (bank w) c ?mb model 0 ?ps" using assms(5) by (simp add: poll_at_def)
    fix i t assume "i < ?n" "poll_at sel bank (bank w) c ?mb model i t"
    with assms show "\<exists>t'. poll_node api i t = (None, t') \<and> poll_at sel bank (bank w) c ?mb model (Suc i) t'"
      by (intro poll_node_answering) auto
  qed
  then obtain ps' where "for_upto ?n (poll_node api) ?ps = (None, ps')"
    "poll_at sel bank (bank w) c ?mb model ?n ps'" by blast
  with assms(2,3) show ?thesis by (auto simp: edge_modbus_poll_def Let_def poll_at_def)
qed

text \<open>C8: over a line that answers, one poll brings every mapped node up to date with the device:
  each node that is mapped to a holding register holds the content of its registers, as read from its
  unit at its offset, nodes without a mapping keep their values, the read counter grows by the number
  of mapped nodes, no error is counted, and the client stays connected.\<close>

theorem modbus_poll_exact:
  assumes "answering_line api sel bank" and "mb_enabled mb" and "mb_connected mb"
    and "mb_ctx mb = Some c" and "sel w c = Some u"
    and "\<forall>n \<in> set (m_nodes model). unat (n_modbus_unit n) \<le> 247"
  shows "\<exists>w'. edge_modbus_poll api mb model w =
    (EDGE_STATUS_OK,
     mb\<lparr>mb_poll_count := mb_poll_count mb + 1,
        mb_read_ok_count := mb_read_ok_count mb + of_nat (length (filter mapped (m_nodes model)))\<rparr>,
     model\<lparr>m_nodes := map (polled (bank w)) (m_nodes model)\<rparr>, w') \<and> bank w' = bank w"
  using poll_answering [OF assms] by blast

definition sim_linked :: "unit EdgeModbus" where
  "sim_linked = sim_client\<lparr>mb_connected := True, mb_ctx := Some ()\<rparr>"

definition sim_open :: sim_line where
  "sim_open = sim_start\<lparr>sl_unit := Some 255\<rparr>"

lemma sim_answering: "answering_line sim_api (\<lambda>w c. sl_unit w) sl_regs"
  by (simp add: answering_line_def sim_api_def)

theorem modbus_poll_exact_witness:
  "\<exists>w'. edge_modbus_poll sim_api sim_linked sim_model sim_open =
    (EDGE_STATUS_OK, sim_linked\<lparr>mb_poll_count := 1, mb_read_ok_count := 2\<rparr>,
     sim_model\<lparr>m_nodes := map (polled (sl_regs sim_open)) (m_nodes sim_model)\<rparr>, w')"
proof -
  have units: "\<forall>n \<in> set (m_nodes sim_model). unat (n_modbus_unit n) \<le> 247"
    by (simp add: sim_model_def sample_double_def)
  have k: "filter mapped (m_nodes sim_model) = take 2 (m_nodes sim_model)"
    by (simp add: sim_model_def mapped_def modbus_consts sample_double_def zero_node_def)
  have "mb_enabled sim_linked" "mb_connected sim_linked" "mb_ctx sim_linked = Some ()"
    "sl_unit sim_open = Some 255" "mb_poll_count sim_linked = 0" "mb_read_ok_count sim_linked = 0"
    by (simp_all add: sim_linked_def sim_client_def zero_modbus_def sim_open_def)
  with modbus_poll_exact [OF sim_answering _ _ _ _ units, of sim_linked "()" sim_open 255] show ?thesis
    unfolding k by (auto simp: sim_model_def)
qed

section \<open>Writing\<close>

definition bank_store :: "(int \<Rightarrow> int \<Rightarrow> u16) \<Rightarrow> EdgeNode \<Rightarrow> reg_pair \<Rightarrow> int \<Rightarrow> int \<Rightarrow> u16" where
  "bank_store b n vals = (let u = uint (n_modbus_unit n); a = register_offset n in
     b(u := (if wide n then (b u)(a := fst vals, a + 1 := snd vals) else (b u)(a := fst vals))))"

text \<open>What a write stores is what a poll of the same node reads.\<close>

lemma bank_pair_store:
  "bank_pair (bank_store b n vals) n = (fst vals, if wide n then snd vals else 0)"
  by (simp add: bank_pair_def bank_store_def Let_def)

lemma pack_width: "fst (pack_node_to_registers cc n out) = (if wide n then 2 else 1)"
  using regs.width_pack [of cc n out] by (auto simp: wide_def register_width_for_node_def)

lemma write_node_answering:
  assumes "answering_line api sel bank" and "mb_enabled mb" and "mb_connected mb"
    and "mb_ctx mb = Some c" and "sel w c = Some u"
    and "n_writable node" and "mapped node" and "unat (n_modbus_unit node) \<le> 247"
  shows "\<exists>w'. edge_modbus_write_node cc api mb node w =
      (EDGE_STATUS_OK, mb\<lparr>mb_write_ok_count := mb_write_ok_count mb + 1\<rparr>, w') \<and>
    bank w' = bank_store (bank w) node (snd (pack_node_to_registers cc node (0, 0))) \<and>
    sel w' c = Some (uint (n_modbus_unit node))"
proof -
  from line_set_slave [OF assms(1,5,8)] obtain w1 where w1:
    "modbus_set_slave api (Some c) (uint (n_modbus_unit node)) w = (0, w1)"
    "sel w1 c = Some (uint (n_modbus_unit node))" "bank w1 = bank w" by blast
  obtain width vals where pk: "pack_node_to_registers cc node (0, 0) = (width, vals)" by (metis prod.collapse)
  have width: "width = (if wide node then 2 else 1)" using pack_width [of cc node "(0, 0)"] pk by simp
  have reg: "\<not> n_modbus_register node < edge_modbus_register_base" using assms(7) by (simp add: mapped_def)
  show ?thesis
  proof (cases "wide node")
    case True
    from line_laws(5) [OF assms(1) w1(2), of "register_offset node" vals] obtain w2 where
      "modbus_write_registers api (Some c) (register_offset node) 2 vals w1 = (2, w2)"
      "sel w2 c = Some (uint (n_modbus_unit node))"
      "bank w2 = (bank w1)(uint (n_modbus_unit node) := (bank w1 (uint (n_modbus_unit node)))
         (register_offset node := fst vals, register_offset node + 1 := snd vals))" by blast
    with True assms(2-6) reg w1 pk width show ?thesis
      by (simp add: edge_modbus_write_node_def bank_store_def Let_def)
  next
    case False
    from line_laws(4) [OF assms(1) w1(2), of "register_offset node" "fst vals"] obtain w2 where
      "modbus_write_register api (Some c) (register_offset node) (uint (fst vals)) w1 = (1, w2)"
      "sel w2 c = Some (uint (n_modbus_unit node))"
      "bank w2 = (bank w1)(uint (n_modbus_unit node) := (bank w1 (uint (n_modbus_unit node)))
         (register_offset node := fst vals))" by blast
    with False assms(2-6) reg w1 pk width show ?thesis
      by (simp add: edge_modbus_write_node_def bank_store_def Let_def)
  qed
qed

text \<open>C9: over a line that answers, a write of a writable, mapped node succeeds and changes exactly
  the registers of that node: they hold the packed value, in the unit and at the offset from which a
  poll of this node reads, and every other register of the plant keeps its content.\<close>

theorem modbus_write_exact:
  assumes "answering_line api sel bank" and "mb_enabled mb" and "mb_connected mb"
    and "mb_ctx mb = Some c" and "sel w c = Some u"
    and "n_writable node" and "mapped node" and "unat (n_modbus_unit node) \<le> 247"
  shows "\<exists>w'. edge_modbus_write_node cc api mb node w =
      (EDGE_STATUS_OK, mb\<lparr>mb_write_ok_count := mb_write_ok_count mb + 1\<rparr>, w') \<and>
    fst (bank_pair (bank w') node) = fst (snd (pack_node_to_registers cc node (0, 0))) \<and>
    (wide node \<longrightarrow> bank_pair (bank w') node = snd (pack_node_to_registers cc node (0, 0))) \<and>
    (\<forall>v a. \<not> (v = uint (n_modbus_unit node) \<and>
              (a = register_offset node \<or> wide node \<and> a = register_offset node + 1)) \<longrightarrow>
       bank w' v a = bank w v a)"
proof -
  obtain w' where w': "edge_modbus_write_node cc api mb node w =
      (EDGE_STATUS_OK, mb\<lparr>mb_write_ok_count := mb_write_ok_count mb + 1\<rparr>, w')"
    "bank w' = bank_store (bank w) node (snd (pack_node_to_registers cc node (0, 0)))"
    using write_node_answering [OF assms] by blast
  show ?thesis
    by (rule exI [of _ w']) (simp add: w' bank_pair_store, simp add: bank_store_def Let_def)
qed

theorem modbus_write_exact_witness:
  "\<exists>w'. edge_modbus_write_node \<lparr>ub_int16 = \<lambda>_. 0, ub_int32 = \<lambda>_. 0, ub_uint32 = \<lambda>_. 0, ub_long = \<lambda>_. 0\<rparr>
      sim_api sim_linked (sample_double\<lparr>n_data_type := Some EDGE_DATA_INT16, n_value := 5\<rparr>) sim_open =
    (EDGE_STATUS_OK, sim_linked\<lparr>mb_write_ok_count := 1\<rparr>, w') \<and> sl_regs w' 1 0 = 5"
proof -
  let ?cc = "\<lparr>ub_int16 = \<lambda>_. 0, ub_int32 = \<lambda>_. 0, ub_uint32 = \<lambda>_. 0, ub_long = \<lambda>_. 0\<rparr>"
  let ?n = "sample_double\<lparr>n_data_type := Some EDGE_DATA_INT16, n_value := 5\<rparr>"
  have a: "mb_enabled sim_linked" "mb_connected sim_linked" "mb_ctx sim_linked = Some ()"
    "sl_unit sim_open = Some 255" "mb_write_ok_count sim_linked = 0"
    by (simp_all add: sim_linked_def sim_client_def zero_modbus_def sim_open_def)
  have b: "n_writable ?n" "mapped ?n" "unat (n_modbus_unit ?n) \<le> 247"
    by (simp_all add: sample_double_def mapped_def modbus_consts)
  have c: "fst (snd (pack_node_to_registers ?cc ?n (0, 0))) = 5" by code_simp
  have d: "fst (bank_pair bk ?n) = bk 1 0" for bk
    by (simp add: bank_pair_def register_offset_def modbus_consts sample_double_def Let_def)
  show ?thesis
    using modbus_write_exact [OF sim_answering a(1-3), of sim_open 255 ?n ?cc] a(4,5) b c by (auto simp: d)
qed

end
