(* ===== verification/Edge_Runtime.thy ===== *)
theory Edge_Runtime
  imports Edge_Events Edge_Address_Space Edge_Modbus_Line
begin

text \<open>
  The periodic orchestration of \<open>src/edge_runtime.c\<close>.  \<open>Gateway\<close> holds the objects that the pointers of
  an \<open>EdgeRuntime\<close> point to, as \<open>main\<close> owns them, and the worlds behind the three libraries; the pointers
  themselves are kept as flags that say whether they are set.  \<open>EdgeLibs\<close> bundles the libraries and the
  choice of the compiler for undefined conversions.
\<close>

section \<open>State\<close>

record EdgeRuntime =
  rt_server :: bool
  rt_model :: bool
  rt_store :: bool
  rt_modbus :: bool
  rt_tick_count :: u64
  rt_persist_every_n_ticks :: u32
  rt_last_event_stats :: EdgeEventStats

definition zero_runtime :: EdgeRuntime where
  "zero_runtime = \<lparr>rt_server = False, rt_model = False, rt_store = False, rt_modbus = False,
     rt_tick_count = 0, rt_persist_every_n_ticks = 0, rt_last_event_stats = zero_stats\<rparr>"

record ('c, 'm, 'h, 'd, 'v, 'u) Gateway =
  gw_model :: EdgeModel
  gw_store :: "'h EdgeStore"
  gw_server :: "'v EdgeServer"
  gw_modbus :: "'c EdgeModbus"
  gw_runtime :: EdgeRuntime
  gw_line :: 'm
  gw_db :: 'd
  gw_ua :: 'u

record ('c, 'm, 'h, 's, 'd, 'v, 'u) EdgeLibs =
  lib_cc :: c_impl
  lib_modbus :: "('c, 'm) modbus_api"
  lib_sqlite :: "('h, 's, 'd) sqlite_api"
  lib_ua :: "('v, 'u) ua_api"

section \<open>Operations\<close>

text \<open>One iteration of the write-back loop, on the client, the model and the line.\<close>

definition drain_node :: "c_impl \<Rightarrow> ('c, 'm) modbus_api \<Rightarrow> nat \<Rightarrow> 'c EdgeModbus \<times> EdgeModel \<times> 'm \<Rightarrow>
    unit option \<times> 'c EdgeModbus \<times> EdgeModel \<times> 'm" where
  "drain_node cc api i s =
     (let (mb, model, w) = s; node = m_nodes model ! i in
      if \<not> n_writable node \<or> \<not> n_pending_write node then (None, s)
      else let (st, mb', w') = edge_modbus_write_node cc api mb node w
           in (None, mb', model\<lparr>m_nodes := (m_nodes model)[i := node\<lparr>n_pending_write := False\<rparr>]\<rparr>, w'))"

definition drain_pending_writes :: "c_impl \<Rightarrow> ('c, 'm) modbus_api \<Rightarrow> 'c EdgeModbus \<times> EdgeModel \<times> 'm \<Rightarrow>
    'c EdgeModbus \<times> EdgeModel \<times> 'm" where
  "drain_pending_writes cc api s = snd (for_upto (length (m_nodes (fst (snd s)))) (drain_node cc api) s)"

definition edge_runtime_init :: "EdgeRuntime \<Rightarrow> bool \<Rightarrow> bool \<Rightarrow> bool \<Rightarrow> bool \<Rightarrow> u32 \<Rightarrow> EdgeStatus \<times> EdgeRuntime" where
  "edge_runtime_init runtime server model store modbus persist_every_n_ticks =
     (if \<not> server \<or> \<not> model \<or> \<not> store \<or> \<not> modbus then (EDGE_STATUS_INVALID, runtime)
      else (EDGE_STATUS_OK, zero_runtime\<lparr>rt_server := server, rt_model := model, rt_store := store, rt_modbus := modbus,
        rt_persist_every_n_ticks := persist_every_n_ticks\<rparr>))"

definition edge_runtime_tick ::
    "('c, 'm, 'h, 's, 'd, 'v, 'u) EdgeLibs \<Rightarrow> ('c, 'm, 'h, 'd, 'v, 'u) Gateway \<Rightarrow> ('c, 'm, 'h, 'd, 'v, 'u) Gateway" where
  "edge_runtime_tick lib g =
     (let rt = gw_runtime g; rt = rt\<lparr>rt_tick_count := rt_tick_count rt + 1\<rparr>;
          (mb1, model1, w1) = drain_pending_writes (lib_cc lib) (lib_modbus lib) (gw_modbus g, gw_model g, gw_line g);
          (pst, mb2, model2, w2) = edge_modbus_poll (lib_modbus lib) mb1 model1 w1;
          (est, ev) = edge_events_evaluate (lib_sqlite lib) (lib_ua lib) (gw_store g) (Some (gw_server g))
             \<lparr>ev_model = model2, ev_stats = Some (rt_last_event_stats rt), ev_db = gw_db g, ev_ua = gw_ua g\<rparr>;
          rt = rt\<lparr>rt_last_event_stats := the (ev_stats ev)\<rparr>;
          (sst, d) = (if rt_persist_every_n_ticks rt \<noteq> 0 \<and> rt_tick_count rt mod ucast (rt_persist_every_n_ticks rt) = 0
                      then edge_store_persist_latest_values (lib_sqlite lib) (gw_store g) (ev_model ev) (ev_db ev)
                      else (EDGE_STATUS_OK, ev_db ev))
      in g\<lparr>gw_runtime := rt, gw_modbus := mb2, gw_line := w2, gw_model := ev_model ev, gw_ua := ev_ua ev, gw_db := d\<rparr>)"

definition runtime_tick_callback ::
    "('c, 'm, 'h, 's, 'd, 'v, 'u) EdgeLibs \<Rightarrow> ('c, 'm, 'h, 'd, 'v, 'u) Gateway \<Rightarrow> ('c, 'm, 'h, 'd, 'v, 'u) Gateway" where
  "runtime_tick_callback lib data = edge_runtime_tick lib data"

definition edge_runtime_register ::
    "('c, 'm, 'h, 's, 'd, 'v, 'u) EdgeLibs \<Rightarrow> f64 \<Rightarrow> u64 \<Rightarrow> ('c, 'm, 'h, 'd, 'v, 'u) Gateway \<Rightarrow>
     EdgeStatus \<times> u64 \<times> ('c, 'm, 'h, 'd, 'v, 'u) Gateway" where
  "edge_runtime_register lib interval_ms callback_id g =
     (if \<not> rt_server (gw_runtime g) \<or> sv_ua (gw_server g) = None then (EDGE_STATUS_INVALID, callback_id, g)
      else let (status, ua_id, u') = UA_Server_addRepeatedCallback (lib_ua lib) (sv_ua (gw_server g)) interval_ms (gw_ua g)
           in if status \<noteq> UA_STATUSCODE_GOOD then (EDGE_STATUS_ERROR, callback_id, g\<lparr>gw_ua := u'\<rparr>)
              else (EDGE_STATUS_OK, ua_id, g\<lparr>gw_ua := u'\<rparr>))"

definition edge_runtime_unregister ::
    "('c, 'm, 'h, 's, 'd, 'v, 'u) EdgeLibs \<Rightarrow> u64 \<Rightarrow> ('c, 'm, 'h, 'd, 'v, 'u) Gateway \<Rightarrow> ('c, 'm, 'h, 'd, 'v, 'u) Gateway" where
  "edge_runtime_unregister lib callback_id g =
     (if \<not> rt_server (gw_runtime g) \<or> sv_ua (gw_server g) = None \<or> callback_id = 0 then g
      else g\<lparr>gw_ua := UA_Server_removeCallback (lib_ua lib) (sv_ua (gw_server g)) callback_id (gw_ua g)\<rparr>)"

section \<open>What a tick keeps, whatever the libraries do\<close>

text \<open>The configuration of a model: everything but values, pending flags and latches.\<close>

definition node_config :: "EdgeNode \<Rightarrow> EdgeNode" where
  "node_config n = n\<lparr>n_value := 0, n_pending_write := False\<rparr>"

definition event_config :: "EdgeEvent \<Rightarrow> EdgeEvent" where
  "event_config e = e\<lparr>e_active := False\<rparr>"

definition model_config :: "EdgeModel \<Rightarrow> EdgeModel" where
  "model_config m = m\<lparr>m_nodes := map node_config (m_nodes m), m_events := map event_config (m_events m)\<rparr>"

text \<open>Every boolean value is 0 or 1, and only writable nodes wait for write-back.\<close>

definition node_inv :: "EdgeNode \<Rightarrow> bool" where
  "node_inv n = (bool_ok n \<and> (n_pending_write n \<longrightarrow> n_writable n))"

lemma apply_registers_inv:
  "node_config (apply_registers_to_node n raw) = node_config n"
  "node_inv n \<Longrightarrow> node_inv (apply_registers_to_node n raw)"
  "n_pending_write (apply_registers_to_node n raw) = n_pending_write n"
  by (auto simp: apply_registers_to_node_def node_config_def node_inv_def bool_ok_def Let_def
      split: option.splits EdgeDataType.splits)

text \<open>The write-back loop clears every pending flag and changes nothing else of the model.\<close>

definition drained :: "EdgeNode \<Rightarrow> EdgeNode" where
  "drained n = n\<lparr>n_pending_write := n_pending_write n \<and> \<not> n_writable n\<rparr>"

lemma drained_skip: "\<not> n_writable n \<or> \<not> n_pending_write n \<Longrightarrow> drained n = n"
  by (cases n) (auto simp: drained_def)

lemma drain_writes:
  fixes mb :: "'c EdgeModbus" and w :: 'm
  shows "\<exists>mb' w'. drain_pending_writes cc api (mb, m, w) = (mb', m\<lparr>m_nodes := map drained (m_nodes m)\<rparr>, w') \<and>
    (mb_inv mb \<longrightarrow> mb_inv mb')"
proof -
  let ?n = "length (m_nodes m)"
  define I where "I i t = (fst (snd t) = m\<lparr>m_nodes := map drained (take i (m_nodes m)) @ drop i (m_nodes m)\<rparr> \<and>
    (mb_inv mb \<longrightarrow> mb_inv (fst t)))" for i and t :: "'c EdgeModbus \<times> EdgeModel \<times> 'm"
  have "\<exists>t. for_upto ?n (drain_node cc api) (mb, m, w) = (None, t) \<and> I ?n t"
  proof (rule for_upto_total)
    show "I 0 (mb, m, w)" by (simp add: I_def)
    fix i t assume i: "i < ?n" and "I i t"
    obtain mb1 m1 w1 where t: "t = (mb1, m1, w1)" by (metis prod_cases3)
    with \<open>I i t\<close> have m1: "m1 = m\<lparr>m_nodes := map drained (take i (m_nodes m)) @ drop i (m_nodes m)\<rparr>"
      and inv: "mb_inv mb \<longrightarrow> mb_inv mb1" by (simp_all add: I_def)
    let ?node = "m_nodes m ! i"
    have node: "m_nodes m1 ! i = ?node" using rewritten_update(2) [OF i] by (simp add: m1)
    have upd: "(m_nodes m1)[i := drained ?node] = map drained (take (Suc i) (m_nodes m)) @ drop (Suc i) (m_nodes m)"
      using rewritten_update(1) [OF i, of drained] by (simp add: m1)
    show "\<exists>t'. drain_node cc api i t = (None, t') \<and> I (Suc i) t'"
    proof (cases "\<not> n_writable ?node \<or> \<not> n_pending_write ?node")
      case True
      then have "drain_node cc api i t = (None, t)" by (simp add: drain_node_def t node Let_def)
      moreover have "(m_nodes m1)[i := drained ?node] = m_nodes m1"
        by (metis drained_skip [OF True] node list_update_id)
      ultimately show ?thesis using inv upd by (simp add: I_def t) (simp add: m1)
    next
      case False
      obtain st mb2 w2 where wr: "edge_modbus_write_node cc api mb1 ?node w1 = (st, mb2, w2)" by (metis prod_cases3)
      have "mb_inv mb1 \<longrightarrow> mb_inv mb2" using write_node_inv [of mb1 cc api ?node w1] wr by simp
      moreover have "?node\<lparr>n_pending_write := False\<rparr> = drained ?node" using False by (simp add: drained_def)
      ultimately show ?thesis
        using False inv by (simp add: drain_node_def t node wr Let_def I_def upd) (simp add: m1)
    qed
  qed
  then obtain t where "for_upto ?n (drain_node cc api) (mb, m, w) = (None, t)" "I ?n t" by blast
  then show ?thesis by (cases t) (simp add: drain_pending_writes_def I_def)
qed

lemma drained_inv:
  "node_config (drained n) = node_config n" "node_inv n \<Longrightarrow> node_inv (drained n)"
  "node_inv n \<Longrightarrow> \<not> n_pending_write (drained n)"
  by (auto simp: drained_def node_config_def node_inv_def bool_ok_def)

text \<open>How a polled model relates to the one before.\<close>

lemma polled_prefix_nodes:
  assumes "polled_prefix k m m'"
  shows "model_config m' = model_config m"
    and "list_all P (m_nodes m) \<Longrightarrow> (\<And>n raw. P n \<Longrightarrow> P (apply_registers_to_node n raw)) \<Longrightarrow> list_all P (m_nodes m')"
proof -
  have len: "length (m_nodes m') = length (m_nodes m)" and rest: "m'\<lparr>m_nodes := []\<rparr> = m\<lparr>m_nodes := []\<rparr>"
    using assms by (simp_all add: polled_prefix_def)
  have at: "m_nodes m' ! i = m_nodes m ! i \<or> (\<exists>raw. m_nodes m' ! i = apply_registers_to_node (m_nodes m ! i) raw)"
    if "i < length (m_nodes m)" for i
    using assms that by (auto simp: polled_prefix_def)
  have "node_config (m_nodes m' ! i) = node_config (m_nodes m ! i)" if "i < length (m_nodes m)" for i
    using at [OF that] apply_registers_inv(1) by metis
  then have "map node_config (m_nodes m') = map node_config (m_nodes m)"
    by (intro nth_equalityI) (simp_all add: len)
  then show "model_config m' = model_config m"
    using rest by (cases m, cases m') (simp add: model_config_def)
  show "list_all P (m_nodes m')" if "list_all P (m_nodes m)" "\<And>n raw. P n \<Longrightarrow> P (apply_registers_to_node n raw)"
    unfolding list_all_length len using that at by (metis list_all_length)
qed

text \<open>The four phases of a tick.\<close>

definition persist_due :: "EdgeRuntime \<Rightarrow> bool" where
  "persist_due rt = (rt_persist_every_n_ticks rt \<noteq> 0 \<and>
     (rt_tick_count rt + 1) mod ucast (rt_persist_every_n_ticks rt) = 0)"

definition eval_start :: "EdgeModel \<Rightarrow> ('c, 'm, 'h, 'd, 'v, 'u) Gateway \<Rightarrow> ('d, 'u) EvalState" where
  "eval_start m g = \<lparr>ev_model = m, ev_stats = Some (rt_last_event_stats (gw_runtime g)), ev_db = gw_db g, ev_ua = gw_ua g\<rparr>"

lemma tick_phases:
  fixes lib :: "('c, 'm, 'h, 's, 'd, 'v, 'u) EdgeLibs"
  assumes "m1 = (gw_model g)\<lparr>m_nodes := map drained (m_nodes (gw_model g))\<rparr>"
  obtains mb1 w1 pst mb2 m2 w2 est ev d where
    "drain_pending_writes (lib_cc lib) (lib_modbus lib) (gw_modbus g, gw_model g, gw_line g) = (mb1, m1, w1)"
    "mb_inv (gw_modbus g) \<Longrightarrow> mb_inv mb1"
    "edge_modbus_poll (lib_modbus lib) mb1 m1 w1 = (pst, mb2, m2, w2)"
    "edge_events_evaluate (lib_sqlite lib) (lib_ua lib) (gw_store g) (Some (gw_server g)) (eval_start m2 g) = (est, ev)"
    "d = (if persist_due (gw_runtime g)
          then snd (edge_store_persist_latest_values (lib_sqlite lib) (gw_store g) (ev_model ev) (ev_db ev)) else ev_db ev)"
    "edge_runtime_tick lib g = g\<lparr>gw_runtime := (gw_runtime g)\<lparr>rt_tick_count := rt_tick_count (gw_runtime g) + 1,
         rt_last_event_stats := the (ev_stats ev)\<rparr>, gw_modbus := mb2, gw_line := w2, gw_model := ev_model ev,
       gw_ua := ev_ua ev, gw_db := d\<rparr>"
proof -
  obtain mb1 w1 where d: "drain_pending_writes (lib_cc lib) (lib_modbus lib) (gw_modbus g, gw_model g, gw_line g) = (mb1, m1, w1)"
    "mb_inv (gw_modbus g) \<longrightarrow> mb_inv mb1"
    using drain_writes [of "lib_cc lib" "lib_modbus lib" "gw_modbus g" "gw_model g" "gw_line g"] unfolding assms by blast
  obtain pst mb2 m2 w2 where p: "edge_modbus_poll (lib_modbus lib) mb1 m1 w1 = (pst, mb2, m2, w2)" by (metis prod_cases4)
  obtain est ev where e: "edge_events_evaluate (lib_sqlite lib) (lib_ua lib) (gw_store g) (Some (gw_server g)) (eval_start m2 g) = (est, ev)"
    by fastforce
  show ?thesis
    by (rule that [OF d(1) _ p e refl])
       (use d(2) in \<open>simp_all add: edge_runtime_tick_def Let_def d(1) p e [unfolded eval_start_def] persist_due_def case_prod_beta\<close>)
qed

text \<open>A pass over the events keeps the nodes and the configuration.\<close>

lemma pass_keeps:
  assumes "edge_events_evaluate sapi uapi store server s = (st, s')"
  shows "model_config (ev_model s') = model_config (ev_model s)" and "m_nodes (ev_model s') = m_nodes (ev_model s)"
proof -
  let ?es = "m_events (ev_model s)" and ?f = "latched (m_nodes (ev_model s))"
  have c: "event_config (?f e) = event_config e" for e by (simp add: event_config_def latched_def)
  have k: "map event_config (map ?f (take k ?es) @ drop k ?es) = map event_config ?es" for k
  proof -
    have "map event_config (map ?f (take k ?es) @ drop k ?es) = map event_config (take k ?es @ drop k ?es)"
      by (simp only: map_append map_map comp_def c)
    then show ?thesis by simp
  qed
  from pass_model [OF assms refl refl] obtain k
    where "ev_model s' = (ev_model s)\<lparr>m_events := map ?f (take k ?es) @ drop k ?es\<rparr>"
    by (metis append.right_neutral drop_all order_refl take_all)
  then show "model_config (ev_model s') = model_config (ev_model s)" "m_nodes (ev_model s') = m_nodes (ev_model s)"
    by (simp_all add: model_config_def k [unfolded map_append map_map])
qed

lemma tick_keeps:
  fixes lib :: "('c, 'm, 'h, 's, 'd, 'v, 'u) EdgeLibs" and g :: "('c, 'm, 'h, 'd, 'v, 'u) Gateway"
  assumes "mb_inv (gw_modbus g)"
  defines "g' \<equiv> edge_runtime_tick lib g"
  shows "model_config (gw_model g') = model_config (gw_model g)"
    and "mb_inv (gw_modbus g')"
    and "list_all node_inv (m_nodes (gw_model g)) \<Longrightarrow>
           list_all (\<lambda>n. node_inv n \<and> \<not> n_pending_write n) (m_nodes (gw_model g'))"
    and "gw_store g' = gw_store g" and "gw_server g' = gw_server g"
    and "rt_tick_count (gw_runtime g') = rt_tick_count (gw_runtime g) + 1"
    and "rt_persist_every_n_ticks (gw_runtime g') = rt_persist_every_n_ticks (gw_runtime g)"
proof -
  obtain mb1 w1 pst mb2 m2 w2 est ev d where
    dr: "mb_inv (gw_modbus g) \<Longrightarrow> mb_inv mb1"
    and po: "edge_modbus_poll (lib_modbus lib) mb1 ((gw_model g)\<lparr>m_nodes := map drained (m_nodes (gw_model g))\<rparr>) w1 = (pst, mb2, m2, w2)"
    and ev: "edge_events_evaluate (lib_sqlite lib) (lib_ua lib) (gw_store g) (Some (gw_server g)) (eval_start m2 g) = (est, ev)"
    and tick: "edge_runtime_tick lib g = g\<lparr>gw_runtime := (gw_runtime g)\<lparr>rt_tick_count := rt_tick_count (gw_runtime g) + 1,
         rt_last_event_stats := the (ev_stats ev)\<rparr>, gw_modbus := mb2, gw_line := w2, gw_model := ev_model ev,
       gw_ua := ev_ua ev, gw_db := d\<rparr>"
    by (rule tick_phases [where lib = lib and g = g, OF refl]) (rule that)
  note g' = tick [folded g'_def]
  let ?m1 = "(gw_model g)\<lparr>m_nodes := map drained (m_nodes (gw_model g))\<rparr>"
  note ps = poll_safe [OF dr [OF assms(1)] po]
  then obtain k where pre: "polled_prefix k ?m1 m2" by blast
  note keep = pass_keeps [OF ev]
  have "model_config m2 = model_config ?m1" by (rule polled_prefix_nodes(1) [OF pre])
  moreover have "model_config ?m1 = model_config (gw_model g)"
    by (simp add: model_config_def comp_def drained_inv(1))
  ultimately show "model_config (gw_model g') = model_config (gw_model g)"
    using keep(1) by (simp add: g' eval_start_def)
  show "mb_inv (gw_modbus g')" using ps by (simp add: g')
  show "list_all (\<lambda>n. node_inv n \<and> \<not> n_pending_write n) (m_nodes (gw_model g'))"
    if "list_all node_inv (m_nodes (gw_model g))"
  proof -
    have "list_all (\<lambda>n. node_inv n \<and> \<not> n_pending_write n) (m_nodes ?m1)"
      using that by (auto simp: list.pred_set drained_inv)
    then have "list_all (\<lambda>n. node_inv n \<and> \<not> n_pending_write n) (m_nodes m2)"
      by (rule polled_prefix_nodes(2) [OF pre]) (simp add: apply_registers_inv)
    then show ?thesis using keep(2) by (simp add: g' eval_start_def)
  qed
  show "gw_store g' = gw_store g" "gw_server g' = gw_server g"
    "rt_tick_count (gw_runtime g') = rt_tick_count (gw_runtime g) + 1"
    "rt_persist_every_n_ticks (gw_runtime g') = rt_persist_every_n_ticks (gw_runtime g)"
    by (simp_all add: g')
qed

end
