(* ===== verification/Edge_Gateway.thy ===== *)
theory Edge_Gateway
  imports Edge_Runtime
begin

text \<open>
  The running gateway: its periodic tick and the callbacks that OPC UA clients trigger, in any order,
  as a step relation, with the invariant that every history keeps.
\<close>

section \<open>Steps of the running gateway\<close>

text \<open>A client write on the variable of node \<open>k\<close>.\<close>

definition client_write :: "nat \<Rightarrow> ua_data_value \<Rightarrow> ('c, 'm, 'h, 'd, 'v, 'u) Gateway \<Rightarrow>
    u32 \<times> ('c, 'm, 'h, 'd, 'v, 'u) Gateway" where
  "client_write k x g =
     (let (st, n) = write_edge_node (Some (m_nodes (gw_model g) ! k)) (Some x)
      in (st, g\<lparr>gw_model := (gw_model g)\<lparr>m_nodes := (m_nodes (gw_model g))[k := the n]\<rparr>\<rparr>))"

definition client_read :: "nat \<Rightarrow> ('c, 'm, 'h, 'd, 'v, 'u) Gateway \<Rightarrow> ua_variant" where
  "client_read k g = ud_value (snd (read_edge_node (Some (m_nodes (gw_model g) ! k)) \<lparr>ud_hasValue = False, ud_value = UaOther\<rparr>))"

text \<open>
  Everything that can happen while the server runs: a tick, a client write to some variable (client
  reads change nothing), and any change of the worlds behind the libraries.
\<close>

inductive gateway_step ::
    "('c, 'm, 'h, 's, 'd, 'v, 'u) EdgeLibs \<Rightarrow> ('c, 'm, 'h, 'd, 'v, 'u) Gateway \<Rightarrow> ('c, 'm, 'h, 'd, 'v, 'u) Gateway \<Rightarrow> bool"
    for lib where
  gs_tick: "gateway_step lib g (runtime_tick_callback lib g)"
| gs_write: "k < length (m_nodes (gw_model g)) \<Longrightarrow> client_write k x g = (st, g') \<Longrightarrow> gateway_step lib g g'"
| gs_world: "gateway_step lib g (g\<lparr>gw_line := w, gw_db := d, gw_ua := u\<rparr>)"

inductive_cases gateway_stepE: "gateway_step lib g g'"

definition gw_inv :: "EdgeModel \<Rightarrow> 'h EdgeStore \<Rightarrow> 'v EdgeServer \<Rightarrow> ('c, 'm, 'h, 'd, 'v, 'u) Gateway \<Rightarrow> bool" where
  "gw_inv cfg store server g =
     (model_config (gw_model g) = cfg \<and> gw_store g = store \<and> gw_server g = server \<and>
      mb_inv (gw_modbus g) \<and> list_all node_inv (m_nodes (gw_model g)))"

lemma write_node_keeps:
  assumes "write_edge_node (Some n) x = (st, n')" and "node_inv n"
  shows "\<exists>n1. n' = Some n1 \<and> node_config n1 = node_config n \<and> node_inv n1"
proof (cases x)
  case None
  with assms show ?thesis by (auto simp: write_edge_node_def)
next
  case (Some dv)
  show ?thesis
  proof (cases "n_writable n \<and> ud_hasValue dv")
    case False
    with assms Some show ?thesis by (auto simp: write_edge_node_def)
  next
    case True
    with assms Some show ?thesis
      by (auto simp: write_edge_node_def node_config_def node_inv_def bool_ok_def
          split: option.splits EdgeDataType.splits ua_variant.splits)
  qed
qed

lemma client_write_inv:
  assumes "gw_inv cfg store server g" and "k < length (m_nodes (gw_model g))" and "client_write k x g = (st, g')"
  shows "gw_inv cfg store server g'"
proof -
  let ?ns = "m_nodes (gw_model g)" let ?n = "?ns ! k"
  obtain n' where w: "write_edge_node (Some ?n) (Some x) = (st, n')"
    "g' = g\<lparr>gw_model := (gw_model g)\<lparr>m_nodes := ?ns[k := the n']\<rparr>\<rparr>"
    using assms(3) by (auto simp: client_write_def Let_def split: prod.splits)
  have "node_inv ?n" using assms(1,2) by (simp add: gw_inv_def list_all_length)
  from write_node_keeps [OF w(1) this] obtain n1 where n1: "n' = Some n1" "node_config n1 = node_config ?n" "node_inv n1"
    by blast
  have "map node_config (?ns[k := n1]) = map node_config ?ns"
    by (metis map_update n1(2) list_update_id nth_map assms(2))
  moreover have "list_all node_inv (?ns[k := n1])"
    using assms(1) n1(3) by (auto simp: gw_inv_def list.pred_set dest: set_update_subset_insert [THEN subsetD])
  ultimately show ?thesis using assms(1) by (simp add: w(2) n1(1) gw_inv_def model_config_def)
qed

interpretation gwsys: invariant_system "gateway_step lib" "gw_inv cfg store server" for lib cfg store server
proof
  fix g g' assume "gateway_step lib g g'" and inv: "gw_inv cfg store server g"
  then show "gw_inv cfg store server g'"
  proof cases
    case gs_tick
    have mb: "mb_inv (gw_modbus g)" using inv by (simp add: gw_inv_def)
    show ?thesis
      using inv tick_keeps(1-5) [OF mb, of lib]
      by (auto simp: gs_tick runtime_tick_callback_def gw_inv_def list.pred_set)
  next
    case (gs_write k x st)
    then show ?thesis using client_write_inv [OF inv] by blast
  next
    case (gs_world w d u)
    then show ?thesis using inv by (simp add: gw_inv_def)
  qed
qed

text \<open>C18: the running gateway keeps its invariant: after any history of ticks and client writes, with
  any behaviour of the Modbus line, the database, the OPC UA library and the network, the configuration
  is the one that was loaded (only values, pending flags and latches have changed), every boolean value
  is 0 or 1, only writable nodes wait for write-back, and the Modbus client is marked connected exactly
  when it holds a context.\<close>

theorem gateway_invariant:
  assumes "(gateway_step lib)\<^sup>*\<^sup>* g0 g" and "mb_inv (gw_modbus g0)" and "list_all node_inv (m_nodes (gw_model g0))"
  shows "model_config (gw_model g) = model_config (gw_model g0) \<and> gw_store g = gw_store g0 \<and> gw_server g = gw_server g0 \<and>
    (\<forall>n \<in> set (m_nodes (gw_model g)). bool_ok n \<and> (n_pending_write n \<longrightarrow> n_writable n)) \<and>
    (mb_connected (gw_modbus g) \<longleftrightarrow> mb_ctx (gw_modbus g) \<noteq> None)"
proof -
  have "gw_inv (model_config (gw_model g0)) (gw_store g0) (gw_server g0) g0"
    using assms(2,3) by (simp add: gw_inv_def)
  from gwsys.reach_inv [OF assms(1) this] show ?thesis
    by (auto simp: gw_inv_def list.pred_set node_inv_def mb_inv_def)
qed

end
