(* ===== verification/Edge_Tick.thy ===== *)
theory Edge_Tick
  imports Edge_Gateway
begin

text \<open>
  What a tick does when the libraries work: over a line that answers, a database and a server that
  behave as documented, the tick of \<open>src/edge_runtime.c\<close> refines the specification \<open>spec_tick\<close> on the
  process image, in which every phase is a plain function.
\<close>

section \<open>Writing back over an answering line\<close>

definition to_write :: "EdgeNode \<Rightarrow> bool" where
  "to_write n = (n_writable n \<and> n_pending_write n \<and> mapped n)"

definition write_through :: "c_impl \<Rightarrow> (int \<Rightarrow> int \<Rightarrow> u16) \<Rightarrow> EdgeNode \<Rightarrow> int \<Rightarrow> int \<Rightarrow> u16" where
  "write_through cc b n = (if to_write n then bank_store b n (snd (pack_node_to_registers cc n (0, 0))) else b)"

lemma write_unmapped:
  "\<not> mapped node \<Longrightarrow> n_writable node \<Longrightarrow> mb_enabled mb \<Longrightarrow>
     edge_modbus_write_node cc api mb node w = (EDGE_STATUS_INVALID, mb, w)"
  by (simp add: edge_modbus_write_node_def mapped_def not_le)

lemma drain_answering:
  fixes mb :: "'c EdgeModbus" and w :: 'm
  assumes line: "answering_line api sel bank" and mb: "mb_enabled mb" "mb_connected mb" "mb_ctx mb = Some c"
    and sel: "sel w c = Some u" and units: "\<forall>n \<in> set (m_nodes m). unat (n_modbus_unit n) \<le> 247"
  shows "\<exists>w' u'. drain_pending_writes cc api (mb, m, w) =
      (mb\<lparr>mb_write_ok_count := mb_write_ok_count mb + of_nat (length (filter to_write (m_nodes m)))\<rparr>,
       m\<lparr>m_nodes := map drained (m_nodes m)\<rparr>, w') \<and>
    bank w' = foldl (write_through cc) (bank w) (m_nodes m) \<and> sel w' c = Some u'"
proof -
  let ?ns = "m_nodes m"
  define I where "I i t = (\<exists>w' u'. t = (mb\<lparr>mb_write_ok_count := mb_write_ok_count mb + of_nat (length (filter to_write (take i ?ns)))\<rparr>,
      m\<lparr>m_nodes := map drained (take i ?ns) @ drop i ?ns\<rparr>, w') \<and>
    bank w' = foldl (write_through cc) (bank w) (take i ?ns) \<and> sel w' c = Some u')"
    for i and t :: "'c EdgeModbus \<times> EdgeModel \<times> 'm"
  have "\<exists>t. for_upto (length ?ns) (drain_node cc api) (mb, m, w) = (None, t) \<and> I (length ?ns) t"
  proof (rule for_upto_total)
    show "I 0 (mb, m, w)" using sel by (simp add: I_def)
    fix i t assume i: "i < length ?ns" and "I i t"
    let ?n = "?ns ! i" and ?mb = "mb\<lparr>mb_write_ok_count := mb_write_ok_count mb + of_nat (length (filter to_write (take i ?ns)))\<rparr>"
    let ?m = "m\<lparr>m_nodes := map drained (take i ?ns) @ drop i ?ns\<rparr>"
    from \<open>I i t\<close> obtain w1 u1 where t: "t = (?mb, ?m, w1)" and w1: "bank w1 = foldl (write_through cc) (bank w) (take i ?ns)"
      "sel w1 c = Some u1" unfolding I_def by blast
    have node: "m_nodes ?m ! i = ?n" using rewritten_update(2) [OF i] by simp
    have upd: "(m_nodes ?m)[i := drained ?n] = map drained (take (Suc i) ?ns) @ drop (Suc i) ?ns"
      using rewritten_update(1) [OF i, of drained] by simp
    have take: "take (Suc i) ?ns = take i ?ns @ [?n]" using i by (simp add: take_Suc_conv_app_nth)
    show "\<exists>t'. drain_node cc api i t = (None, t') \<and> I (Suc i) t'"
    proof (cases "n_writable ?n \<and> n_pending_write ?n")
      case False
      have "drain_node cc api i t = (None, t)" using False unfolding drain_node_def t Let_def prod.case node by auto
      moreover have "(m_nodes ?m)[i := drained ?n] = m_nodes ?m"
        by (metis False drained_skip node list_update_id)
      then have "map drained (take i ?ns) @ drop i ?ns = map drained (take (Suc i) ?ns) @ drop (Suc i) ?ns"
        using upd by simp
      ultimately show ?thesis
        using False w1 by (auto simp: I_def t take write_through_def to_write_def)
    next
      case True
      then have dr: "?n\<lparr>n_pending_write := False\<rparr> = drained ?n" by (simp add: drained_def)
      have wr: "\<exists>w2 u2. edge_modbus_write_node cc api ?mb ?n w1 =
          (if mapped ?n then EDGE_STATUS_OK else EDGE_STATUS_INVALID,
           mb\<lparr>mb_write_ok_count := mb_write_ok_count mb + of_nat (length (filter to_write (take (Suc i) ?ns)))\<rparr>, w2) \<and>
          bank w2 = foldl (write_through cc) (bank w) (take (Suc i) ?ns) \<and> sel w2 c = Some u2"
      proof (cases "mapped ?n")
        case False
        with True mb w1 show ?thesis
          by (simp add: write_unmapped take write_through_def to_write_def)
      next
        case map: True
        have "unat (n_modbus_unit ?n) \<le> 247" using units i by simp
        with write_node_answering [OF line, of ?mb c w1 u1 ?n cc] mb w1 map True show ?thesis
          by (auto simp: take write_through_def to_write_def)
      qed
      then obtain w2 u2 where "edge_modbus_write_node cc api ?mb ?n w1 =
          (if mapped ?n then EDGE_STATUS_OK else EDGE_STATUS_INVALID,
           mb\<lparr>mb_write_ok_count := mb_write_ok_count mb + of_nat (length (filter to_write (take (Suc i) ?ns)))\<rparr>, w2)"
        "bank w2 = foldl (write_through cc) (bank w) (take (Suc i) ?ns)" "sel w2 c = Some u2" by blast
      moreover from this(1) have "drain_node cc api i t = (None,
          mb\<lparr>mb_write_ok_count := mb_write_ok_count mb + of_nat (length (filter to_write (take (Suc i) ?ns)))\<rparr>,
          m\<lparr>m_nodes := map drained (take (Suc i) ?ns) @ drop (Suc i) ?ns\<rparr>, w2)"
        using True unfolding drain_node_def t Let_def prod.case node dr upd by simp
      ultimately show ?thesis unfolding I_def by blast
    qed
  qed
  then obtain t where "for_upto (length ?ns) (drain_node cc api) (mb, m, w) = (None, t)" "I (length ?ns) t" by blast
  then show ?thesis by (auto simp: drain_pending_writes_def I_def)
qed

section \<open>The process image\<close>

text \<open>
  The specification of the gateway: the registers of the plant, the nodes and events, the event
  history, the notifications, the stored values and the tick count.
\<close>

record image =
  im_bank :: "int \<Rightarrow> int \<Rightarrow> u16"
  im_nodes :: "EdgeNode list"
  im_events :: "EdgeEvent list"
  im_history :: "history_row list"
  im_notes :: "ua_event list"
  im_latest :: latest_table
  im_ticks :: u64

definition due :: "u32 \<Rightarrow> u64 \<Rightarrow> bool" where
  "due period t = (period \<noteq> 0 \<and> t mod ucast period = 0)"

definition spec_tick :: "c_impl \<Rightarrow> u64 \<Rightarrow> u64 \<Rightarrow> u32 \<Rightarrow> image \<Rightarrow> image" where
  "spec_tick cc ns now period im =
     (let bank = foldl (write_through cc) (im_bank im) (im_nodes im);
          nodes = map (\<lambda>n. polled bank (drained n)) (im_nodes im);
          fired = filter (\<lambda>e. event_condition_met nodes e \<and> \<not> e_active e) (im_events im);
          ticks = im_ticks im + 1
      in \<lparr>im_bank = bank, im_nodes = nodes,
          im_events = map (\<lambda>e. e\<lparr>e_active := event_condition_met nodes e\<rparr>) (im_events im),
          im_history = im_history im @ map (event_row nodes now) fired,
          im_notes = im_notes im @ map (notification ns nodes) fired,
          im_latest = (if due period ticks \<and> list_all storable nodes then put_values nodes (im_latest im) else im_latest im),
          im_ticks = ticks\<rparr>)"

definition image_of :: "('m \<Rightarrow> int \<Rightarrow> int \<Rightarrow> u16) \<Rightarrow> ('d \<Rightarrow> 's db_view) \<Rightarrow> ('u \<Rightarrow> ua_event list) \<Rightarrow>
    ('c, 'm, 'h, 'd, 'v, 'u) Gateway \<Rightarrow> image" where
  "image_of bank view evlog g =
     \<lparr>im_bank = bank (gw_line g), im_nodes = m_nodes (gw_model g), im_events = m_events (gw_model g),
      im_history = dv_history (view (gw_db g)), im_notes = evlog (gw_ua g), im_latest = dv_latest (view (gw_db g)),
      im_ticks = rt_tick_count (gw_runtime g)\<rparr>"

text \<open>A gateway that is connected over a line that answers, and one whose database and server work too.\<close>

definition linked :: "('c, 'm) modbus_api \<Rightarrow> ('m \<Rightarrow> 'c \<Rightarrow> int option) \<Rightarrow> ('m \<Rightarrow> int \<Rightarrow> int \<Rightarrow> u16) \<Rightarrow> 'c \<Rightarrow>
    ('c, 'm, 'h, 'd, 'v, 'u) Gateway \<Rightarrow> bool" where
  "linked api sel bank c g =
     (answering_line api sel bank \<and> mb_enabled (gw_modbus g) \<and> mb_connected (gw_modbus g) \<and> mb_ctx (gw_modbus g) = Some c \<and>
      (\<exists>u. sel (gw_line g) c = Some u) \<and> (\<forall>n \<in> set (m_nodes (gw_model g)). unat (n_modbus_unit n) \<le> 247))"

definition working :: "('c, 'm, 'h, 's, 'd, 'v, 'u) EdgeLibs \<Rightarrow> ('m \<Rightarrow> 'c \<Rightarrow> int option) \<Rightarrow> ('m \<Rightarrow> int \<Rightarrow> int \<Rightarrow> u16) \<Rightarrow>
    'h \<Rightarrow> ('d \<Rightarrow> 's db_view) \<Rightarrow> 'v \<Rightarrow> u64 \<Rightarrow> ('u \<Rightarrow> ua_event list) \<Rightarrow> 'c \<Rightarrow> ('c, 'm, 'h, 'd, 'v, 'u) Gateway \<Rightarrow> bool" where
  "working lib sel bank h view v ns evlog c g =
     (linked (lib_modbus lib) sel bank c g \<and> sqlite_laws (lib_sqlite lib) h view \<and>
      ua_event_laws (lib_ua lib) v ns evlog \<and> gw_store g = \<lparr>es_db = Some h\<rparr> \<and> sv_ua (gw_server g) = Some v \<and>
      node_ids_fit (m_nodes (gw_model g)))"

lemma polled_drained_frame:
  "n_modbus_unit (polled b (drained n)) = n_modbus_unit n" "n_id (polled b (drained n)) = n_id n"
  "n_asset_id (polled b (drained n)) = n_asset_id n"
  by (simp_all add: polled_def drained_def frame_simps)

text \<open>The registers and the nodes after a tick depend on the line alone.\<close>

lemma tick_line:
  fixes lib :: "('c, 'm, 'h, 's, 'd, 'v, 'u) EdgeLibs"
  assumes linked: "linked (lib_modbus lib) sel bank c g"
    and bank': "bank' = foldl (write_through (lib_cc lib)) (bank (gw_line g)) (m_nodes (gw_model g))"
  shows "bank (gw_line (edge_runtime_tick lib g)) = bank'"
    and "m_nodes (gw_model (edge_runtime_tick lib g)) = map (\<lambda>n. polled bank' (drained n)) (m_nodes (gw_model g))"
    and "linked (lib_modbus lib) sel bank c (edge_runtime_tick lib g)"
    and "\<exists>est ev. edge_events_evaluate (lib_sqlite lib) (lib_ua lib) (gw_store g) (Some (gw_server g))
        (eval_start ((gw_model g)\<lparr>m_nodes := map (\<lambda>n. polled bank' (drained n)) (m_nodes (gw_model g))\<rparr>) g) = (est, ev) \<and>
      gw_model (edge_runtime_tick lib g) = ev_model ev \<and> gw_ua (edge_runtime_tick lib g) = ev_ua ev \<and>
      gw_db (edge_runtime_tick lib g) = (if persist_due (gw_runtime g)
        then snd (edge_store_persist_latest_values (lib_sqlite lib) (gw_store g) (ev_model ev) (ev_db ev)) else ev_db ev) \<and>
      gw_store (edge_runtime_tick lib g) = gw_store g \<and> gw_server (edge_runtime_tick lib g) = gw_server g \<and>
      rt_tick_count (gw_runtime (edge_runtime_tick lib g)) = rt_tick_count (gw_runtime g) + 1"
proof -
  let ?m = "gw_model g" let ?ns = "m_nodes ?m" let ?m1 = "?m\<lparr>m_nodes := map drained ?ns\<rparr>"
  let ?nodes = "map (\<lambda>n. polled bank' (drained n)) ?ns"
  have line: "answering_line (lib_modbus lib) sel bank" and units: "\<forall>n \<in> set ?ns. unat (n_modbus_unit n) \<le> 247"
    and mb: "mb_enabled (gw_modbus g)" "mb_connected (gw_modbus g)" "mb_ctx (gw_modbus g) = Some c"
    using linked by (simp_all add: linked_def)
  obtain u where sel: "sel (gw_line g) c = Some u" using linked by (auto simp: linked_def)
  obtain mb1 w1 pst mb2 m2 w2 est ev d where
    dr: "drain_pending_writes (lib_cc lib) (lib_modbus lib) (gw_modbus g, ?m, gw_line g) = (mb1, ?m1, w1)"
    and po: "edge_modbus_poll (lib_modbus lib) mb1 ?m1 w1 = (pst, mb2, m2, w2)"
    and ev: "edge_events_evaluate (lib_sqlite lib) (lib_ua lib) (gw_store g) (Some (gw_server g)) (eval_start m2 g) = (est, ev)"
    and d: "d = (if persist_due (gw_runtime g)
          then snd (edge_store_persist_latest_values (lib_sqlite lib) (gw_store g) (ev_model ev) (ev_db ev)) else ev_db ev)"
    and tick: "edge_runtime_tick lib g = g\<lparr>gw_runtime := (gw_runtime g)\<lparr>rt_tick_count := rt_tick_count (gw_runtime g) + 1,
         rt_last_event_stats := the (ev_stats ev)\<rparr>, gw_modbus := mb2, gw_line := w2, gw_model := ev_model ev,
       gw_ua := ev_ua ev, gw_db := d\<rparr>"
    by (rule tick_phases [where lib = lib and g = g, OF refl]) (rule that)
  obtain u1 where mb1: "mb_enabled mb1" "mb_connected mb1" "mb_ctx mb1 = Some c" and w1: "bank w1 = bank'" "sel w1 c = Some u1"
    using drain_answering [OF line mb sel units, of "lib_cc lib"] dr mb by (auto simp: bank')
  have units1: "\<forall>n \<in> set (m_nodes ?m1). unat (n_modbus_unit n) \<le> 247" using units by (simp add: drained_def)
  obtain u2 where m2: "m2 = ?m1\<lparr>m_nodes := map (polled bank') (m_nodes ?m1)\<rparr>"
    and mb2: "mb_enabled mb2" "mb_connected mb2" "mb_ctx mb2 = Some c" and w2: "bank w2 = bank'" "sel w2 c = Some u2"
    using poll_answering [OF line mb1 w1(2) units1] po mb1 unfolding w1(1) by auto
  have m2': "m2 = ?m\<lparr>m_nodes := ?nodes\<rparr>" by (simp add: m2 comp_def)
  have evn: "m_nodes (ev_model ev) = ?nodes" using pass_keeps(2) [OF ev] by (simp add: eval_start_def m2')
  show "bank (gw_line (edge_runtime_tick lib g)) = bank'" "m_nodes (gw_model (edge_runtime_tick lib g)) = ?nodes"
    by (simp_all add: tick w2 evn)
  show "linked (lib_modbus lib) sel bank c (edge_runtime_tick lib g)"
    using line mb2 w2 units by (simp add: linked_def tick evn polled_drained_frame)
  show "\<exists>est ev. edge_events_evaluate (lib_sqlite lib) (lib_ua lib) (gw_store g) (Some (gw_server g))
        (eval_start (?m\<lparr>m_nodes := ?nodes\<rparr>) g) = (est, ev) \<and>
      gw_model (edge_runtime_tick lib g) = ev_model ev \<and> gw_ua (edge_runtime_tick lib g) = ev_ua ev \<and>
      gw_db (edge_runtime_tick lib g) = (if persist_due (gw_runtime g)
        then snd (edge_store_persist_latest_values (lib_sqlite lib) (gw_store g) (ev_model ev) (ev_db ev)) else ev_db ev) \<and>
      gw_store (edge_runtime_tick lib g) = gw_store g \<and> gw_server (edge_runtime_tick lib g) = gw_server g \<and>
      rt_tick_count (gw_runtime (edge_runtime_tick lib g)) = rt_tick_count (gw_runtime g) + 1"
    using ev d by (simp add: tick m2')
qed

lemma tick_working:
  fixes lib :: "('c, 'm, 'h, 's, 'd, 'v, 'u) EdgeLibs"
  assumes w: "working lib sel bank h view v ns evlog c g"
    and im: "im = spec_tick (lib_cc lib) ns (fst (edge_time_now_ms (store_clock_gettime (lib_sqlite lib)) (gw_db g)))
      (rt_persist_every_n_ticks (gw_runtime g)) (image_of bank view evlog g)"
    and pr: "\<forall>e \<in> set (m_events (gw_model g)). printable (im_nodes im) e"
  shows "image_of bank view evlog (edge_runtime_tick lib g) = im"
    and "working lib sel bank h view v ns evlog c (edge_runtime_tick lib g)"
proof -
  let ?m = "gw_model g" let ?ns = "m_nodes ?m" let ?g' = "edge_runtime_tick lib g"
  let ?b = "foldl (write_through (lib_cc lib)) (bank (gw_line g)) ?ns"
  let ?nodes = "map (\<lambda>n. polled ?b (drained n)) ?ns"
  have link: "linked (lib_modbus lib) sel bank c g" and sq: "sqlite_laws (lib_sqlite lib) h view"
    and ua: "ua_event_laws (lib_ua lib) v ns evlog" and store: "gw_store g = \<lparr>es_db = Some h\<rparr>"
    and sv: "sv_ua (gw_server g) = Some v" and ids: "node_ids_fit ?ns"
    using w by (simp_all add: working_def)
  note line = tick_line [OF link refl]
  obtain est ev where ev: "edge_events_evaluate (lib_sqlite lib) (lib_ua lib) (gw_store g) (Some (gw_server g))
        (eval_start (?m\<lparr>m_nodes := ?nodes\<rparr>) g) = (est, ev)"
    and g': "gw_model ?g' = ev_model ev" "gw_ua ?g' = ev_ua ev" "gw_db ?g' = (if persist_due (gw_runtime g)
        then snd (edge_store_persist_latest_values (lib_sqlite lib) (gw_store g) (ev_model ev) (ev_db ev)) else ev_db ev)"
      "gw_store ?g' = gw_store g" "gw_server ?g' = gw_server g" "rt_tick_count (gw_runtime ?g') = rt_tick_count (gw_runtime g) + 1"
    using line(4) by blast
  have ch: "channel_ok (lib_ua lib) ns evlog (Some (gw_server g))" using sv ua by (simp add: channel_ok_def)
  have nodes: "im_nodes im = ?nodes" by (simp add: im spec_tick_def image_of_def Let_def)
  have "\<forall>e \<in> set (m_events (ev_model (eval_start (?m\<lparr>m_nodes := ?nodes\<rparr>) g))).
      printable (m_nodes (ev_model (eval_start (?m\<lparr>m_nodes := ?nodes\<rparr>) g))) e"
    using pr by (simp add: eval_start_def nodes)
  from evaluate_pass [OF sq ch this] ev store
  have at: "eval_at view evlog ns (fst (edge_time_now_ms (store_clock_gettime (lib_sqlite lib)) (gw_db g)))
      (Some (gw_server g)) (eval_start (?m\<lparr>m_nodes := ?nodes\<rparr>) g) (length (m_events ?m)) ev" by (auto simp: eval_start_def)
  have f: "fires ?nodes = (\<lambda>e. event_condition_met ?nodes e \<and> \<not> e_active e)"
    "latched ?nodes = (\<lambda>e. e\<lparr>e_active := event_condition_met ?nodes e\<rparr>)"
    by (simp_all add: fires_def latched_def fun_eq_iff)
  note at' = at [unfolded eval_at_def Let_def, simplified, unfolded eval_start_def, simplified, unfolded f]
  have evn: "m_nodes (ev_model ev) = ?nodes" using line(2) g'(1) by simp
  have fit: "node_ids_fit (m_nodes (ev_model ev))"
    using ids by (simp add: evn node_ids_fit_def list.pred_set polled_drained_frame)
  have pd: "persist_due (gw_runtime g) = due (rt_persist_every_n_ticks (gw_runtime g)) (rt_tick_count (gw_runtime g) + 1)"
    by (simp add: persist_due_def due_def)
  have db: "dv_history (view (gw_db ?g')) = im_history im" "dv_latest (view (gw_db ?g')) = im_latest im"
    using persist_values_ok [OF sq store fit, of "ev_db ev"] at'
    by (cases "list_all storable ?nodes"; auto simp: g'(3) pd evn im spec_tick_def image_of_def Let_def)+
  show "image_of bank view evlog ?g' = im"
    using at' db line(1,2) g' by (simp add: image_of_def im spec_tick_def Let_def)
  show "working lib sel bank h view v ns evlog c ?g'"
    using line(3) sq ua store sv g' fit by (simp add: working_def)
qed

section \<open>A sample gateway\<close>

definition sample_libs :: "(unit, sim_line, unit, nat, mem_db, unit, mem_server) EdgeLibs" where
  "sample_libs = \<lparr>lib_cc = \<lparr>ub_int16 = \<lambda>_. 0, ub_int32 = \<lambda>_. 0, ub_uint32 = \<lambda>_. 0, ub_long = \<lambda>_. 0\<rparr>,
     lib_modbus = sim_api, lib_sqlite = mem_api, lib_ua = mem_ua\<rparr>"

definition sample_setpoint :: EdgeNode where
  "sample_setpoint = zero_node\<lparr>n_id := ''sp'', n_asset_id := ''p'', n_data_type := Some EDGE_DATA_INT16,
     n_writable := True, n_modbus_unit := 1, n_modbus_register := 40001\<rparr>"

definition sample_gateway :: "(unit, sim_line, unit, mem_db, unit, mem_server) Gateway" where
  "sample_gateway = \<lparr>gw_model = sample_events\<lparr>m_nodes := [sample_setpoint]\<rparr>, gw_store = \<lparr>es_db = Some ()\<rparr>,
     gw_server = mem_server_on, gw_modbus = sim_linked, gw_runtime = snd (edge_runtime_init zero_runtime True True True True 2),
     gw_line = sim_open, gw_db = mem_empty, gw_ua = mem_fresh\<rparr>"

lemma sample_working:
  "working sample_libs (\<lambda>w c. sl_unit w) sl_regs () md_view () 2 ms_events () sample_gateway"
proof -
  have "node_ids_fit [sample_setpoint]" "unat (n_modbus_unit sample_setpoint) \<le> 247" by code_simp+
  moreover have "mb_enabled sim_linked" "mb_connected sim_linked" "mb_ctx sim_linked = Some ()" "sl_unit sim_open = Some 255"
    by (simp_all add: sim_linked_def sim_client_def zero_modbus_def sim_open_def)
  ultimately show ?thesis
    by (simp add: working_def linked_def sample_libs_def sample_gateway_def sim_answering mem_laws mem_ua_event_laws mem_server_on_def)
qed

text \<open>Sixteen-bit values always fit a message.\<close>

lemma sample_event_printable:
  assumes "e \<in> set (m_events sample_events)" and "n_data_type n = Some EDGE_DATA_INT16"
  shows "printable [n] e"
proof -
  have "source_value [n] e = source_value (sample_value (n_value n)) e"
    using assms by (auto simp: sample_events_def source_value_def edge_node_as_double_def sample_value_def)
  then have "printable [n] e = printable (sample_value (n_value n)) e" by (simp add: printable_def)
  with sample_value_printable [of e "n_value n"] assms(1) show ?thesis by (simp add: sample_eval_def)
qed

section \<open>Claims on the tick\<close>

text \<open>C1: with libraries that work, a tick of the gateway is exactly one step of its specification on
  the process image: pending commands of mapped nodes are written through to the registers in node order,
  then every mapped node takes the content of its registers, then the events are evaluated on these
  values, with their history rows and notifications, and on every \<open>n\<close>-th tick the values are stored; and
  the gateway stays connected and open, so that the next tick is such a step again.\<close>

theorem tick_refines:
  assumes "working lib sel bank h view v ns evlog c g"
    and "now = fst (edge_time_now_ms (store_clock_gettime (lib_sqlite lib)) (gw_db g))"
    and "im = spec_tick (lib_cc lib) ns now (rt_persist_every_n_ticks (gw_runtime g)) (image_of bank view evlog g)"
    and "\<forall>e \<in> set (m_events (gw_model g)). printable (im_nodes im) e"
  shows "image_of bank view evlog (edge_runtime_tick lib g) = im \<and>
    working lib sel bank h view v ns evlog c (edge_runtime_tick lib g)"
  using tick_working [OF assms(1) _ assms(4)] assms(2,3) by blast

lemma sample_tick_printable:
  assumes "im = spec_tick cc ns now period (image_of bank view evlog (sample_gateway\<lparr>gw_model := m\<rparr>))"
    and "m_nodes m = [n]" and "n_data_type n = Some EDGE_DATA_INT16" and "m_events m = m_events sample_events"
  shows "\<forall>e \<in> set (m_events m). printable (im_nodes im) e"
  using assms(2-4) by (auto simp: assms(1) spec_tick_def image_of_def Let_def polled_def drained_def frame_simps
      intro!: sample_event_printable)

theorem tick_refines_witness:
  "image_of sl_regs md_view ms_events (edge_runtime_tick sample_libs sample_gateway) =
    spec_tick (lib_cc sample_libs) 2 (fst (edge_time_now_ms (store_clock_gettime mem_api) mem_empty)) 2
      (image_of sl_regs md_view ms_events sample_gateway)"
proof -
  let ?g = sample_gateway
  have g: "?g\<lparr>gw_model := gw_model ?g\<rparr> = ?g" by simp
  have f: "gw_db ?g = mem_empty" "rt_persist_every_n_ticks (gw_runtime ?g) = 2" "lib_sqlite sample_libs = mem_api"
    by (simp_all add: sample_gateway_def edge_runtime_init_def sample_libs_def)
  have p: "\<forall>e \<in> set (m_events (gw_model ?g)). printable (im_nodes (spec_tick (lib_cc sample_libs) 2
      (fst (edge_time_now_ms (store_clock_gettime mem_api) mem_empty)) 2 (image_of sl_regs md_view ms_events ?g))) e"
    by (rule sample_tick_printable [where n = sample_setpoint and bank = sl_regs and view = md_view and evlog = ms_events and
          cc = "lib_cc sample_libs" and ns = 2 and period = 2 and
          now = "fst (edge_time_now_ms (store_clock_gettime mem_api) mem_empty)"])
       (simp_all add: g, simp_all add: sample_gateway_def sample_setpoint_def)
  show ?thesis
    using tick_refines [OF sample_working refl refl] p unfolding f by blast
qed

lemma sample_inv: "mb_inv (gw_modbus sample_gateway)" "list_all node_inv (m_nodes (gw_model sample_gateway))"
  by (simp_all add: sample_gateway_def sim_linked_def sim_client_def zero_modbus_def mb_inv_def EDGE_MODBUS_HOST_LEN_def
      node_inv_def sample_setpoint_def bool_ok_def zero_node_def)

text \<open>The invariant of every history, on a client write followed by a tick.\<close>

theorem gateway_invariant_witness:
  "model_config (gw_model (runtime_tick_callback sample_libs
      (snd (client_write 0 \<lparr>ud_hasValue = True, ud_value = UaInt16 9\<rparr> sample_gateway)))) = model_config (gw_model sample_gateway)"
proof -
  let ?x = "\<lparr>ud_hasValue = True, ud_value = UaInt16 9\<rparr>" and ?g = sample_gateway
  let ?g1 = "snd (client_write 0 ?x ?g)"
  have n: "m_nodes (gw_model ?g) = [sample_setpoint]" by (simp add: sample_gateway_def)
  have "gateway_step sample_libs ?g ?g1"
    by (rule gs_write [of 0 _ ?x "fst (client_write 0 ?x ?g)"]) (simp_all add: n)
  moreover have "gateway_step sample_libs ?g1 (runtime_tick_callback sample_libs ?g1)" by (rule gs_tick)
  ultimately have r: "(gateway_step sample_libs)\<^sup>*\<^sup>* ?g (runtime_tick_callback sample_libs ?g1)" by simp
  from gateway_invariant [OF r sample_inv] show ?thesis by blast
qed

end
