(* ===== verification/Edge_Delivery.thy ===== *)
theory Edge_Delivery
  imports Edge_Tick
begin

text \<open>
  What clients can rely on after a write: a command that was acknowledged reaches the device with the
  next tick when the line answers, and is lost when the device cannot be reached.
\<close>

section \<open>Commands and registers\<close>

definition reg_cells :: "EdgeNode \<Rightarrow> (int \<times> int) set" where
  "reg_cells n = (let u = uint (n_modbus_unit n); a = register_offset n in
     if wide n then {(u, a), (u, a + 1)} else {(u, a)})"

lemma write_through_other:
  "reg_cells m \<inter> reg_cells n = {} \<Longrightarrow> bank_pair (write_through cc b m) n = bank_pair b n"
  by (auto simp: write_through_def bank_pair_def bank_store_def reg_cells_def Let_def split: if_splits)

lemma write_through_all_other:
  "\<forall>m \<in> set ms. to_write m \<longrightarrow> reg_cells m \<inter> reg_cells n = {} \<Longrightarrow> bank_pair (foldl (write_through cc) b ms) n = bank_pair b n"
proof (induction ms arbitrary: b)
  case (Cons m ms)
  have "bank_pair (write_through cc b m) n = bank_pair b n"
    using Cons.prems write_through_other [of m n cc b] by (cases "to_write m") (simp_all add: write_through_def)
  with Cons show ?case by simp
qed simp

lemma pack_narrow: "\<not> wide n \<Longrightarrow> snd (snd (pack_node_to_registers cc n (0, 0))) = 0"
  by (auto simp: wide_def register_width_for_node_def pack_node_to_registers_def Let_def
      split: option.split EdgeDataType.split)

text \<open>The registers of a node that is written, when no other pending node shares them.\<close>

lemma write_through_own:
  assumes "k < length ns" and "to_write (ns ! k)"
    and "\<forall>j < length ns. j \<noteq> k \<and> to_write (ns ! j) \<longrightarrow> reg_cells (ns ! j) \<inter> reg_cells (ns ! k) = {}"
  shows "bank_pair (foldl (write_through cc) b ns) (ns ! k) = snd (pack_node_to_registers cc (ns ! k) (0, 0))"
proof -
  let ?n = "ns ! k"
  have split: "ns = take k ns @ ?n # drop (Suc k) ns" using assms(1) by (rule id_take_nth_drop)
  have later: "\<forall>m \<in> set (drop (Suc k) ns). to_write m \<longrightarrow> reg_cells m \<inter> reg_cells ?n = {}"
  proof (intro ballI impI)
    fix m assume "m \<in> set (drop (Suc k) ns)" and m: "to_write m"
    then obtain i where "i < length (drop (Suc k) ns)" "m = drop (Suc k) ns ! i" by (metis in_set_conv_nth)
    then have i: "Suc k + i < length ns" "m = ns ! (Suc k + i)" by simp_all
    then show "reg_cells m \<inter> reg_cells ?n = {}" using assms(3) m by (metis add_Suc less_add_Suc1 less_not_refl)
  qed
  have "foldl (write_through cc) b ns =
      foldl (write_through cc) (write_through cc (foldl (write_through cc) b (take k ns)) ?n) (drop (Suc k) ns)"
    by (subst split) simp
  then have "bank_pair (foldl (write_through cc) b ns) ?n =
      bank_pair (write_through cc (foldl (write_through cc) b (take k ns)) ?n) ?n"
    using write_through_all_other [OF later] by simp
  then show ?thesis
    using assms(2) pack_narrow [of ?n cc] by (simp add: write_through_def bank_pair_store prod_eq_iff)
qed

section \<open>Values as clients see them\<close>

lemma variant_member:
  assumes "n_data_type n = Some t" and "n_data_type n' = Some t" and "node_member t (n_value n) = node_member t (n_value n')"
  shows "set_variant_from_edge_value n = set_variant_from_edge_value n'"
  using assms by (cases t) (simp_all add: node_member_def set_variant_from_edge_value_def union_get_def
      flip: word_eq_iff_unsigned word_eq_iff_signed)

lemma write_then_read:
  assumes "write_edge_node (Some n) (Some x) = (UA_STATUSCODE_GOOD, n')"
  shows "n' \<noteq> None" "set_variant_from_edge_value (the n') = ud_value x" "n_pending_write (the n')" "n_writable (the n')"
    "node_config (the n') = node_config n" "bool_ok (the n')" "n_data_type (the n') \<noteq> None"
proof -
  have "n_writable n \<and> ud_hasValue x" using assms by (auto simp: write_edge_node_def ua_codes split: if_splits)
  then have "n' \<noteq> None \<and> set_variant_from_edge_value (the n') = ud_value x \<and> n_pending_write (the n') \<and> n_writable (the n') \<and>
      node_config (the n') = node_config n \<and> bool_ok (the n') \<and> n_data_type (the n') \<noteq> None"
    using assms
    by (cases "n_data_type n"; cases "ud_value x")
       (auto simp: write_edge_node_def ua_codes set_variant_from_edge_value_def node_config_def bool_ok_def
          union_get_def [of "_ :: 64 word", where 'a = 64] split: EdgeDataType.splits if_splits)
  then show "n' \<noteq> None" "set_variant_from_edge_value (the n') = ud_value x" "n_pending_write (the n')" "n_writable (the n')"
    "node_config (the n') = node_config n" "bool_ok (the n')" "n_data_type (the n') \<noteq> None" by simp_all
qed

lemma config_fields:
  assumes "node_config n1 = node_config n"
  shows "n_data_type n1 = n_data_type n" "n_modbus_unit n1 = n_modbus_unit n" "n_modbus_register n1 = n_modbus_register n"
    "n_writable n1 = n_writable n" "n_id n1 = n_id n" "n_asset_id n1 = n_asset_id n"
  using assms by (cases n; cases n1; simp add: node_config_def)+

lemma pack_drained: "pack_node_to_registers cc (drained n) out = pack_node_to_registers cc n out"
  by (simp add: pack_node_to_registers_def drained_def node_scale_def split: option.split EdgeDataType.split)

lemma drained_place: "bank_pair b (drained n) = bank_pair b n" "mapped (drained n) = mapped n"
  by (simp_all add: bank_pair_def drained_def wide_def register_width_for_node_def register_offset_def mapped_def)

text \<open>What an accepted client write does.\<close>

lemma client_write_good:
  assumes "k < length (m_nodes (gw_model g))" and "client_write k x g = (UA_STATUSCODE_GOOD, g1)"
    and "n = m_nodes (gw_model g) ! k" and "n1 = m_nodes (gw_model g1) ! k"
  shows "g1 = g\<lparr>gw_model := (gw_model g)\<lparr>m_nodes := (m_nodes (gw_model g))[k := n1]\<rparr>\<rparr>"
    and "set_variant_from_edge_value n1 = ud_value x" and "n_pending_write n1" and "n_writable n1" and "bool_ok n1"
    and "node_config n1 = node_config n" and "n_data_type n1 \<noteq> None"
proof -
  let ?ns = "m_nodes (gw_model g)"
  obtain n' where w: "write_edge_node (Some n) (Some x) = (UA_STATUSCODE_GOOD, n')"
    "g1 = g\<lparr>gw_model := (gw_model g)\<lparr>m_nodes := ?ns[k := the n']\<rparr>\<rparr>"
    using assms(2,3) by (auto simp: client_write_def Let_def split: prod.splits)
  have n1: "n1 = the n'" using assms(1,4) by (simp add: w(2))
  show "g1 = g\<lparr>gw_model := (gw_model g)\<lparr>m_nodes := ?ns[k := n1]\<rparr>\<rparr>"
    "set_variant_from_edge_value n1 = ud_value x" "n_pending_write n1" "n_writable n1" "bool_ok n1"
    "node_config n1 = node_config n" "n_data_type n1 \<noteq> None"
    using write_then_read [OF w(1)] w(2) by (simp_all add: n1)
qed

text \<open>C2: an acknowledged command is delivered: when a client write on a mapped variable was accepted and
  no other pending command goes to the same registers, the next tick over a line that answers leaves
  the registers of the variable with the packed command, the command is no longer pending, and for
  boolean and integer variables a client then reads the written value, as confirmed by the device.\<close>

theorem command_delivered:
  assumes "linked (lib_modbus lib) sel bank c g" and "k < length (m_nodes (gw_model g))"
    and "client_write k x g = (UA_STATUSCODE_GOOD, g1)" and "mapped (m_nodes (gw_model g) ! k)"
    and "\<forall>j < length (m_nodes (gw_model g)). j \<noteq> k \<and> to_write (m_nodes (gw_model g) ! j) \<longrightarrow>
           reg_cells (m_nodes (gw_model g) ! j) \<inter> reg_cells (m_nodes (gw_model g) ! k) = {}"
    and "g2 = edge_runtime_tick lib g1"
  shows "bank_pair (bank (gw_line g2)) (m_nodes (gw_model g) ! k) =
      snd (pack_node_to_registers (lib_cc lib) (m_nodes (gw_model g1) ! k) (0, 0)) \<and>
    \<not> n_pending_write (m_nodes (gw_model g2) ! k) \<and>
    (n_data_type (m_nodes (gw_model g) ! k) \<noteq> Some EDGE_DATA_DOUBLE \<longrightarrow> client_read k g2 = ud_value x)"
proof -
  define n n1 where "n = m_nodes (gw_model g) ! k" and "n1 = m_nodes (gw_model g1) ! k"
  let ?ns = "m_nodes (gw_model g)" and ?ns1 = "m_nodes (gw_model g1)"
  note cw = client_write_good [OF assms(2,3) n_def n1_def] and cf = config_fields [OF client_write_good(6) [OF assms(2,3) n_def n1_def]]
  have ns1: "?ns1 = ?ns[k := n1]" by (subst cw(1)) simp
  have cells: "reg_cells n1 = reg_cells n" "bank_pair b n1 = bank_pair b n" for b
    using cf by (simp_all add: reg_cells_def bank_pair_def wide_def register_width_for_node_def register_offset_def)
  have tw: "to_write n1" using cw(3,4) cf(3) assms(4) by (simp add: to_write_def mapped_def n_def)
  have "n \<in> set ?ns" using assms(2) by (simp add: n_def)
  then have "linked (lib_modbus lib) sel bank c g1"
    using assms(1) cf(2) set_update_subset_insert [of ?ns k n1] unfolding linked_def ns1
    by (subst (1 2 3 4) cw(1)) auto
  define b where "b = foldl (write_through (lib_cc lib)) (bank (gw_line g1)) ?ns1"
  note g2 = tick_line(1,2) [OF \<open>linked (lib_modbus lib) sel bank c g1\<close> b_def, folded assms(6)]
  have k1: "k < length ?ns1" "?ns1 ! k = n1" using assms(2) by (simp_all add: ns1)
  have "bank_pair b (?ns1 ! k) = snd (pack_node_to_registers (lib_cc lib) (?ns1 ! k) (0, 0))"
    unfolding b_def
  proof (rule write_through_own [OF k1(1)])
    show "to_write (?ns1 ! k)" using tw k1(2) by simp
    show "\<forall>j < length ?ns1. j \<noteq> k \<and> to_write (?ns1 ! j) \<longrightarrow> reg_cells (?ns1 ! j) \<inter> reg_cells (?ns1 ! k) = {}"
    proof (intro allI impI)
      fix j assume j: "j < length ?ns1" and "j \<noteq> k \<and> to_write (?ns1 ! j)"
      moreover from this have "?ns1 ! j = ?ns ! j" by (simp add: ns1)
      ultimately show "reg_cells (?ns1 ! j) \<inter> reg_cells (?ns1 ! k) = {}"
        using assms(5) by (simp add: k1(2) cells(1) n_def) (simp add: ns1)
    qed
  qed
  then have reg: "bank_pair b n1 = snd (pack_node_to_registers (lib_cc lib) n1 (0, 0))" by (simp add: k1(2))
  have n2: "m_nodes (gw_model g2) ! k = apply_registers_to_node (drained n1) (snd (pack_node_to_registers (lib_cc lib) n1 (0, 0)))"
    using k1 tw reg by (simp add: g2(2) polled_def drained_place to_write_def)
  have "client_read k g2 = ud_value x" if nd: "n_data_type n \<noteq> Some EDGE_DATA_DOUBLE"
  proof -
    obtain t where t: "n_data_type n1 = Some t" "t \<noteq> EDGE_DATA_DOUBLE" using cw(7) nd cf(1) by auto
    then have d: "n_data_type (drained n1) = Some t" by (simp add: drained_def)
    have "node_member t (n_value (m_nodes (gw_model g2) ! k)) = node_member t (n_value n1)"
      unfolding n2 by (rule apply_pack_regs [OF t d cw(5)])
    moreover have "n_data_type (m_nodes (gw_model g2) ! k) = Some t" unfolding n2 using d by (simp add: frame_simps)
    ultimately have "set_variant_from_edge_value (m_nodes (gw_model g2) ! k) = set_variant_from_edge_value n1"
      using t(1) by (intro variant_member) auto
    then show ?thesis using cw(2) by (simp add: client_read_def read_edge_node_def)
  qed
  moreover have "\<not> n_pending_write (m_nodes (gw_model g2) ! k)"
    unfolding n2 using tw by (simp add: frame_simps drained_def to_write_def)
  moreover have "bank_pair (bank (gw_line g2)) n = snd (pack_node_to_registers (lib_cc lib) n1 (0, 0))"
    using reg cells(2) by (simp add: g2(1))
  ultimately show ?thesis by (simp add: n_def n1_def)
qed

lemma sample_accepts:
  assumes "m_nodes (gw_model g) = [sample_setpoint]"
  shows "client_write 0 \<lparr>ud_hasValue = True, ud_value = UaInt16 y\<rparr> g =
    (UA_STATUSCODE_GOOD, snd (client_write 0 \<lparr>ud_hasValue = True, ud_value = UaInt16 y\<rparr> g))"
  by (simp add: client_write_def assms write_edge_node_def Let_def case_prod_beta sample_setpoint_def)

theorem command_delivered_witness:
  "fst (client_write 0 \<lparr>ud_hasValue = True, ud_value = UaInt16 9\<rparr> sample_gateway) = UA_STATUSCODE_GOOD \<and>
   client_read 0 (edge_runtime_tick sample_libs (snd (client_write 0 \<lparr>ud_hasValue = True, ud_value = UaInt16 9\<rparr> sample_gateway)))
     = UaInt16 9"
proof -
  let ?x = "\<lparr>ud_hasValue = True, ud_value = UaInt16 9\<rparr>" and ?g = sample_gateway
  have l: "linked (lib_modbus sample_libs) (\<lambda>w c. sl_unit w) sl_regs () ?g" using sample_working by (simp add: working_def)
  have n: "m_nodes (gw_model ?g) = [sample_setpoint]" by (simp add: sample_gateway_def)
  have s: "n_writable sample_setpoint" "n_data_type sample_setpoint = Some EDGE_DATA_INT16" "mapped sample_setpoint"
    by (simp_all add: sample_setpoint_def mapped_def edge_modbus_register_base_def)
  have w: "client_write 0 ?x ?g = (UA_STATUSCODE_GOOD, snd (client_write 0 ?x ?g))"
    by (rule sample_accepts [OF n])
  have "client_read 0 (edge_runtime_tick sample_libs (snd (client_write 0 ?x ?g))) = ud_value ?x"
    using command_delivered [OF l _ w _ _ refl] s by (simp add: n)
  moreover have "fst (client_write 0 ?x ?g) = UA_STATUSCODE_GOOD" by (subst w) simp
  ultimately show ?thesis by simp
qed

section \<open>A line that is down\<close>

text \<open>
  \<open>line_down\<close> states what libmodbus does while the device cannot be reached: no connection comes about,
  and neither the attempts nor the clock change that or the registers.
\<close>

definition line_down :: "('c, 'm) modbus_api \<Rightarrow> ('m \<Rightarrow> bool) \<Rightarrow> ('m \<Rightarrow> int \<Rightarrow> int \<Rightarrow> u16) \<Rightarrow> bool" where
  "line_down api down bank =
     (\<forall>w. down w \<longrightarrow>
        (\<forall>c. \<exists>w'. modbus_connect api c w = (- 1, w') \<and> down w' \<and> bank w' = bank w) \<and>
        (\<forall>h p. down (snd (modbus_new_tcp api h p w)) \<and> bank (snd (modbus_new_tcp api h p w)) = bank w) \<and>
        (\<forall>c. down (modbus_free api c w) \<and> bank (modbus_free api c w) = bank w) \<and>
        down (snd (clock_gettime api w)) \<and> bank (snd (clock_gettime api w)) = bank w)"

lemma sim_down: "line_down sim_api (\<lambda>w. \<not> sl_up w) sl_regs"
  by (simp add: line_down_def sim_api_def)

definition cut_off :: "('m \<Rightarrow> bool) \<Rightarrow> ('m \<Rightarrow> int \<Rightarrow> int \<Rightarrow> u16) \<Rightarrow> (int \<Rightarrow> int \<Rightarrow> u16) \<Rightarrow> 'c EdgeModbus \<Rightarrow> 'm \<Rightarrow> bool" where
  "cut_off down bank b mb w = (\<not> mb_connected mb \<and> down w \<and> bank w = b)"

lemma cut_off_count [simp]:
  "cut_off down bank b (mb_poll_count_update f mb) w = cut_off down bank b mb w"
  "cut_off down bank b (mb_write_error_count_update f mb) w = cut_off down bank b mb w"
  by (simp_all add: cut_off_def)

lemma now_us_down:
  assumes "line_down api down bank" and "cut_off down bank b mb w"
  shows "cut_off down bank b mb (snd (now_us api w))"
  using assms by (auto simp: line_down_def cut_off_def now_us_def Let_def case_prod_beta)

lemma connect_down:
  assumes line: "line_down api down bank" and cut: "cut_off down bank b mb w" and en: "mb_enabled mb"
  shows "\<exists>mb' w'. edge_modbus_connect api mb w = (EDGE_STATUS_ERROR, mb', w') \<and> cut_off down bank b mb' w'"
proof -
  have fail: "cut_off down bank b (fst (note_connect_failure api mb x)) (snd (note_connect_failure api mb x))"
    if "cut_off down bank b mb x" for x
    using now_us_down [OF line that] by (simp add: note_connect_failure_eq cut_off_def)
  have new: "cut_off down bank b mb (snd (modbus_new_tcp api h p x))"
    and free: "cut_off down bank b mb (modbus_free api c x)"
    if "cut_off down bank b mb x" for x h p c
    using line that by (simp_all add: line_down_def cut_off_def)
  have conn: "fst (modbus_connect api c x) = - 1 \<and> cut_off down bank b mb (snd (modbus_connect api c x))"
    if "cut_off down bank b mb x" for x c
  proof -
    have "\<exists>w'. modbus_connect api c x = (- 1, w') \<and> down w' \<and> bank w' = bank x"
      using that line unfolding line_down_def cut_off_def by blast
    with that show ?thesis by (auto simp: cut_off_def)
  qed
  define t where "t = (if mb_next_connect_attempt_us mb \<noteq> 0
      then (fst (now_us api w) < mb_next_connect_attempt_us mb, snd (now_us api w)) else (False, w))"
  have t: "cut_off down bank b mb (snd t)" using cut now_us_down [OF line cut] by (simp add: t_def)
  define c where "c = modbus_new_tcp api (mb_host mb) (uint (mb_port mb)) (snd t)"
  have c: "cut_off down bank b mb (snd c)" unfolding c_def by (rule new [OF t])
  define r where "r = (if fst t then (mb, snd t) else if fst c = None then note_connect_failure api mb (snd c)
      else note_connect_failure api mb (modbus_free api (fst c) (snd (modbus_connect api (fst c) (snd c)))))"
  have "edge_modbus_connect api mb w = (EDGE_STATUS_ERROR, fst r, snd r)"
    unfolding edge_modbus_connect_def Let_def case_prod_beta t_def [symmetric] c_def [symmetric] r_def
    using en cut [unfolded cut_off_def] conn [OF c, of "fst c", THEN conjunct1] by simp
  moreover have "cut_off down bank b (fst r) (snd r)"
    using t fail [OF c] fail [OF free [OF conn [OF c, THEN conjunct2]]] by (simp add: r_def)
  ultimately show ?thesis by blast
qed

lemma write_node_down:
  assumes "line_down api down bank" and "cut_off down bank b mb w"
  shows "\<exists>st mb' w'. edge_modbus_write_node cc api mb node w = (st, mb', w') \<and> cut_off down bank b mb' w'"
proof (cases "mb_enabled mb")
  case True
  obtain mb' w' where "edge_modbus_connect api mb w = (EDGE_STATUS_ERROR, mb', w')" "cut_off down bank b mb' w'"
    using connect_down [OF assms True] by blast
  moreover have "\<not> mb_connected mb" using assms(2) by (simp add: cut_off_def)
  ultimately show ?thesis using assms(2) by (simp add: edge_modbus_write_node_def)
qed (use assms(2) in \<open>simp add: edge_modbus_write_node_def\<close>)

lemma poll_down:
  assumes "line_down api down bank" and "cut_off down bank b mb w"
  shows "\<exists>st mb' w'. edge_modbus_poll api mb model w = (st, mb', model, w') \<and> cut_off down bank b mb' w'"
proof (cases "mb_enabled mb")
  case True
  have "cut_off down bank b (mb\<lparr>mb_poll_count := mb_poll_count mb + 1\<rparr>) w" using assms(2) by simp
  from connect_down [OF assms(1) this] True obtain mb' w' where
    "edge_modbus_connect api (mb\<lparr>mb_poll_count := mb_poll_count mb + 1\<rparr>) w = (EDGE_STATUS_ERROR, mb', w')"
    "cut_off down bank b mb' w'" by auto
  moreover have "\<not> mb_connected mb" using assms(2) by (simp add: cut_off_def)
  ultimately show ?thesis using True by (simp add: edge_modbus_poll_def Let_def)
qed (use assms(2) in \<open>simp add: edge_modbus_poll_def Let_def\<close>)

lemma drain_down:
  assumes line: "line_down api down bank" and cut: "cut_off down bank b mb w"
    and d: "drain_pending_writes cc api (mb, m, w) = (mb', m', w')"
  shows "cut_off down bank b mb' w'"
proof -
  let ?I = "\<lambda>t. cut_off down bank b (fst t) (snd (snd t))"
  have "?I (snd (for_upto (length (m_nodes m)) (drain_node cc api) (mb, m, w)))"
  proof (rule for_in_invariant)
    show "?I (mb, m, w)" using cut by simp
    fix i t r t' assume "?I t" and step: "drain_node cc api i t = (r, t')"
    obtain mb1 m1 w1 where t: "t = (mb1, m1, w1)" by (metis prod_cases3)
    with \<open>?I t\<close> have c1: "cut_off down bank b mb1 w1" by simp
    obtain st mb2 w2 where "edge_modbus_write_node cc api mb1 (m_nodes m1 ! i) w1 = (st, mb2, w2)" "cut_off down bank b mb2 w2"
      using write_node_down [OF line c1] by blast
    with c1 step show "?I t'" by (auto simp: drain_node_def t Let_def split: if_splits)
  qed
  then show ?thesis using d by (simp add: drain_pending_writes_def)
qed

definition isolated :: "('m \<Rightarrow> bool) \<Rightarrow> ('m \<Rightarrow> int \<Rightarrow> int \<Rightarrow> u16) \<Rightarrow> (int \<Rightarrow> int \<Rightarrow> u16) \<Rightarrow> ('c, 'm, 'h, 'd, 'v, 'u) Gateway \<Rightarrow> bool" where
  "isolated down bank b g = cut_off down bank b (gw_modbus g) (gw_line g)"

lemma tick_down:
  fixes lib :: "('c, 'm, 'h, 's, 'd, 'v, 'u) EdgeLibs"
  assumes line: "line_down (lib_modbus lib) down bank" and cut: "isolated down bank b g"
  shows "isolated down bank b (edge_runtime_tick lib g)"
    and "m_nodes (gw_model (edge_runtime_tick lib g)) = map drained (m_nodes (gw_model g))"
proof -
  let ?m1 = "(gw_model g)\<lparr>m_nodes := map drained (m_nodes (gw_model g))\<rparr>"
  obtain mb1 w1 pst mb2 m2 w2 est ev d where
    dr: "drain_pending_writes (lib_cc lib) (lib_modbus lib) (gw_modbus g, gw_model g, gw_line g) = (mb1, ?m1, w1)"
    and po: "edge_modbus_poll (lib_modbus lib) mb1 ?m1 w1 = (pst, mb2, m2, w2)"
    and ev: "edge_events_evaluate (lib_sqlite lib) (lib_ua lib) (gw_store g) (Some (gw_server g)) (eval_start m2 g) = (est, ev)"
    and tick: "edge_runtime_tick lib g = g\<lparr>gw_runtime := (gw_runtime g)\<lparr>rt_tick_count := rt_tick_count (gw_runtime g) + 1,
         rt_last_event_stats := the (ev_stats ev)\<rparr>, gw_modbus := mb2, gw_line := w2, gw_model := ev_model ev,
       gw_ua := ev_ua ev, gw_db := d\<rparr>"
    by (rule tick_phases [where lib = lib and g = g, OF refl]) (rule that)
  have "cut_off down bank b mb1 w1" by (rule drain_down [OF line cut [unfolded isolated_def] dr])
  from poll_down [OF line this, of ?m1] po have "m2 = ?m1" "cut_off down bank b mb2 w2" by auto
  moreover from this(1) pass_keeps(2) [OF ev] have "m_nodes (ev_model ev) = m_nodes ?m1" by (simp add: eval_start_def)
  ultimately show "isolated down bank b (edge_runtime_tick lib g)"
    "m_nodes (gw_model (edge_runtime_tick lib g)) = map drained (m_nodes (gw_model g))"
    by (simp_all add: tick isolated_def)
qed

lemma drained_idem: "drained (drained n) = drained n"
  by (cases n) (simp add: drained_def)

lemma ticks_down:
  assumes "line_down (lib_modbus lib) down bank" and "isolated down bank b g"
  shows "isolated down bank b ((edge_runtime_tick lib ^^ i) g) \<and>
    (i > 0 \<longrightarrow> m_nodes (gw_model ((edge_runtime_tick lib ^^ i) g)) = map drained (m_nodes (gw_model g)))"
proof (induction i)
  case (Suc i)
  then have iso: "isolated down bank b ((edge_runtime_tick lib ^^ i) g)" by blast
  from Suc tick_down [OF assms(1) iso] show ?case
    by (cases "i = 0") (simp_all add: drained_idem comp_def)
qed (use assms in simp)

text \<open>When no node waits, the write-back loop leaves the client and the line alone.\<close>

lemma drain_nothing:
  assumes "list_all (\<lambda>n. \<not> (n_writable n \<and> n_pending_write n)) (m_nodes m)"
  shows "drain_pending_writes cc api (mb, m, w) = (mb, m, w)"
proof -
  have "\<exists>t. for_upto (length (m_nodes m)) (drain_node cc api) (mb, m, w) = (None, t) \<and> t = (mb, m, w)"
    by (rule for_upto_total [where I = "\<lambda>i t. t = (mb, m, w)"])
       (use assms in \<open>auto simp: drain_node_def list_all_length Let_def\<close>)
  then show ?thesis by (simp add: drain_pending_writes_def)
qed

text \<open>C26: an acknowledged command is lost when the device cannot be reached: after the write was accepted
  and any positive number of ticks while the line is down, the registers are as before, no command
  waits any more, so that the write-back loop leaves any client and any line alone, also when the device
  is back, and yet clients read the written value.\<close>

theorem command_lost:
  assumes "line_down (lib_modbus lib) down bank" and "\<not> mb_connected (gw_modbus g)" and "down (gw_line g)"
    and "k < length (m_nodes (gw_model g))" and "client_write k x g = (UA_STATUSCODE_GOOD, g1)"
    and "i > 0" and "g2 = (edge_runtime_tick lib ^^ i) g1"
  shows "bank (gw_line g2) = bank (gw_line g) \<and> client_read k g2 = ud_value x \<and>
    drain_pending_writes cc api (mb, gw_model g2, w) = (mb, gw_model g2, w)"
proof -
  note cw = client_write_good [OF assms(4,5) refl refl]
  let ?ns = "m_nodes (gw_model g)" and ?ns1 = "m_nodes (gw_model g1)"
  have "gw_modbus g1 = gw_modbus g" "gw_line g1 = gw_line g" by (subst cw(1), simp)+
  then have "isolated down bank (bank (gw_line g)) g1" using assms(2,3) by (simp add: isolated_def cut_off_def)
  from ticks_down [OF assms(1) this, of i] assms(6,7) have iso: "isolated down bank (bank (gw_line g)) g2"
    and ns2: "m_nodes (gw_model g2) = map drained ?ns1" by auto
  have len: "length ?ns1 = length ?ns" by (subst cw(1)) simp
  have "m_nodes (gw_model g2) ! k = drained (?ns1 ! k)" using assms(4) by (simp add: ns2 len)
  then have "client_read k g2 = set_variant_from_edge_value (?ns1 ! k)"
    by (simp add: client_read_def read_edge_node_def set_variant_from_edge_value_def drained_def)
  moreover have "drain_pending_writes cc api (mb, gw_model g2, w) = (mb, gw_model g2, w)"
    by (rule drain_nothing) (simp add: ns2 list.pred_set drained_def)
  ultimately show ?thesis using iso cw(2) by (simp add: isolated_def cut_off_def)
qed

theorem command_lost_witness:
  "client_read 0 ((edge_runtime_tick sample_libs ^^ 5) (snd (client_write 0 \<lparr>ud_hasValue = True, ud_value = UaInt16 9\<rparr>
     (sample_gateway\<lparr>gw_modbus := sim_client, gw_line := sim_start\<lparr>sl_up := False\<rparr>\<rparr>)))) = UaInt16 9 \<and>
   sl_regs (gw_line ((edge_runtime_tick sample_libs ^^ 5) (snd (client_write 0 \<lparr>ud_hasValue = True, ud_value = UaInt16 9\<rparr>
     (sample_gateway\<lparr>gw_modbus := sim_client, gw_line := sim_start\<lparr>sl_up := False\<rparr>\<rparr>))))) = sl_regs sim_start"
proof -
  let ?x = "\<lparr>ud_hasValue = True, ud_value = UaInt16 9\<rparr>"
    and ?g = "sample_gateway\<lparr>gw_modbus := sim_client, gw_line := sim_start\<lparr>sl_up := False\<rparr>\<rparr>"
  have l: "line_down (lib_modbus sample_libs) (\<lambda>w. \<not> sl_up w) sl_regs" by (simp add: sample_libs_def sim_down)
  have n: "m_nodes (gw_model ?g) = [sample_setpoint]" by (simp add: sample_gateway_def)
  have w: "client_write 0 ?x ?g = (UA_STATUSCODE_GOOD, snd (client_write 0 ?x ?g))"
    by (rule sample_accepts [OF n])
  have "\<not> mb_connected (gw_modbus ?g)" "\<not> sl_up (gw_line ?g)" by (simp_all add: sim_client_def zero_modbus_def)
  note lost = command_lost [OF l this _ w _ refl, where i = 5, unfolded n]
  have "client_read 0 ((edge_runtime_tick sample_libs ^^ 5) (snd (client_write 0 ?x ?g))) = ud_value ?x"
    by (rule lost [THEN conjunct2, THEN conjunct1]) simp_all
  moreover have "sl_regs (gw_line ((edge_runtime_tick sample_libs ^^ 5) (snd (client_write 0 ?x ?g)))) = sl_regs (gw_line ?g)"
    by (rule lost [THEN conjunct1]) simp_all
  ultimately show ?thesis by simp
qed

end
