(* ===== verification/Edge_Persistence.thy ===== *)
theory Edge_Persistence
  imports Edge_Delivery
begin

text \<open>
  How fresh the stored values are: over any sequence of ticks and client writes, with a database that
  behaves as documented and whatever the line and the server do, the table of latest values holds the
  values of a state that is less than one persistence period old.
\<close>

section \<open>What a tick stores\<close>

text \<open>Evaluating the events leaves the latest values alone.\<close>

lemma evaluate_event_latest:
  assumes laws: "sqlite_laws sapi h view" and i: "i < length (m_events (ev_model s))"
    and r: "evaluate_event sapi uapi \<lparr>es_db = Some h\<rparr> server now i s = (r, s')"
  shows "dv_latest (view (ev_db s')) = dv_latest (view (ev_db s)) \<and>
    length (m_events (ev_model s')) = length (m_events (ev_model s))"
proof -
  let ?e = "m_events (ev_model s) ! i" and ?nodes = "m_nodes (ev_model s)"
  show ?thesis
  proof (cases "event_condition_met ?nodes ?e \<and> \<not> e_active ?e")
    case True
    note num = condition_met_numbers [OF True [THEN conjunct1]]
    have e1: "m_events (set_active i True (ev_model s)) ! i = ?e\<lparr>e_active := True\<rparr>" using i by (simp add: set_active_def)
    have th: "\<not> f64_isnan (e_threshold (?e\<lparr>e_active := True\<rparr>))" using num(2) by simp
    obtain d' where d': "edge_store_insert_event_history sapi \<lparr>es_db = Some h\<rparr> (?e\<lparr>e_active := True\<rparr>)
        (source_value ?nodes ?e) now (ev_db s) = (EDGE_STATUS_OK, d')" "dv_latest (view d') = dv_latest (view (ev_db s))"
      using history_insert [OF laws num(1) th] by blast
    have x: "(case e_source_node (?e\<lparr>e_active := True\<rparr>) of None \<Rightarrow> f64_zero | Some k \<Rightarrow> edge_node_as_double (?nodes ! k)) =
        source_value ?nodes ?e" by (simp add: source_value_def)
    from r True show ?thesis
      unfolding evaluate_event_def Let_def e1 x
      by (auto simp: d' set_active_def split: prod.splits if_splits)
  next
    case False
    with r show ?thesis unfolding evaluate_event_def Let_def by (auto simp: set_active_def split: if_splits)
  qed
qed

lemma pass_latest:
  assumes laws: "sqlite_laws sapi h view"
    and ev: "edge_events_evaluate sapi uapi \<lparr>es_db = Some h\<rparr> server s = (st, s')"
  shows "dv_latest (view (ev_db s')) = dv_latest (view (ev_db s))"
proof -
  let ?I = "\<lambda>t. dv_latest (view (ev_db t)) = dv_latest (view (ev_db s)) \<and> length (m_events (ev_model t)) = length (m_events (ev_model s))"
  obtain now d1 where clk: "edge_time_now_ms (store_clock_gettime sapi) (ev_db s) = (now, d1)" by fastforce
  then have v1: "view d1 = view (ev_db s)" using clock_view [OF laws, of "ev_db s"]
    by (auto simp: edge_time_now_ms_def Let_def split: prod.splits)
  let ?s0 = "s\<lparr>ev_stats := map_option (\<lambda>_. zero_stats) (ev_stats s), ev_db := d1\<rparr>"
  have "?I (snd (for_upto (length (m_events (ev_model s))) (evaluate_event sapi uapi \<lparr>es_db = Some h\<rparr> server now) ?s0))"
  proof (rule for_in_invariant)
    show "?I ?s0" by (simp add: v1)
    fix i t r t' assume "i \<in> set [0..<length (m_events (ev_model s))]" and "?I t"
      and "evaluate_event sapi uapi \<lparr>es_db = Some h\<rparr> server now i t = (r, t')"
    with evaluate_event_latest [OF laws, of i t uapi server now r t'] show "?I t'" by simp
  qed
  with ev show ?thesis by (simp add: edge_events_evaluate_def clk Let_def case_prod_beta)
qed

lemma tick_latest:
  fixes lib :: "('c, 'm, 'h, 's, 'd, 'v, 'u) EdgeLibs"
  assumes laws: "sqlite_laws (lib_sqlite lib) h view" and store: "gw_store g = \<lparr>es_db = Some h\<rparr>"
  defines "g' \<equiv> edge_runtime_tick lib g"
  shows "persist_due (gw_runtime g) \<Longrightarrow> node_ids_fit (m_nodes (gw_model g')) \<Longrightarrow> list_all storable (m_nodes (gw_model g')) \<Longrightarrow>
      dv_latest (view (gw_db g')) = put_values (m_nodes (gw_model g')) (dv_latest (view (gw_db g)))"
    and "\<not> persist_due (gw_runtime g) \<Longrightarrow> dv_latest (view (gw_db g')) = dv_latest (view (gw_db g))"
proof -
  obtain m2 est ev mb2 w2 d where
    ev: "edge_events_evaluate (lib_sqlite lib) (lib_ua lib) (gw_store g) (Some (gw_server g)) (eval_start m2 g) = (est, ev)"
    and d: "d = (if persist_due (gw_runtime g)
          then snd (edge_store_persist_latest_values (lib_sqlite lib) (gw_store g) (ev_model ev) (ev_db ev)) else ev_db ev)"
    and tick: "edge_runtime_tick lib g = g\<lparr>gw_runtime := (gw_runtime g)\<lparr>rt_tick_count := rt_tick_count (gw_runtime g) + 1,
         rt_last_event_stats := the (ev_stats ev)\<rparr>, gw_modbus := mb2, gw_line := w2, gw_model := ev_model ev,
       gw_ua := ev_ua ev, gw_db := d\<rparr>"
    by (rule tick_phases [where lib = lib and g = g, OF refl]) (rule that)
  have l: "dv_latest (view (ev_db ev)) = dv_latest (view (gw_db g))"
    using pass_latest [OF laws ev [unfolded store]] by (simp add: eval_start_def)
  show "dv_latest (view (gw_db g')) = put_values (m_nodes (gw_model g')) (dv_latest (view (gw_db g)))"
    if "persist_due (gw_runtime g)" "node_ids_fit (m_nodes (gw_model g'))" "list_all storable (m_nodes (gw_model g'))"
    using persist_values_ok(1) [OF laws store, of "ev_model ev" "ev_db ev"] that l by (auto simp: g'_def tick d)
  show "dv_latest (view (gw_db g')) = dv_latest (view (gw_db g))" if "\<not> persist_due (gw_runtime g)"
    using that l by (simp add: g'_def tick d)
qed

section \<open>Runs\<close>

text \<open>What happens to a running gateway, in order: ticks and client writes.\<close>

datatype gw_input = GwTick | GwWrite nat ua_data_value

primrec gw_input_step ::
    "('c, 'm, 'h, 's, 'd, 'v, 'u) EdgeLibs \<Rightarrow> gw_input \<Rightarrow> ('c, 'm, 'h, 'd, 'v, 'u) Gateway \<Rightarrow> ('c, 'm, 'h, 'd, 'v, 'u) Gateway" where
  "gw_input_step lib GwTick g = runtime_tick_callback lib g"
| "gw_input_step lib (GwWrite k x) g = (if k < length (m_nodes (gw_model g)) then snd (client_write k x g) else g)"

definition gw_run ::
    "('c, 'm, 'h, 's, 'd, 'v, 'u) EdgeLibs \<Rightarrow> gw_input list \<Rightarrow> ('c, 'm, 'h, 'd, 'v, 'u) Gateway \<Rightarrow> ('c, 'm, 'h, 'd, 'v, 'u) Gateway" where
  "gw_run lib xs g = foldl (\<lambda>g x. gw_input_step lib x g) g xs"

definition ticks :: "gw_input list \<Rightarrow> nat" where
  "ticks xs = length (filter ((=) GwTick) xs)"

lemma gw_run_simps [simp]:
  "gw_run lib [] g = g" "gw_run lib (xs @ [x]) g = gw_input_step lib x (gw_run lib xs g)"
  "ticks [] = 0" "ticks (xs @ ys) = ticks xs + ticks ys" "ticks [GwTick] = 1" "ticks [GwWrite k y] = 0"
  by (simp_all add: gw_run_def ticks_def)

lemma gw_run_reach: "(gateway_step lib)\<^sup>*\<^sup>* g (gw_run lib xs g)"
proof (induction xs rule: rev_induct)
  case (snoc x xs)
  let ?g = "gw_run lib xs g"
  have "gateway_step lib ?g (gw_input_step lib x ?g) \<or> gw_input_step lib x ?g = ?g"
    by (cases x) (auto intro: gs_tick gs_write [OF _ surjective_pairing])
  with snoc show ?case by (auto intro: rtranclp.rtrancl_into_rtrancl)
qed simp

text \<open>A run keeps the configuration of the nodes, the store and the period, and counts the ticks.\<close>

lemma gw_run_keeps:
  assumes "mb_inv (gw_modbus g)" and "list_all node_inv (m_nodes (gw_model g))"
  shows "map node_config (m_nodes (gw_model (gw_run lib xs g))) = map node_config (m_nodes (gw_model g))"
    and "gw_store (gw_run lib xs g) = gw_store g"
    and "mb_inv (gw_modbus (gw_run lib xs g))"
proof -
  have "gw_inv (model_config (gw_model g)) (gw_store g) (gw_server g) g" using assms by (simp add: gw_inv_def)
  from gwsys.reach_inv [OF gw_run_reach this, of lib xs]
  have i: "gw_inv (model_config (gw_model g)) (gw_store g) (gw_server g) (gw_run lib xs g)" .
  then have "m_nodes (model_config (gw_model (gw_run lib xs g))) = m_nodes (model_config (gw_model g))"
    by (simp add: gw_inv_def)
  then show "map node_config (m_nodes (gw_model (gw_run lib xs g))) = map node_config (m_nodes (gw_model g))"
    by (simp add: model_config_def)
  show "gw_store (gw_run lib xs g) = gw_store g" "mb_inv (gw_modbus (gw_run lib xs g))" using i by (simp_all add: gw_inv_def)
qed

lemma gw_run_runtime:
  assumes "mb_inv (gw_modbus g)" and "list_all node_inv (m_nodes (gw_model g))"
  shows "rt_tick_count (gw_runtime (gw_run lib xs g)) = rt_tick_count (gw_runtime g) + of_nat (ticks xs) \<and>
    rt_persist_every_n_ticks (gw_runtime (gw_run lib xs g)) = rt_persist_every_n_ticks (gw_runtime g)"
proof (induction xs rule: rev_induct)
  case (snoc x xs)
  show ?case
  proof (cases x)
    case GwTick
    with snoc tick_keeps(6,7) [OF gw_run_keeps(3) [OF assms], of lib lib xs] show ?thesis
      by (simp add: runtime_tick_callback_def)
  next
    case (GwWrite k y)
    with snoc show ?thesis by (simp add: client_write_def Let_def case_prod_beta)
  qed
qed simp

lemma config_keys:
  assumes "map node_config ns' = map node_config ns"
  shows "map node_key ns' = map node_key ns" and "node_ids_fit ns' = node_ids_fit ns"
proof -
  have len: "length ns' = length ns" using assms by (rule map_eq_imp_length_eq)
  have at: "n_id (ns' ! i) = n_id (ns ! i)" "n_asset_id (ns' ! i) = n_asset_id (ns ! i)" if "i < length ns" for i
    using config_fields(5,6) that assms len by (metis nth_map)+
  show "map node_key ns' = map node_key ns"
    by (rule nth_equalityI) (simp_all add: len node_key_def at)
  show "node_ids_fit ns' = node_ids_fit ns" by (simp add: node_ids_fit_def list_all_length len at)
qed

lemma persist_due_nat:
  assumes "rt_tick_count rt = of_nat t" and "t + 1 < 2 ^ 64"
  shows "persist_due rt \<longleftrightarrow> rt_persist_every_n_ticks rt \<noteq> 0 \<and> (t + 1) mod unat (rt_persist_every_n_ticks rt) = 0"
proof -
  let ?p = "rt_persist_every_n_ticks rt"
  have p: "unat (ucast ?p :: u64) = unat ?p" 
    using order_less_trans [OF unsigned_less [of ?p], of "2 ^ 64 :: nat"] by (simp add: unsigned_ucast_eq take_bit_nat_eq_self)
  have "unat (of_nat (t + 1) :: u64) = t + 1" unfolding unsigned_of_nat using assms(2) by (simp add: take_bit_nat_eq_self)
  then have t: "unat (of_nat t + 1 :: u64) = t + 1" by (simp add: add.commute)
  have "((of_nat t + 1 :: u64) mod ucast ?p = 0) = (unat ((of_nat t + 1 :: u64) mod ucast ?p) = 0)" by (simp add: unat_eq_0)
  also have "\<dots> = ((t + 1) mod unat ?p = 0)" by (simp only: unat_mod p t)
  finally show ?thesis by (simp add: persist_due_def assms(1))
qed

section \<open>The freshness of the stored values\<close>

definition stored_from :: "('d \<Rightarrow> 's db_view) \<Rightarrow> ('c, 'm, 'h, 'd, 'v, 'u) Gateway \<Rightarrow> ('c, 'm, 'h, 'd, 'v, 'u) Gateway \<Rightarrow> bool" where
  "stored_from view g0 g =
     list_all (\<lambda>n. dv_latest (view (gw_db g)) (node_key n) = Some (edge_node_as_double n)) (m_nodes (gw_model g0))"

lemma stored_just_now:
  assumes laws: "sqlite_laws (lib_sqlite lib) h view" and store: "gw_store g = \<lparr>es_db = Some h\<rparr>"
    and g': "g' = edge_runtime_tick lib g" and "persist_due (gw_runtime g)"
    and "node_ids_fit (m_nodes (gw_model g'))" "list_all storable (m_nodes (gw_model g'))"
    and "distinct (map node_key (m_nodes (gw_model g')))"
  shows "stored_from view g' g'"
  using tick_latest(1) [OF laws store assms(4)] put_values_lookup [OF assms(7)] assms(3,5,6)
  by (simp add: stored_from_def list.pred_set)

lemma run_fresh:
  assumes laws: "sqlite_laws (lib_sqlite lib) h view" and store: "gw_store g = \<lparr>es_db = Some h\<rparr>"
    and inv: "mb_inv (gw_modbus g)" "list_all node_inv (m_nodes (gw_model g))"
    and ids: "node_ids_fit (m_nodes (gw_model g))" "distinct (map node_key (m_nodes (gw_model g)))"
    and start: "rt_tick_count (gw_runtime g) = 0" and p: "p = unat (rt_persist_every_n_ticks (gw_runtime g))" "p > 0"
  shows "ticks xs < 2 ^ 64 \<Longrightarrow> ticks xs \<ge> p \<Longrightarrow>
    (\<forall>ys zs. xs = ys @ zs \<longrightarrow> list_all storable (m_nodes (gw_model (gw_run lib ys g)))) \<Longrightarrow>
    \<exists>ys zs. xs = ys @ zs \<and> ticks zs = ticks xs mod p \<and> stored_from view (gw_run lib ys g) (gw_run lib xs g)"
proof (induction xs rule: rev_induct)
  case (snoc x xs)
  let ?g = "gw_run lib xs g" and ?g' = "gw_run lib (xs @ [x]) g"
  note rt = gw_run_runtime [OF inv, of lib xs] and keep = gw_run_keeps [OF inv, of lib]
  have store': "gw_store ?g = \<lparr>es_db = Some h\<rparr>" using keep(2) store by simp
  have pre: "\<forall>ys zs. xs = ys @ zs \<longrightarrow> list_all storable (m_nodes (gw_model (gw_run lib ys g)))"
    using snoc.prems(3) by (metis append.assoc)
  have extend: "?case" if a: "ticks xs \<ge> p" "ticks (xs @ [x]) mod p = ticks xs mod p + ticks [x]" "ticks xs < 2 ^ 64"
    "dv_latest (view (gw_db ?g')) = dv_latest (view (gw_db ?g))"
  proof -
    obtain ys zs where "xs = ys @ zs" "ticks zs = ticks xs mod p" "stored_from view (gw_run lib ys g) ?g"
      using snoc.IH [OF a(3,1) pre] by blast
    then have "xs @ [x] = ys @ (zs @ [x])" "ticks (zs @ [x]) = ticks (xs @ [x]) mod p" "stored_from view (gw_run lib ys g) ?g'"
      using a(2,4) by (simp_all add: stored_from_def)
    then show ?thesis by blast
  qed
  show ?case
  proof (cases x)
    case (GwWrite k y)
    have "gw_db ?g' = gw_db ?g" by (simp add: GwWrite client_write_def Let_def case_prod_beta)
    with extend snoc.prems(1,2) show ?thesis by (simp add: GwWrite)
  next
    case GwTick
    have g': "?g' = edge_runtime_tick lib ?g" by (simp add: GwTick runtime_tick_callback_def)
    have lt: "ticks xs + 1 < 2 ^ 64" using snoc.prems(1) by (simp add: GwTick)
    have due: "persist_due (gw_runtime ?g) \<longleftrightarrow> (ticks xs + 1) mod p = 0"
      using persist_due_nat [OF _ lt, of "gw_runtime ?g"] rt start p by (simp add: unat_gt_0)
    show ?thesis
    proof (cases "(ticks xs + 1) mod p = 0")
      case True
      have nodes: "map node_config (m_nodes (gw_model ?g')) = map node_config (m_nodes (gw_model g))"
        by (rule keep(1))
      have "stored_from view ?g' ?g'"
      proof (rule stored_just_now [OF laws store' g'])
        show "persist_due (gw_runtime ?g)" using due True by simp
        show "node_ids_fit (m_nodes (gw_model ?g'))" "distinct (map node_key (m_nodes (gw_model ?g')))"
          using config_keys [OF nodes] ids by simp_all
        show "list_all storable (m_nodes (gw_model ?g'))" using snoc.prems(3) by blast
      qed
      with True show ?thesis by (intro exI [of _ "xs @ [x]"] exI [of _ "[]"]) (simp add: GwTick)
    next
      case False
      have "dv_latest (view (gw_db ?g')) = dv_latest (view (gw_db ?g))"
        unfolding g' by (rule tick_latest(2) [OF laws store']) (use due False in simp)
      moreover have "ticks xs + 1 \<noteq> p" using False by auto
      then have "ticks xs \<ge> p" using snoc.prems(2) by (simp add: GwTick)
      moreover have "(ticks xs + 1) mod p = ticks xs mod p + 1" using False by (metis Suc_eq_plus1 mod_Suc)
      ultimately show ?thesis using extend lt by (simp add: GwTick)
    qed
  qed
qed (use p in simp)


lemma sample_run_storable: "list_all storable (m_nodes (gw_model (gw_run sample_libs ys sample_gateway)))"
proof -
  have inv: "mb_inv (gw_modbus sample_gateway)" "list_all node_inv (m_nodes (gw_model sample_gateway))"
    by (rule sample_inv)+
  have "map node_config (m_nodes (gw_model (gw_run sample_libs ys sample_gateway))) = map node_config [sample_setpoint]"
    using gw_run_keeps(1) [OF inv, of sample_libs ys] by (simp add: sample_gateway_def)
  then obtain n where n: "m_nodes (gw_model (gw_run sample_libs ys sample_gateway)) = [n]" "node_config n = node_config sample_setpoint"
    by auto
  have "n_data_type n = Some EDGE_DATA_INT16" using config_fields(1) [OF n(2)] by (simp add: sample_setpoint_def)
  then have "edge_node_as_double n = f64_of_int (sint (union_get (n_value n) :: u16))" by (simp add: edge_node_as_double_def)
  moreover have "\<bar>sint (union_get (n_value n) :: u16)\<bar> \<le> 2 ^ 53"
    by (rule int_member_exact(1))
  ultimately have "storable n" using f64_of_int_exact(1) f64_finite_not_nan by metis
  with n(1) show ?thesis by simp
qed


end
