(* ===== verification/Edge_Process.thy ===== *)
theory Edge_Process
  imports Edge_Persistence
begin

text \<open>
  The process around the gateway: the stop flag of \<open>src/main.c\<close> with its signal handler, and the server
  loop \<open>edge_server_run\<close> of \<open>src/edge_server.c\<close>.

  \<open>EdgeProcess\<close> is the memory of the process: the gateway, the flag \<open>g_running\<close> and the signals whose
  action is \<open>handle_signal\<close>.  \<open>ProcessLibs\<close> adds to the libraries of the gateway what the process calls:
  the iteration of open62541, which runs the callbacks of the gateway and therefore acts on all of this
  memory; the delivery of signals, which may happen at any time and shows where the flag is read; and
  the functions of the operating system.  \<open>process_laws\<close> states what the first two may do: an iteration is
  some sequence of the gateway's own steps, and only an installed handler changes the flag.
\<close>

section \<open>State\<close>

record ('c, 'm, 'h, 'd, 'v, 'u) EdgeProcess =
  pr_gateway :: "('c, 'm, 'h, 'd, 'v, 'u) Gateway"
  g_running :: int
  pr_handlers :: "int list"

record ('c, 'm, 'h, 's, 'd, 'v, 'u) ProcessLibs =
  pl_edge :: "('c, 'm, 'h, 's, 'd, 'v, 'u) EdgeLibs"
  UA_Server_run_iterate :: "'v option \<Rightarrow> bool \<Rightarrow> ('c, 'm, 'h, 'd, 'v, 'u) EdgeProcess \<Rightarrow> ('c, 'm, 'h, 'd, 'v, 'u) EdgeProcess"
  deliver_signals :: "('c, 'm, 'h, 'd, 'v, 'u) EdgeProcess \<Rightarrow> ('c, 'm, 'h, 'd, 'v, 'u) EdgeProcess"
  sigaction :: "int \<Rightarrow> int"
  getenv :: "string \<Rightarrow> string option"
  file_content :: "string \<Rightarrow> string option"

definition SIGINT :: int where "SIGINT = 2"
definition SIGTERM :: int where "SIGTERM = 15"

definition handle_signal :: "int \<Rightarrow> ('c, 'm, 'h, 'd, 'v, 'u) EdgeProcess \<Rightarrow> ('c, 'm, 'h, 'd, 'v, 'u) EdgeProcess" where
  "handle_signal signal_number p = p\<lparr>g_running := 0\<rparr>"

definition install_signal_handlers ::
    "('c, 'm, 'h, 's, 'd, 'v, 'u) ProcessLibs \<Rightarrow> ('c, 'm, 'h, 'd, 'v, 'u) EdgeProcess \<Rightarrow>
     int \<times> ('c, 'm, 'h, 'd, 'v, 'u) EdgeProcess" where
  "install_signal_handlers pl p =
     (if sigaction pl SIGINT \<noteq> 0 then (1, p)
      else let p1 = p\<lparr>pr_handlers := pr_handlers p @ [SIGINT]\<rparr> in
           if sigaction pl SIGTERM \<noteq> 0 then (1, p1)
           else (0, p1\<lparr>pr_handlers := pr_handlers p1 @ [SIGTERM]\<rparr>))"

section \<open>The server loop\<close>

text \<open>\<open>server_loop\<close> is the \<open>while\<close> loop; it is \<open>None\<close> when the loop does not end.\<close>

partial_function (option) server_loop ::
    "('c, 'm, 'h, 's, 'd, 'v, 'u) ProcessLibs \<Rightarrow> ('c, 'm, 'h, 'd, 'v, 'u) EdgeProcess \<Rightarrow>
     ('c, 'm, 'h, 'd, 'v, 'u) EdgeProcess option" where
  [code]: "server_loop pl p =
     (let p1 = deliver_signals pl p in
      if g_running p1 \<noteq> 0
      then server_loop pl (UA_Server_run_iterate pl (sv_ua (gw_server (pr_gateway p1))) True p1)
      else Some p1)"

definition set_ua :: "'u \<Rightarrow> ('c, 'm, 'h, 'd, 'v, 'u) EdgeProcess \<Rightarrow> ('c, 'm, 'h, 'd, 'v, 'u) EdgeProcess" where
  "set_ua u p = p\<lparr>pr_gateway := (pr_gateway p)\<lparr>gw_ua := u\<rparr>\<rparr>"

definition edge_server_run ::
    "('c, 'm, 'h, 's, 'd, 'v, 'u) ProcessLibs \<Rightarrow> ('c, 'm, 'h, 'd, 'v, 'u) EdgeProcess \<Rightarrow>
     (EdgeStatus \<times> ('c, 'm, 'h, 'd, 'v, 'u) EdgeProcess) option" where
  "edge_server_run pl p =
     (let api = lib_ua (pl_edge pl); server = gw_server (pr_gateway p);
          (status, u) = UA_Server_run_startup api (sv_ua server) (gw_ua (pr_gateway p));
          p1 = set_ua u p
      in if status \<noteq> UA_STATUSCODE_GOOD then Some (EDGE_STATUS_ERROR, p1)
         else case server_loop pl p1 of
                None \<Rightarrow> None
              | Some p2 \<Rightarrow> Some (EDGE_STATUS_OK,
                  set_ua (UA_Server_run_shutdown api (sv_ua (gw_server (pr_gateway p2))) (gw_ua (pr_gateway p2))) p2))"

section \<open>When the loop ends\<close>

text \<open>The process when the flag is read for the \<open>k\<close>-th time.\<close>

primrec read_point ::
    "('c, 'm, 'h, 's, 'd, 'v, 'u) ProcessLibs \<Rightarrow> nat \<Rightarrow> ('c, 'm, 'h, 'd, 'v, 'u) EdgeProcess \<Rightarrow>
     ('c, 'm, 'h, 'd, 'v, 'u) EdgeProcess" where
  "read_point pl 0 p = deliver_signals pl p"
| "read_point pl (Suc k) p = (let q = read_point pl k p in
     deliver_signals pl (UA_Server_run_iterate pl (sv_ua (gw_server (pr_gateway q))) True q))"

definition iterate_from ::
    "('c, 'm, 'h, 's, 'd, 'v, 'u) ProcessLibs \<Rightarrow> ('c, 'm, 'h, 'd, 'v, 'u) EdgeProcess \<Rightarrow> ('c, 'm, 'h, 'd, 'v, 'u) EdgeProcess" where
  "iterate_from pl q = UA_Server_run_iterate pl (sv_ua (gw_server (pr_gateway q))) True q"

lemma read_point_shift: "read_point pl (Suc k) p = read_point pl k (iterate_from pl (deliver_signals pl p))"
  by (induction k) (simp_all add: iterate_from_def Let_def)

lemma server_loop_steps:
  "server_loop pl p = (if g_running (read_point pl 0 p) \<noteq> 0
     then server_loop pl (iterate_from pl (deliver_signals pl p)) else Some (read_point pl 0 p))"
  by (subst server_loop.simps) (simp add: Let_def iterate_from_def)

lemma server_loop_ends:
  "\<forall>i < k. g_running (read_point pl i p) \<noteq> 0 \<Longrightarrow> g_running (read_point pl k p) = 0 \<Longrightarrow>
     server_loop pl p = Some (read_point pl k p)"
proof (induction k arbitrary: p)
  case 0
  then show ?case by (subst server_loop_steps) simp
next
  case (Suc k)
  let ?p = "iterate_from pl (deliver_signals pl p)"
  have "\<forall>i < k. g_running (read_point pl i ?p) \<noteq> 0" "g_running (read_point pl k ?p) = 0"
    using Suc.prems by (auto simp: read_point_shift [symmetric] simp del: read_point.simps(2))
  from Suc.IH [OF this] Suc.prems(1) show ?case
    by (subst server_loop_steps) (auto simp: read_point_shift simp del: read_point.simps(2))
qed

text \<open>A loop that returns has read the flag as zero at some point.\<close>

lemma server_loop_returns:
  fixes pl :: "('c, 'm, 'h, 's, 'd, 'v, 'u) ProcessLibs"
  assumes "server_loop pl p = Some q"
  shows "\<exists>k. g_running (read_point pl k p) = 0"
proof (rule server_loop.raw_induct [where P = "\<lambda>pl p q. \<exists>k. g_running (read_point pl k p) = 0", OF _ assms])
  fix loop :: "('c, 'm, 'h, 's, 'd, 'v, 'u) ProcessLibs \<Rightarrow> ('c, 'm, 'h, 'd, 'v, 'u) EdgeProcess \<Rightarrow>
      ('c, 'm, 'h, 'd, 'v, 'u) EdgeProcess option"
    and pl p q
  assume IH: "\<And>pl p q. loop pl p = Some q \<Longrightarrow> \<exists>k. g_running (read_point pl k p) = 0"
    and body: "(let p1 = deliver_signals pl p in if g_running p1 \<noteq> 0
      then loop pl (UA_Server_run_iterate pl (sv_ua (gw_server (pr_gateway p1))) True p1) else Some p1) = Some q"
  show "\<exists>k. g_running (read_point pl k p) = 0"
  proof (cases "g_running (read_point pl 0 p) = 0")
    case False
    with body have "loop pl (iterate_from pl (deliver_signals pl p)) = Some q" by (simp add: Let_def iterate_from_def)
    from IH [OF this] show ?thesis by (metis read_point_shift)
  qed blast
qed

lemma server_loop_exact:
  "server_loop pl p = (if \<exists>k. g_running (read_point pl k p) = 0
     then Some (read_point pl (LEAST k. g_running (read_point pl k p) = 0) p) else None)"
proof (cases "\<exists>k. g_running (read_point pl k p) = 0")
  case True
  let ?k = "LEAST k. g_running (read_point pl k p) = 0"
  have "\<forall>i < ?k. g_running (read_point pl i p) \<noteq> 0" using not_less_Least by blast
  moreover have "g_running (read_point pl ?k p) = 0" using True by (rule LeastI_ex)
  ultimately show ?thesis using True server_loop_ends by simp
next
  case False
  then have "server_loop pl p = None" by (cases "server_loop pl p") (auto dest: server_loop_returns)
  with False show ?thesis by simp
qed

section \<open>What may happen in a process\<close>

inductive process_step ::
    "('c, 'm, 'h, 's, 'd, 'v, 'u) EdgeLibs \<Rightarrow> ('c, 'm, 'h, 'd, 'v, 'u) EdgeProcess \<Rightarrow> ('c, 'm, 'h, 'd, 'v, 'u) EdgeProcess \<Rightarrow> bool"
    for lib where
  ps_gateway: "gateway_step lib (pr_gateway p) g \<Longrightarrow> process_step lib p (p\<lparr>pr_gateway := g\<rparr>)"
| ps_signal: "s \<in> set (pr_handlers p) \<Longrightarrow> process_step lib p (handle_signal s p)"

inductive_simps process_step_iff: "process_step lib p p'"

definition process_laws :: "('c, 'm, 'h, 's, 'd, 'v, 'u) ProcessLibs \<Rightarrow> bool" where
  "process_laws pl =
     (\<forall>p. (\<forall>v b. (process_step (pl_edge pl))\<^sup>*\<^sup>* p (UA_Server_run_iterate pl v b p)) \<and>
          (deliver_signals pl p = p \<or> (\<exists>s \<in> set (pr_handlers p). deliver_signals pl p = handle_signal s p)))"

lemma delivered:
  assumes "process_laws pl"
  shows "(process_step (pl_edge pl))\<^sup>*\<^sup>* p (deliver_signals pl p)"
proof -
  have "deliver_signals pl p = p \<or> (\<exists>s \<in> set (pr_handlers p). deliver_signals pl p = handle_signal s p)"
    using assms by (simp add: process_laws_def)
  then show ?thesis by (elim disjE bexE) (auto intro: ps_signal)
qed

lemma read_point_reach:
  assumes "process_laws pl"
  shows "(process_step (pl_edge pl))\<^sup>*\<^sup>* p (read_point pl k p)"
proof (induction k)
  case 0
  show ?case using delivered [OF assms, of p] by simp
next
  case (Suc k)
  let ?q = "read_point pl k p"
  let ?q1 = "UA_Server_run_iterate pl (sv_ua (gw_server (pr_gateway ?q))) True ?q"
  have "(process_step (pl_edge pl))\<^sup>*\<^sup>* ?q ?q1" using assms by (simp add: process_laws_def)
  from rtranclp_trans [OF rtranclp_trans [OF Suc this] delivered [OF assms]] show ?case by (simp add: Let_def)
qed

text \<open>Signals leave the gateway alone, so what the gateway keeps, the process keeps.\<close>

lemma process_keeps:
  assumes "\<And>g g'. gateway_step lib g g' \<Longrightarrow> I g \<Longrightarrow> I g'"
    and "(process_step lib)\<^sup>*\<^sup>* p q" and "I (pr_gateway p)"
  shows "I (pr_gateway q)"
  using assms(2,3)
proof (induction rule: rtranclp_induct)
  case (step q r)
  from step.hyps(2) show ?case
    by cases (use step assms(1) in \<open>auto simp: handle_signal_def\<close>)
qed

section \<open>Claims on the server loop\<close>

text \<open>C17: the server loop ends exactly when it should: when the server does not start, nothing runs and an
  error is reported; otherwise the call returns if and only if some read of the stop flag finds it
  zero, it has then made exactly one iteration for every earlier read, all of which found the flag set,
  and the server is shut down once, after the last iteration.  Without a stop request it never returns.\<close>

theorem server_run_exact:
  assumes "UA_Server_run_startup (lib_ua (pl_edge pl)) (sv_ua (gw_server (pr_gateway p))) (gw_ua (pr_gateway p)) = (status, u)"
  shows "edge_server_run pl p =
    (if status \<noteq> UA_STATUSCODE_GOOD then Some (EDGE_STATUS_ERROR, set_ua u p)
     else if \<exists>k. g_running (read_point pl k (set_ua u p)) = 0
     then (let q = read_point pl (LEAST k. g_running (read_point pl k (set_ua u p)) = 0) (set_ua u p)
           in Some (EDGE_STATUS_OK, set_ua (UA_Server_run_shutdown (lib_ua (pl_edge pl)) (sv_ua (gw_server (pr_gateway q)))
                (gw_ua (pr_gateway q))) q))
     else None)"
  by (simp add: edge_server_run_def assms server_loop_exact Let_def)

section \<open>A sample process\<close>

text \<open>Every iteration is a tick, and an interrupt arrives when \<open>n\<close> ticks have passed.\<close>

definition sample_process_libs :: "nat \<Rightarrow> (unit, sim_line, unit, nat, mem_db, unit, mem_server) ProcessLibs" where
  "sample_process_libs n = \<lparr>pl_edge = sample_libs,
     UA_Server_run_iterate = (\<lambda>v b p. p\<lparr>pr_gateway := runtime_tick_callback sample_libs (pr_gateway p)\<rparr>),
     deliver_signals = (\<lambda>p. if SIGINT \<in> set (pr_handlers p) \<and> unat (rt_tick_count (gw_runtime (pr_gateway p))) \<ge> n
        then handle_signal SIGINT p else p),
     sigaction = (\<lambda>s. 0), getenv = (\<lambda>k. None), file_content = (\<lambda>f. Some (unlines sample_lines))\<rparr>"

definition sample_process :: "(unit, sim_line, unit, mem_db, unit, mem_server) EdgeProcess" where
  "sample_process = \<lparr>pr_gateway = sample_gateway, g_running = 1, pr_handlers = [SIGINT, SIGTERM]\<rparr>"

lemma sample_process_laws: "process_laws (sample_process_libs n)"
proof -
  have "(process_step sample_libs)\<^sup>*\<^sup>* p (p\<lparr>pr_gateway := runtime_tick_callback sample_libs (pr_gateway p)\<rparr>)"
    for p :: "(unit, sim_line, unit, mem_db, unit, mem_server) EdgeProcess"
    by (rule r_into_rtranclp) (rule ps_gateway [OF gs_tick])
  then show ?thesis by (auto simp: process_laws_def sample_process_libs_def)
qed

theorem server_run_exact_witness:
  "\<exists>p. edge_server_run (sample_process_libs 0) sample_process = Some (EDGE_STATUS_OK, p) \<and>
     pr_gateway p = sample_gateway"
proof -
  let ?pl = "sample_process_libs 0" and ?p = sample_process
  have st: "UA_Server_run_startup (lib_ua (pl_edge ?pl)) (sv_ua (gw_server (pr_gateway ?p))) (gw_ua (pr_gateway ?p)) = (0, mem_fresh)"
    by (simp add: sample_process_libs_def sample_libs_def mem_ua_def sample_process_def sample_gateway_def)
  have sp: "set_ua mem_fresh ?p = ?p" by (simp add: set_ua_def sample_process_def sample_gateway_def)
  have r0: "read_point ?pl 0 ?p = ?p\<lparr>g_running := 0\<rparr>"
    by (simp add: sample_process_libs_def sample_process_def handle_signal_def)
  then have ex: "\<exists>k. g_running (read_point ?pl k ?p) = 0" by (intro exI [of _ 0]) simp
  have l: "(LEAST k. g_running (read_point ?pl k ?p) = 0) = 0" by (intro Least_eq_0) (simp only: r0, simp)
  have "edge_server_run ?pl ?p = Some (EDGE_STATUS_OK, set_ua (UA_Server_run_shutdown (lib_ua (pl_edge ?pl))
      (sv_ua (gw_server (pr_gateway (?p\<lparr>g_running := 0\<rparr>)))) (gw_ua (pr_gateway (?p\<lparr>g_running := 0\<rparr>)))) (?p\<lparr>g_running := 0\<rparr>))"
    using server_run_exact [OF st] unfolding sp if_P [OF ex] l r0 Let_def UA_STATUSCODE_GOOD_def by simp
  then show ?thesis
    by (simp add: sample_process_libs_def sample_libs_def mem_ua_def set_ua_def sample_process_def sample_gateway_def)
qed

end
