(* ===== verification/Edge_Main.thy ===== *)
theory Edge_Main
  imports Edge_Process
begin

text \<open>
  The entry point, \<open>src/main.c\<close>: options from the environment and the command line, start-up with the
  cleanup of every failure, the run, and the shutdown.  The static objects of the file are the fields of
  the process; the messages on the standard streams are left out.  \<open>file_content\<close> is what reading the
  template at a path delivers, \<open>None\<close> when it cannot be opened.
\<close>

section \<open>Options\<close>

record MainOptions =
  mo_config_path :: string
  mo_db_path :: string
  mo_modbus_host :: string
  mo_modbus_port :: u16
  mo_opcua_port :: u16

text \<open>A variable that is set and not empty.\<close>

definition env_text :: "('c, 'm, 'h, 's, 'd, 'v, 'u) ProcessLibs \<Rightarrow> string \<Rightarrow> string option" where
  "env_text pl key = (case getenv pl key of None \<Rightarrow> None | Some t \<Rightarrow> if t \<noteq> [] then Some t else None)"

definition env_port :: "(int \<Rightarrow> bool) \<Rightarrow> string option \<Rightarrow> u16 \<Rightarrow> u16" where
  "env_port ok env port =
     (case env of
        None \<Rightarrow> port
      | Some t \<Rightarrow> (let parsed = fst (strtol t) in if ok parsed \<and> parsed \<le> 65535 then of_int parsed else port))"

definition main_options :: "('c, 'm, 'h, 's, 'd, 'v, 'u) ProcessLibs \<Rightarrow> string list \<Rightarrow> MainOptions" where
  "main_options pl argv =
     (let config_path = (case env_text pl ''EDGE_CONFIG_PATH'' of Some t \<Rightarrow> t | None \<Rightarrow> ''templates/desalination_plant.edge'');
          db_path = (case env_text pl ''EDGE_DB_PATH'' of Some t \<Rightarrow> t | None \<Rightarrow> ''opcua-edge.db'');
          config_path = (if length argv > 1 then argv ! 1 else config_path);
          modbus_host = (case getenv pl ''EDGE_MODBUS_HOST'' of Some t \<Rightarrow> t | None \<Rightarrow> ''127.0.0.1'')
      in \<lparr>mo_config_path = config_path, mo_db_path = db_path, mo_modbus_host = modbus_host,
          mo_modbus_port = env_port (\<lambda>parsed. parsed \<ge> 0) (env_text pl ''EDGE_MODBUS_PORT'') 1502,
          mo_opcua_port = env_port (\<lambda>parsed. parsed > 0) (env_text pl ''EDGE_OPCUA_PORT'') 4840\<rparr>)"

section \<open>Calls on the static objects\<close>

definition zero_gateway :: "'m \<Rightarrow> 'd \<Rightarrow> 'u \<Rightarrow> ('c, 'm, 'h, 'd, 'v, 'u) Gateway" where
  "zero_gateway w d u = \<lparr>gw_model = zero_model, gw_store = \<lparr>es_db = None\<rparr>, gw_server = \<lparr>sv_ua = None, sv_model = False\<rparr>,
     gw_modbus = zero_modbus, gw_runtime = zero_runtime, gw_line = w, gw_db = d, gw_ua = u\<rparr>"

definition close_store where
  "close_store lib g = (let (s, d) = edge_store_close (lib_sqlite lib) (gw_store g) (gw_db g) in g\<lparr>gw_store := s, gw_db := d\<rparr>)"

definition clear_server where
  "clear_server lib g = (let (sv, u) = edge_server_clear (lib_ua lib) (gw_server g) (gw_ua g) in g\<lparr>gw_server := sv, gw_ua := u\<rparr>)"

definition clear_modbus where
  "clear_modbus lib g = (let (mb, w) = edge_modbus_clear (lib_modbus lib) (gw_modbus g) (gw_line g) in g\<lparr>gw_modbus := mb, gw_line := w\<rparr>)"

section \<open>Start-up and shutdown\<close>

text \<open>\<open>Inl\<close> is the process at an early return with exit code 1, \<open>Inr\<close> the id of the tick callback and the
  process that is ready to run.\<close>

definition main_startup ::
    "('c, 'm, 'h, 's, 'd, 'v, 'u) ProcessLibs \<Rightarrow> MainOptions \<Rightarrow> ('c, 'm, 'h, 'd, 'v, 'u) Gateway \<Rightarrow>
     ('c, 'm, 'h, 'd, 'v, 'u) Gateway + u64 \<times> ('c, 'm, 'h, 'd, 'v, 'u) Gateway" where
  "main_startup pl opts g0 =
     (let lib = pl_edge pl; sapi = lib_sqlite lib; uapi = lib_ua lib;
          (st, m) = edge_config_load (file_content pl (mo_config_path opts)) (gw_model g0); g = g0\<lparr>gw_model := m\<rparr> in
      if st \<noteq> EDGE_STATUS_OK then Inl g else
      let (st, m) = edge_config_wire_runtime (gw_model g); g = g\<lparr>gw_model := m\<rparr> in
      if st \<noteq> EDGE_STATUS_OK then Inl g else
      let (st, s, d) = edge_store_open sapi (gw_store g) (mo_db_path opts) (gw_db g); g = g\<lparr>gw_store := s, gw_db := d\<rparr> in
      if st \<noteq> EDGE_STATUS_OK then Inl g else
      let (st, d) = edge_store_init_schema sapi (gw_store g) (gw_db g); g = g\<lparr>gw_db := d\<rparr> in
      if st \<noteq> EDGE_STATUS_OK then Inl (close_store lib g) else
      let (st, d) = edge_store_persist_model sapi (gw_store g) (gw_model g) (gw_db g); g = g\<lparr>gw_db := d\<rparr> in
      if st \<noteq> EDGE_STATUS_OK then Inl (close_store lib g) else
      let (st, m, d) = edge_store_load_latest_values (lib_cc lib) sapi (gw_store g) (gw_model g) (gw_db g);
          g = g\<lparr>gw_model := m, gw_db := d\<rparr> in
      if st \<noteq> EDGE_STATUS_OK then Inl (close_store lib g) else
      let (st, mb) = edge_modbus_init (Some (mo_modbus_host opts)) (mo_modbus_port opts); g = g\<lparr>gw_modbus := mb\<rparr> in
      if st \<noteq> EDGE_STATUS_OK then Inl (close_store lib g) else
      let (st, sv, u) = edge_server_init uapi (gw_server g) (mo_opcua_port opts) (gw_ua g); g = g\<lparr>gw_server := sv, gw_ua := u\<rparr> in
      if st \<noteq> EDGE_STATUS_OK then Inl (close_store lib g) else
      let (st, u) = edge_address_space_load uapi (gw_server g) (gw_model g) (gw_ua g); g = g\<lparr>gw_ua := u\<rparr> in
      if st \<noteq> EDGE_STATUS_OK then Inl (close_store lib (clear_server lib g)) else
      let (st, rt) = edge_runtime_init (gw_runtime g) True True True True 50; g = g\<lparr>gw_runtime := rt\<rparr> in
      if st \<noteq> EDGE_STATUS_OK then Inl (close_store lib (clear_server lib (clear_modbus lib g))) else
      let (st, callback_id, g) = edge_runtime_register lib (f64_of_int 100) 0 g in
      if st \<noteq> EDGE_STATUS_OK then Inl (close_store lib (clear_server lib (clear_modbus lib g)))
      else Inr (callback_id, g))"

definition main_shutdown ::
    "('c, 'm, 'h, 's, 'd, 'v, 'u) EdgeLibs \<Rightarrow> u64 \<Rightarrow> ('c, 'm, 'h, 'd, 'v, 'u) Gateway \<Rightarrow> ('c, 'm, 'h, 'd, 'v, 'u) Gateway" where
  "main_shutdown lib callback_id g0 =
     (let g = edge_runtime_unregister lib callback_id g0;
          (st, d) = edge_store_persist_latest_values (lib_sqlite lib) (gw_store g) (gw_model g) (gw_db g);
          g = g\<lparr>gw_db := d\<rparr>
      in close_store lib (clear_server lib (clear_modbus lib g)))"

definition main ::
    "('c, 'm, 'h, 's, 'd, 'v, 'u) ProcessLibs \<Rightarrow> string list \<Rightarrow> 'm \<Rightarrow> 'd \<Rightarrow> 'u \<Rightarrow>
     (int \<times> ('c, 'm, 'h, 'd, 'v, 'u) EdgeProcess) option" where
  "main pl argv w d u =
     (let p = \<lparr>pr_gateway = zero_gateway w d u, g_running = 1, pr_handlers = []\<rparr>;
          opts = main_options pl argv;
          (rc, p) = install_signal_handlers pl p in
      if rc \<noteq> 0 then Some (1, p)
      else case main_startup pl opts (pr_gateway p) of
             Inl g \<Rightarrow> Some (1, p\<lparr>pr_gateway := g\<rparr>)
           | Inr (callback_id, g) \<Rightarrow>
               (case edge_server_run pl (p\<lparr>pr_gateway := g\<rparr>) of
                  None \<Rightarrow> None
                | Some (st, p) \<Rightarrow> Some (0, p\<lparr>pr_gateway := main_shutdown (pl_edge pl) callback_id (pr_gateway p)\<rparr>)))"

section \<open>What start-up leaves behind\<close>

text \<open>The calls of a start-up that succeeds.\<close>

lemma main_startup_ok:
  fixes pl :: "('c, 'm, 'h, 's, 'd, 'v, 'u) ProcessLibs" and g0 :: "('c, 'm, 'h, 'd, 'v, 'u) Gateway"
  assumes "main_startup pl opts g0 = Inr (cb, g)"
  obtains m wm s d1 d3 m' d4 mb sv u1 u2 where
    "edge_config_load (file_content pl (mo_config_path opts)) (gw_model g0) = (EDGE_STATUS_OK, m)"
    "edge_config_wire_runtime m = (EDGE_STATUS_OK, wm)"
    "edge_store_open (lib_sqlite (pl_edge pl)) (gw_store g0) (mo_db_path opts) (gw_db g0) = (EDGE_STATUS_OK, s, d1)"
    "edge_store_load_latest_values (lib_cc (pl_edge pl)) (lib_sqlite (pl_edge pl)) s wm d3 = (EDGE_STATUS_OK, m', d4)"
    "edge_modbus_init (Some (mo_modbus_host opts)) (mo_modbus_port opts) = (EDGE_STATUS_OK, mb)"
    "edge_server_init (lib_ua (pl_edge pl)) (gw_server g0) (mo_opcua_port opts) (gw_ua g0) = (EDGE_STATUS_OK, sv, u1)"
    "edge_address_space_load (lib_ua (pl_edge pl)) sv m' u1 = (EDGE_STATUS_OK, u2)"
    "gw_model g = m'" "gw_store g = s" "gw_db g = d4" "gw_modbus g = mb" "gw_server g = sv" "gw_line g = gw_line g0"
    "gw_runtime g = snd (edge_runtime_init (gw_runtime g0) True True True True 50)"
proof -
  have reg: "gw_model g2 = gw_model g1 \<and> gw_store g2 = gw_store g1 \<and> gw_db g2 = gw_db g1 \<and> gw_modbus g2 = gw_modbus g1 \<and>
      gw_server g2 = gw_server g1 \<and> gw_line g2 = gw_line g1 \<and> gw_runtime g2 = gw_runtime g1" if "edge_runtime_register lib x i g1 = (st, j, g2)"
    for lib :: "('c, 'm, 'h, 's, 'd, 'v, 'u) EdgeLibs" and g1 g2 x i j st
    using that by (auto simp: edge_runtime_register_def Let_def split: if_splits prod.splits)
  show ?thesis
    using assms
    by (auto simp: main_startup_def Let_def edge_runtime_init_def split: prod.splits if_splits dest!: reg intro!: that)
qed

text \<open>Whatever the database returns, loading the latest values changes values only, and booleans stay 0 or 1.\<close>

lemma set_from_double_inv:
  "node_config (edge_node_set_from_double cc n x) = node_config n"
  "node_inv n \<Longrightarrow> node_inv (edge_node_set_from_double cc n x)"
  by (auto simp: edge_node_set_from_double_def node_config_def node_inv_def bool_ok_def Let_def
      split: option.splits EdgeDataType.splits)

lemma model_config_update:
  assumes "node_config n = node_config (m_nodes m ! i)"
  shows "model_config (m\<lparr>m_nodes := (m_nodes m)[i := n]\<rparr>) = model_config m"
proof -
  have "map node_config ((m_nodes m)[i := n]) = map node_config (m_nodes m)"
    by (metis assms list_update_beyond list_update_id map_update not_less nth_map)
  then show ?thesis by (simp add: model_config_def)
qed

lemma load_latest_keeps:
  assumes "edge_store_load_latest_values cc api store m d = (st, m', d')"
  shows "model_config m' = model_config m" and "list_all node_inv (m_nodes m) \<Longrightarrow> list_all node_inv (m_nodes m')"
proof -
  obtain pst stmt d1 where p: "prepare api (es_db store) sql_select_latest d = (pst, stmt, d1)" by (metis prod_cases3)
  let ?I = "\<lambda>s. model_config (fst s) = model_config m \<and> (list_all node_inv (m_nodes m) \<longrightarrow> list_all node_inv (m_nodes (fst s)))"
  have "?I (snd (for_upto (length (m_nodes m)) (load_value cc api stmt) (m, d1)))"
  proof (rule for_in_invariant)
    fix i s r s' assume "?I s" and step: "load_value cc api stmt i s = (r, s')"
    obtain m1 d1 where s: "s = (m1, d1)" by fastforce
    have upd: "?I (m1\<lparr>m_nodes := (m_nodes m1)[i := edge_node_set_from_double cc (m_nodes m1 ! i) x]\<rparr>, y)" for x and y :: 'b
      using \<open>?I s\<close> list_all_update_same [of node_inv "m_nodes m1" "\<lambda>n. edge_node_set_from_double cc n x" i]
      by (simp add: s model_config_update set_from_double_inv)
    show "?I s'" using step \<open>?I s\<close> upd by (auto simp: load_value_def s Let_def split: prod.splits if_splits)
  qed simp
  then have "?I (m', d')"
    using assms by (auto simp: edge_store_load_latest_values_def p split: prod.splits option.splits if_splits)
  then show "model_config m' = model_config m" "list_all node_inv (m_nodes m) \<Longrightarrow> list_all node_inv (m_nodes m')" by auto
qed

text \<open>The gateway that start-up hands over.\<close>

lemma startup_gateway:
  assumes "main_startup pl opts (zero_gateway w d u) = Inr (cb, g)"
  obtains content m wm where "file_content pl (mo_config_path opts) = Some content"
    "edge_config_load (Some content) zero_model = (EDGE_STATUS_OK, m)" "edge_config_wire_runtime m = (EDGE_STATUS_OK, wm)"
    "gw_inv (model_config wm) (gw_store g) (gw_server g) g" "sv_ua (gw_server g) \<noteq> None"
    "rt_tick_count (gw_runtime g) = 0" "rt_persist_every_n_ticks (gw_runtime g) = 50"
    "edge_modbus_init (Some (mo_modbus_host opts)) (mo_modbus_port opts) = (EDGE_STATUS_OK, gw_modbus g)"
proof (rule main_startup_ok [OF assms])
  fix m wm s d1 d3 m' d4 mb sv u1 u2
  assume load: "edge_config_load (file_content pl (mo_config_path opts)) (gw_model (zero_gateway w d u)) = (EDGE_STATUS_OK, m)"
    and wire: "edge_config_wire_runtime m = (EDGE_STATUS_OK, wm)"
    and vals: "edge_store_load_latest_values (lib_cc (pl_edge pl)) (lib_sqlite (pl_edge pl)) s wm d3 = (EDGE_STATUS_OK, m', d4)"
    and mb: "edge_modbus_init (Some (mo_modbus_host opts)) (mo_modbus_port opts) = (EDGE_STATUS_OK, mb)"
    and sv: "edge_server_init (lib_ua (pl_edge pl)) (gw_server (zero_gateway w d u)) (mo_opcua_port opts) (gw_ua (zero_gateway w d u)) =
      (EDGE_STATUS_OK, sv, u1)"
    and g: "gw_model g = m'" "gw_modbus g = mb" "gw_server g = sv"
      "gw_runtime g = snd (edge_runtime_init (gw_runtime (zero_gateway w d u)) True True True True 50)"
  obtain content where content: "file_content pl (mo_config_path opts) = Some content"
    using load by (cases "file_content pl (mo_config_path opts)") (simp_all add: edge_config_load_def)
  have load': "edge_config_load (Some content) zero_model = (EDGE_STATUS_OK, m)"
    using load by (simp add: content zero_gateway_def)
  have "list_all at_rest (m_nodes wm)"
    by (rule wired_rest(1) [OF model_fits_zero _ load' wire]) (simp add: zero_model_def)
  then have "list_all node_inv (m_nodes wm)"
    by (auto simp: list.pred_set at_rest_def node_inv_def bool_ok_def)
  moreover have "mb_inv mb" using mb by (auto simp: edge_modbus_init_def mb_inv_def zero_modbus_def modbus_consts split: if_splits)
  ultimately have "gw_inv (model_config wm) (gw_store g) (gw_server g) g"
    using load_latest_keeps [OF vals] by (simp add: gw_inv_def g)
  moreover have "sv_ua (gw_server g) \<noteq> None"
    using sv by (auto simp: g edge_server_init_def Let_def split: prod.splits if_splits)
  moreover have "rt_tick_count (gw_runtime g) = 0" "rt_persist_every_n_ticks (gw_runtime g) = 50"
    by (simp_all add: g edge_runtime_init_def zero_runtime_def)
  ultimately show thesis using that content load' wire mb g(2) by blast
qed

section \<open>A sample start-up\<close>

text \<open>In the database in memory a statement on a configuration table always succeeds.\<close>

definition config_sql :: "string list" where
  "config_sql = [sql_upsert_plant, sql_upsert_asset, sql_upsert_node, sql_upsert_event]"

definition config_stmt :: "latest_table \<Rightarrow> nat \<Rightarrow> mem_db \<Rightarrow> bool" where
  "config_stmt t s d = (dv_latest (md_view d) = t \<and> (\<exists>sql b. dv_stmts (md_view d) s = Some (sql, b) \<and> sql \<in> set config_sql))"

lemma config_sql_other: "sql \<in> set config_sql \<Longrightarrow> sql \<notin> {sql_upsert_latest, sql_insert_history, sql_select_latest}"
  by (auto simp: config_sql_def sql_upsert_plant_def sql_upsert_asset_def sql_upsert_node_def sql_upsert_event_def
      sql_upsert_latest_def sql_insert_history_def sql_select_latest_def)

lemma config_stmt_keeps [simp]:
  assumes "config_stmt t s d"
  shows "config_stmt t s (sqlite3_bind_text mem_api (Some s) i y d)" "config_stmt t s (sqlite3_bind_int mem_api (Some s) i n d)"
    "config_stmt t s (sqlite3_bind_int64 mem_api (Some s) i n d)" "config_stmt t s (sqlite3_bind_double mem_api (Some s) i x d)"
    "config_stmt t s (sqlite3_bind_null mem_api (Some s) i d)" "config_stmt t s (fresh_row mem_api (Some s) d)"
  using assms by (auto simp: config_stmt_def mem_api_def mem_bind_def fresh_row_def set_stmt_def)

lemma config_step:
  "config_stmt t s d \<Longrightarrow> sqlite3_step mem_api (Some s) d = (SQLITE_DONE, d)"
  "config_stmt t s d \<Longrightarrow> dv_latest (md_view (sqlite3_finalize mem_api (Some s) d)) = t"
  using config_sql_other by (fastforce simp: config_stmt_def mem_api_def mem_step_def)+

lemma config_prepare:
  "sql \<in> set config_sql \<Longrightarrow>
     \<exists>s d'. prepare mem_api (Some ()) sql d = (EDGE_STATUS_OK, Some s, d') \<and> config_stmt (dv_latest (md_view d)) s d'"
  by (auto simp: prepare_def mem_api_def config_stmt_def set_stmt_def sqlite_codes)

lemma config_row:
  assumes "config_stmt t s d"
  shows "\<exists>d'. persist_asset mem_api m (Some s) i d = (None, d') \<and> config_stmt t s d'"
    and "fst (make_node_key (m_nodes m ! i) EDGE_STORE_KEY_LEN) = EDGE_STATUS_OK \<Longrightarrow>
      \<exists>d'. persist_node mem_api m (Some s) i d = (None, d') \<and> config_stmt t s d'"
    and "fst (make_event_source_node_key (m_events m ! i) EDGE_STORE_KEY_LEN) = EDGE_STATUS_OK \<Longrightarrow>
      \<exists>d'. persist_event mem_api m (Some s) i d = (None, d') \<and> config_stmt t s d'"
  using assms by (simp_all add: persist_asset_def persist_node_def persist_event_def row_done_def step_done_def
      config_step(1) [where t = t] Let_def case_prod_beta)

lemma config_rows:
  assumes "sql \<in> set config_sql" and "\<And>t s i d. i < n \<Longrightarrow> config_stmt t s d \<Longrightarrow> \<exists>d'. row (Some s) i d = (None, d') \<and> config_stmt t s d'"
  shows "\<exists>d'. persist_rows mem_api \<lparr>es_db = Some ()\<rparr> sql n row d = (EDGE_STATUS_OK, d') \<and> dv_latest (md_view d') = dv_latest (md_view d)"
proof -
  obtain s d1 where p: "prepare mem_api (Some ()) sql d = (EDGE_STATUS_OK, Some s, d1)" "config_stmt (dv_latest (md_view d)) s d1"
    using config_prepare [OF assms(1)] by blast
  have "\<exists>e. for_upto n (row (Some s)) d1 = (None, e) \<and> config_stmt (dv_latest (md_view d)) s e"
    by (rule for_upto_total) (use p(2) assms(2) in auto)
  then show ?thesis by (auto simp: persist_rows_def p(1) config_step(2))
qed

lemma mem_persist_model:
  assumes "\<forall>n \<in> set (m_nodes m). fst (make_node_key n EDGE_STORE_KEY_LEN) = EDGE_STATUS_OK"
    and "\<forall>e \<in> set (m_events m). fst (make_event_source_node_key e EDGE_STORE_KEY_LEN) = EDGE_STATUS_OK"
  shows "\<exists>d'. edge_store_persist_model mem_api \<lparr>es_db = Some ()\<rparr> m d = (EDGE_STATUS_OK, d') \<and> dv_latest (md_view d') = dv_latest (md_view d)"
proof -
  let ?st = "\<lparr>es_db = Some ()\<rparr>"
  have sql: "sql_upsert_plant \<in> set config_sql" "sql_upsert_asset \<in> set config_sql" "sql_upsert_node \<in> set config_sql"
    "sql_upsert_event \<in> set config_sql" by (simp_all add: config_sql_def)
  have ok: "exec_sql mem_api ?st q d = (EDGE_STATUS_OK, mem_exec q d)" for q d
    by (simp add: exec_sql_def mem_api_def sqlite_codes)
  have x: "dv_latest (md_view (mem_exec sql_begin d)) = dv_latest (md_view d)" "mem_exec sql_commit d = d" for d
    using sql_distinct by (simp_all add: mem_exec_def)
  have plant: "\<exists>d'. persist_plant mem_api ?st m d = (EDGE_STATUS_OK, d') \<and> dv_latest (md_view d') = dv_latest (md_view d)" for d
    using config_prepare [OF sql(1), of d] by (auto simp: persist_plant_def step_done_def config_step [where t = "dv_latest (md_view d)"])
  have rows: "\<exists>d'. persist_assets mem_api ?st m d = (EDGE_STATUS_OK, d') \<and> dv_latest (md_view d') = dv_latest (md_view d)"
    "\<exists>d'. persist_nodes mem_api ?st m d = (EDGE_STATUS_OK, d') \<and> dv_latest (md_view d') = dv_latest (md_view d)"
    "\<exists>d'. persist_events mem_api ?st m d = (EDGE_STATUS_OK, d') \<and> dv_latest (md_view d') = dv_latest (md_view d)" for d
    unfolding persist_assets_def persist_nodes_def persist_events_def
    by (intro config_rows sql config_row; use assms in simp)+
  obtain d1 where d1: "persist_plant mem_api ?st m (mem_exec sql_begin d) = (EDGE_STATUS_OK, d1)" "dv_latest (md_view d1) = dv_latest (md_view d)"
    using plant [of "mem_exec sql_begin d"] x by auto
  obtain d2 where d2: "persist_assets mem_api ?st m d1 = (EDGE_STATUS_OK, d2)" "dv_latest (md_view d2) = dv_latest (md_view d)"
    using rows(1) [of d1] d1 by auto
  obtain d3 where d3: "persist_nodes mem_api ?st m d2 = (EDGE_STATUS_OK, d3)" "dv_latest (md_view d3) = dv_latest (md_view d)"
    using rows(2) [of d2] d2 by auto
  obtain d4 where d4: "persist_events mem_api ?st m d3 = (EDGE_STATUS_OK, d4)" "dv_latest (md_view d4) = dv_latest (md_view d)"
    using rows(3) [of d3] d3 by auto
  show ?thesis using d4(2) by (simp add: edge_store_persist_model_def status_seq_def ok x d1(1) d2(1) d3(1) d4(1))
qed

text \<open>Whether the address space can be built depends on the configuration alone.\<close>

lemma config_space_ready:
  assumes "model_config m' = model_config m" and "space_ready m"
  shows "space_ready m'" and "map node_key (m_nodes m') = map node_key (m_nodes m)"
proof -
  have rest: "m_id m' = m_id m" "m_assets m' = m_assets m" and ns: "map node_config (m_nodes m') = map node_config (m_nodes m)"
    using assms(1) by (cases m; cases m'; simp add: model_config_def)+
  have pick: "\<exists>n \<in> set (m_nodes m). node_config n' = node_config n" if "n' \<in> set (m_nodes m')" for n'
    using ns that by (metis (no_types, lifting) image_iff list.set_map)
  have "n_id n' \<in> n_id ` set (m_nodes m) \<and> (\<exists>n \<in> set (m_nodes m). n_id n' = n_id n \<and> n_asset n' = n_asset n \<and> n_asset_id n' = n_asset_id n)"
    if n': "n' \<in> set (m_nodes m')" for n'
  proof -
    obtain n where n: "n \<in> set (m_nodes m)" "node_config n' = node_config n" using pick [OF n'] by blast
    have "n_asset n' = n_asset n" using n(2) by (cases n; cases n') (simp add: node_config_def)
    with config_fields(5,6) [OF n(2)] n(1) show ?thesis by blast
  qed
  note n = this
  have "nodeids_fit m'" using assms(2) n unfolding space_ready_def nodeids_fit_def rest by fastforce
  moreover have "pointers_ok m'" using assms(2) n unfolding space_ready_def pointers_ok_def rest by metis
  moreover have "a_id (node_asset m' n') = n_asset_id n'" if "n' \<in> set (m_nodes m')" for n'
    using assms(2) n [OF that] unfolding space_ready_def node_asset_def rest by metis
  ultimately show "space_ready m'" using assms(2) by (simp add: space_ready_def rest)
  show "map node_key (m_nodes m') = map node_key (m_nodes m)" by (rule config_keys(1) [OF ns])
qed

lemma mem_space_load:
  assumes "space_ready m" and "distinct (map node_key (m_nodes m))"
  shows "fst (edge_address_space_load mem_ua mem_server_on m mem_fresh) = EDGE_STATUS_OK"
proof -
  have s: "UaNumeric 85 \<in> dom (ms_space mem_fresh)" "\<forall>t. UaString 2 t \<notin> dom (ms_space mem_fresh)"
    "sv_ua mem_server_on = Some ()" by (simp_all add: mem_fresh_def mem_server_on_def)
  have "nodeids_fit m" "pointers_ok m" using assms(1) by (simp_all add: space_ready_def)
  from space_load [OF mem_ua_space_laws s(3) this, of mem_fresh] entries_buildable [OF assms(1) s(1,2)] assms(2)
  show ?thesis by auto
qed

lemma sample_loads:
  "edge_config_load (Some (unlines sample_lines)) zero_model = (EDGE_STATUS_OK, resolved sample_parsed)"
  "edge_config_wire_runtime (resolved sample_parsed) = (EDGE_STATUS_OK, wired (resolved sample_parsed))"
proof -
  show l: "edge_config_load (Some (unlines sample_lines)) zero_model = (EDGE_STATUS_OK, resolved sample_parsed)"
    using load_cases(3) [OF model_fits_zero sample_parses] sample_valid by (simp add: valid_template_def)
  have "within_limits (resolved sample_parsed)"
    using load_fits [OF model_fits_zero, of "Some (unlines sample_lines)"] l by (auto intro: model_fits_limits)
  then show "edge_config_wire_runtime (resolved sample_parsed) = (EDGE_STATUS_OK, wired (resolved sample_parsed))"
    by (intro wire_runtime_wired refs_resolved_wirable load_sound_refs [OF model_fits_zero l])
qed

lemma mem_init_schema:
  "\<exists>d'. edge_store_init_schema mem_api \<lparr>es_db = Some ()\<rparr> d = (EDGE_STATUS_OK, d') \<and> dv_latest (md_view d') = dv_latest (md_view d)"
proof -
  have q: "sql_get_version \<notin> {sql_upsert_latest, sql_insert_history, sql_select_latest}"
    by (simp add: sql_get_version_def sql_upsert_latest_def sql_insert_history_def sql_select_latest_def)
  have x: "dv_latest (md_view (mem_exec sql e)) = dv_latest (md_view e)" if "take 1 sql \<noteq> ''R''" for sql e
    using that by (auto simp: mem_exec_def sql_rollback_def)
  have "take 1 schema_sql \<noteq> ''R''" by (simp add: schema_sql_def)
  moreover have "take 1 (snd (snprintf 64 (''PRAGMA user_version = '' @ t))) \<noteq> ''R''" for t
    by (simp add: snprintf_def)
  ultimately show ?thesis using q x
    by (simp add: edge_store_init_schema_def exec_sql_def mem_api_def mem_step_def set_stmt_def sqlite_codes
        edge_store_schema_version_def Let_def case_prod_beta)
qed

lemma sample_startup:
  assumes host: "length (mo_modbus_host opts) < EDGE_MODBUS_HOST_LEN"
  shows "\<exists>g. main_startup ((sample_process_libs n)\<lparr>getenv := env\<rparr>) opts (zero_gateway sim_start mem_empty mem_fresh) = Inr (7, g) \<and>
     gw_store g = \<lparr>es_db = Some ()\<rparr> \<and> map node_key (m_nodes (gw_model g)) = [''node:b.t''] \<and>
     list_all storable (m_nodes (gw_model g))"
proof -
  let ?pl = "sample_process_libs n" and ?w = "wired (resolved sample_parsed)" and ?st = "\<lparr>es_db = Some ()\<rparr>"
  have lib: "pl_edge ?pl = sample_libs" "lib_sqlite sample_libs = mem_api" "lib_ua sample_libs = mem_ua"
    "file_content ?pl f = Some (unlines sample_lines)" for f
    by (simp_all add: sample_process_libs_def sample_libs_def)
  have ids: "node_ids_fit (m_nodes ?w)" "map node_key (m_nodes ?w) = [''node:b.t'']"
    by (simp_all add: wired_def resolved_def sample_parsed_def node_ids_fit_def fits_def edge_limits node_key_def wired_node_def)
  obtain d2 where d2: "edge_store_init_schema mem_api ?st mem_empty = (EDGE_STATUS_OK, d2)" "dv_latest (md_view d2) = Map.empty"
    using mem_init_schema [of mem_empty] by (auto simp: mem_empty_def)
  have "\<forall>n \<in> set (m_nodes ?w). fst (make_node_key n EDGE_STORE_KEY_LEN) = EDGE_STATUS_OK"
    "\<forall>e \<in> set (m_events ?w). fst (make_event_source_node_key e EDGE_STORE_KEY_LEN) = EDGE_STATUS_OK"
    by (simp_all add: wired_def resolved_def sample_parsed_def wired_node_def make_node_key_def make_event_source_node_key_def
          make_key_def snprintf_def EDGE_STORE_KEY_LEN_def wired_event_def resolved_event_def)
  from mem_persist_model [OF this, of d2] d2(2) obtain d3 where d3: "edge_store_persist_model mem_api ?st ?w d2 = (EDGE_STATUS_OK, d3)"
    "dv_latest (md_view d3) = Map.empty" by auto
  obtain d4 where m4: "edge_store_load_latest_values (lib_cc sample_libs) mem_api ?st ?w d3 =
      (EDGE_STATUS_OK, ?w\<lparr>m_nodes := map (restore (lib_cc sample_libs) Map.empty) (m_nodes ?w)\<rparr>, d4)"
    using load_values_ok [OF mem_laws refl ids(1), of "lib_cc sample_libs" d3] unfolding d3(2) by blast
  define m' where "m' = ?w\<lparr>m_nodes := map (restore (lib_cc sample_libs) Map.empty) (m_nodes ?w)\<rparr>"
  note m' = m4 [folded m'_def]
  have "f64_isnan 0 = False" by code_simp
  then have sto: "list_all storable (m_nodes m')"
    by (simp add: m'_def wired_def resolved_def sample_parsed_def restore_def wired_node_def resolved_node_def edge_node_as_double_def
        zero_node_def union_get_def)
  have ready: "space_ready m'" and keys: "map node_key (m_nodes m') = [''node:b.t'']"
    using config_space_ready [OF load_latest_keeps(1) [OF m'] wired_space_ready [OF model_fits_zero sample_loads]] ids(2) by auto
  obtain u2 where u2: "edge_address_space_load mem_ua mem_server_on m' mem_fresh = (EDGE_STATUS_OK, u2)"
    using mem_space_load [OF ready] keys by (metis distinct_singleton prod.collapse)
  obtain mb where mb: "edge_modbus_init (Some (mo_modbus_host opts)) (mo_modbus_port opts) = (EDGE_STATUS_OK, mb :: unit EdgeModbus)"
    using host that [of "snd (edge_modbus_init (Some (mo_modbus_host opts)) (mo_modbus_port opts))"]
    by (simp add: edge_modbus_init_def split: if_splits)
  have op: "edge_store_open mem_api \<lparr>es_db = None\<rparr> f mem_empty = (EDGE_STATUS_OK, ?st, mem_empty)" for f
    by (simp add: edge_store_open_def mem_api_def sqlite_codes)
  have sv: "edge_server_init mem_ua \<lparr>sv_ua = None, sv_model = False\<rparr> port mem_fresh = (EDGE_STATUS_OK, mem_server_on, mem_fresh)" for port
    by (simp add: edge_server_init_def mem_ua_def mem_server_on_def UA_STATUSCODE_GOOD_def)
  have "UA_Server_addRepeatedCallback mem_ua v x u = (0, 7, u)" for v x u by (simp add: mem_ua_def)
  then show ?thesis
    using keys sto
    by (simp add: main_startup_def lib zero_gateway_def sample_loads op d2(1) d3(1) m' mb sv u2 [unfolded mem_server_on_def] edge_runtime_init_def
        edge_runtime_register_def zero_runtime_def mem_server_on_def UA_STATUSCODE_GOOD_def)
qed

lemma sample_starts:
  "\<exists>g. main_startup (sample_process_libs n) (main_options (sample_process_libs n) []) (zero_gateway sim_start mem_empty mem_fresh) = Inr (7, g) \<and>
     gw_store g = \<lparr>es_db = Some ()\<rparr> \<and> map node_key (m_nodes (gw_model g)) = [''node:b.t''] \<and>
     list_all storable (m_nodes (gw_model g))"
proof -
  have pl: "(sample_process_libs n)\<lparr>getenv := \<lambda>k. None\<rparr> = sample_process_libs n" by (simp add: sample_process_libs_def)
  have "length (mo_modbus_host (main_options (sample_process_libs n) [])) < EDGE_MODBUS_HOST_LEN"
    by (simp add: main_options_def sample_process_libs_def modbus_consts)
  from sample_startup [OF this, where n = n and env = "\<lambda>k. None"] show ?thesis unfolding pl .
qed

section \<open>Claims on the whole program\<close>

text \<open>C3: the whole program, from the template to the running gateway: when start-up succeeds, a template
  was read that loads and wires, and in every later state of the process, after any ticks, client
  writes, signals and library behaviour, the configuration is that of the wired template, every boolean
  is 0 or 1, only writable nodes wait for write-back, the Modbus client is connected exactly when it
  holds a context, and the store and the server handle are those that start-up opened, the server being
  there.\<close>

theorem main_running_invariant:
  assumes "main_startup pl opts (zero_gateway w d u) = Inr (cb, pr_gateway p)" and "(process_step (pl_edge pl))\<^sup>*\<^sup>* p q"
  shows "(\<exists>content m wm. file_content pl (mo_config_path opts) = Some content \<and>
      edge_config_load (Some content) zero_model = (EDGE_STATUS_OK, m) \<and> edge_config_wire_runtime m = (EDGE_STATUS_OK, wm) \<and>
      model_config (gw_model (pr_gateway q)) = model_config wm) \<and>
    (\<forall>n \<in> set (m_nodes (gw_model (pr_gateway q))). bool_ok n \<and> (n_pending_write n \<longrightarrow> n_writable n)) \<and>
    (mb_connected (gw_modbus (pr_gateway q)) \<longleftrightarrow> mb_ctx (gw_modbus (pr_gateway q)) \<noteq> None) \<and>
    gw_store (pr_gateway q) = gw_store (pr_gateway p) \<and> gw_server (pr_gateway q) = gw_server (pr_gateway p) \<and>
    sv_ua (gw_server (pr_gateway q)) \<noteq> None"
proof (rule startup_gateway [OF assms(1)])
  fix content m wm
  assume t: "file_content pl (mo_config_path opts) = Some content"
    "edge_config_load (Some content) zero_model = (EDGE_STATUS_OK, m)" "edge_config_wire_runtime m = (EDGE_STATUS_OK, wm)"
    and inv: "gw_inv (model_config wm) (gw_store (pr_gateway p)) (gw_server (pr_gateway p)) (pr_gateway p)"
    and sv: "sv_ua (gw_server (pr_gateway p)) \<noteq> None"
  have "gw_inv (model_config wm) (gw_store (pr_gateway p)) (gw_server (pr_gateway p)) (pr_gateway q)"
    by (rule process_keeps [where I = "gw_inv (model_config wm) (gw_store (pr_gateway p)) (gw_server (pr_gateway p))", OF _ assms(2) inv])
       (rule gwsys.step_inv)
  with t sv show ?thesis by (auto simp: gw_inv_def mb_inv_def list.pred_set node_inv_def)
qed

theorem main_running_invariant_witness:
  "\<exists>g. main_startup (sample_process_libs 9) (main_options (sample_process_libs 9) []) (zero_gateway sim_start mem_empty mem_fresh) = Inr (7, g) \<and>
     model_config (gw_model (pr_gateway (read_point (sample_process_libs 9) 5
       \<lparr>pr_gateway = g, g_running = 1, pr_handlers = [SIGINT, SIGTERM]\<rparr>))) = model_config (wired (resolved sample_parsed))"
proof -
  let ?pl = "sample_process_libs 9"
  obtain g where g: "main_startup ?pl (main_options ?pl []) (zero_gateway sim_start mem_empty mem_fresh) = Inr (7, g)"
    using sample_starts by blast
  let ?p = "\<lparr>pr_gateway = g, g_running = 1, pr_handlers = [SIGINT, SIGTERM]\<rparr>"
  have g': "main_startup ?pl (main_options ?pl []) (zero_gateway sim_start mem_empty mem_fresh) = Inr (7, pr_gateway ?p)"
    using g by simp
  have f: "file_content ?pl (mo_config_path (main_options ?pl [])) = Some (unlines sample_lines)" by (simp add: sample_process_libs_def)
  have "model_config (gw_model (pr_gateway (read_point ?pl 5 ?p))) = model_config (wired (resolved sample_parsed))"
    using main_running_invariant [OF g' read_point_reach [OF sample_process_laws], of 5] sample_loads unfolding f by auto
  with g show ?thesis by blast
qed

section \<open>The end of a run\<close>

lemma set_ua_step: "(process_step lib)\<^sup>*\<^sup>* p (set_ua u p)"
proof -
  have "gateway_step lib (pr_gateway p) ((pr_gateway p)\<lparr>gw_line := gw_line (pr_gateway p), gw_db := gw_db (pr_gateway p), gw_ua := u\<rparr>)"
    by (rule gs_world)
  from ps_gateway [OF this] show ?thesis by (auto simp: set_ua_def)
qed

lemma server_run_reach:
  assumes "process_laws pl" and "edge_server_run pl p = Some (st, q)"
  shows "(process_step (pl_edge pl))\<^sup>*\<^sup>* p q"
proof -
  obtain status u where "UA_Server_run_startup (lib_ua (pl_edge pl)) (sv_ua (gw_server (pr_gateway p))) (gw_ua (pr_gateway p)) = (status, u)"
    by fastforce
  with assms(2) consider "q = set_ua u p" | k u' where "q = set_ua u' (read_point pl k (set_ua u p))"
    by (auto simp: edge_server_run_def server_loop_exact Let_def split: if_splits)
  then show ?thesis
  proof cases
    case 1
    then show ?thesis by (simp add: set_ua_step)
  next
    case (2 k u')
    show ?thesis unfolding 2
      by (rule rtranclp_trans [OF rtranclp_trans [OF set_ua_step read_point_reach [OF assms(1)]] set_ua_step])
  qed
qed

lemma main_shutdown_fields:
  assumes "g' = main_shutdown lib cb g"
  shows "gw_model g' = gw_model g" "gw_store g' = \<lparr>es_db = None\<rparr>" "gw_server g' = \<lparr>sv_ua = None, sv_model = False\<rparr>"
    "gw_modbus g' = zero_modbus"
    "es_db (gw_store g) = Some h \<Longrightarrow> gw_db g' = sqlite3_close (lib_sqlite lib) (Some h)
       (snd (edge_store_persist_latest_values (lib_sqlite lib) (gw_store g) (gw_model g) (gw_db g)))"
  by (simp_all add: assms main_shutdown_def edge_runtime_unregister_def close_store_def clear_server_def clear_modbus_def
      edge_store_close_def edge_server_clear_def edge_modbus_clear_def Let_def case_prod_beta)

lemma wired_ids_fit:
  assumes "edge_config_load (Some content) zero_model = (EDGE_STATUS_OK, m)" and "edge_config_wire_runtime m = (EDGE_STATUS_OK, wm)"
  shows "node_ids_fit (m_nodes wm)"
proof -
  have "model_fits m" using load_fits [OF model_fits_zero, of "Some content"] assms(1) by simp
  moreover have "wm = wired m"
    by (rule wired_rest(2) [OF model_fits_zero _ assms]) (simp add: zero_model_def)
  ultimately show ?thesis
    by (simp add: wired_def model_fits_def node_ids_fit_def list.pred_set node_fits_def wired_node_def)
qed

text \<open>How \<open>main\<close> can end.\<close>

definition started :: "('c, 'm, 'h, 'd, 'v, 'u) Gateway \<Rightarrow> ('c, 'm, 'h, 'd, 'v, 'u) EdgeProcess" where
  "started g = \<lparr>pr_gateway = g, g_running = 1, pr_handlers = [SIGINT, SIGTERM]\<rparr>"

lemma main_cases:
  "main pl argv w d u =
    (if sigaction pl SIGINT \<noteq> 0 \<or> sigaction pl SIGTERM \<noteq> 0
     then Some (1, snd (install_signal_handlers pl \<lparr>pr_gateway = zero_gateway w d u, g_running = 1, pr_handlers = []\<rparr>))
     else case main_startup pl (main_options pl argv) (zero_gateway w d u) of
       Inl g \<Rightarrow> Some (1, started g)
     | Inr (cb, g) \<Rightarrow> map_option (\<lambda>(st, p). (0, p\<lparr>pr_gateway := main_shutdown (pl_edge pl) cb (pr_gateway p)\<rparr>))
         (edge_server_run pl (started g)))"
  by (auto simp: main_def install_signal_handlers_def started_def Let_def split: sum.split prod.split option.split)

lemma main_zero:
  assumes "main pl argv w d u = Some (0, p)"
  obtains cb g st q where "main_startup pl (main_options pl argv) (zero_gateway w d u) = Inr (cb, g)"
    "edge_server_run pl (started g) = Some (st, q)" "p = q\<lparr>pr_gateway := main_shutdown (pl_edge pl) cb (pr_gateway q)\<rparr>"
  using assms unfolding main_cases by (auto split: if_splits sum.splits prod.splits)


text \<open>A start-up that fails leaves no server and no line, and no database unless opening it failed.\<close>

lemma cleanup_fields:
  "gw_store (close_store lib g) = \<lparr>es_db = None\<rparr>" "gw_server (close_store lib g) = gw_server g" "gw_modbus (close_store lib g) = gw_modbus g"
  "gw_store (clear_server lib g) = gw_store g" "gw_server (clear_server lib g) = \<lparr>sv_ua = None, sv_model = False\<rparr>"
  "gw_modbus (clear_server lib g) = gw_modbus g"
  "gw_modbus (clear_modbus lib g) = zero_modbus"
  by (simp_all add: close_store_def clear_server_def clear_modbus_def edge_store_close_def edge_server_clear_def edge_modbus_clear_def
      Let_def case_prod_beta)

lemma startup_failed:
  fixes pl :: "('c, 'm, 'h, 's, 'd, 'v, 'u) ProcessLibs"
  assumes "main_startup pl opts (zero_gateway w d u) = Inl g"
  shows "sv_ua (gw_server g) = None \<and> mb_ctx (gw_modbus g) = None \<and>
    (es_db (gw_store g) \<noteq> None \<longrightarrow>
       fst (edge_store_open (lib_sqlite (pl_edge pl)) \<lparr>es_db = None\<rparr> (mo_db_path opts) d) \<noteq> EDGE_STATUS_OK)"
proof -
  have sv: "st = EDGE_STATUS_OK \<or> sv_ua sv = None" if "edge_server_init api s port x = (st, sv, y)"
    for api :: "('v, 'u) ua_api" and s port x st sv y
    using that by (auto simp: edge_server_init_def Let_def split: prod.splits if_splits)
  have mb: "mb_ctx mb = None" if "edge_modbus_init host port = (st, mb)" for host port st and mb :: "'c EdgeModbus"
    using that by (auto simp: edge_modbus_init_def zero_modbus_def split: option.splits if_splits)
  show ?thesis
    using assms
    by (auto simp: main_startup_def zero_gateway_def cleanup_fields Let_def zero_modbus_def dest: sv mb
        split: prod.splits if_splits)
qed

definition startup_of where
  "startup_of pl argv w d u = main_startup pl (main_options pl argv) (zero_gateway w d u)"

definition handlers_installed where
  "handlers_installed pl = (sigaction pl SIGINT = 0 \<and> sigaction pl SIGTERM = 0)"

lemma installed_gateway: "pr_gateway (snd (install_signal_handlers pl p)) = pr_gateway p"
  by (simp add: install_signal_handlers_def Let_def)


lemma sample_main:
  "\<exists>p. main (sample_process_libs 0) [] sim_start mem_empty mem_fresh = Some (0, p) \<and>
     map node_key (m_nodes (gw_model (pr_gateway p))) = [''node:b.t''] \<and> list_all storable (m_nodes (gw_model (pr_gateway p)))"
proof -
  let ?pl = "sample_process_libs 0"
  obtain g where g: "main_startup ?pl (main_options ?pl []) (zero_gateway sim_start mem_empty mem_fresh) = Inr (7, g)"
    "map node_key (m_nodes (gw_model g)) = [''node:b.t'']" "list_all storable (m_nodes (gw_model g))"
    using sample_starts [of 0] by (elim exE conjE) (rule that)
  have r0: "read_point ?pl 0 (started g) = (started g)\<lparr>g_running := 0\<rparr>"
    by (simp add: sample_process_libs_def started_def handle_signal_def)
  then have "server_loop ?pl (started g) = Some ((started g)\<lparr>g_running := 0\<rparr>)"
    using server_loop_ends [of 0 ?pl "started g"] by simp
  moreover have api: "UA_Server_run_startup (lib_ua (pl_edge ?pl)) v x = (UA_STATUSCODE_GOOD, x)"
    "UA_Server_run_shutdown (lib_ua (pl_edge ?pl)) v x = x" for v x
    by (simp_all add: sample_process_libs_def sample_libs_def mem_ua_def UA_STATUSCODE_GOOD_def)
  have same: "set_ua (gw_ua (pr_gateway p)) p = p" for p :: "(unit, sim_line, unit, mem_db, unit, mem_server) EdgeProcess"
    by (simp add: set_ua_def)
  ultimately have "edge_server_run ?pl (started g) = Some (EDGE_STATUS_OK, (started g)\<lparr>g_running := 0\<rparr>)"
    unfolding edge_server_run_def Let_def api prod.case same by simp
  moreover have "sigaction ?pl s = 0" for s by (simp add: sample_process_libs_def)
  ultimately have "main ?pl [] sim_start mem_empty mem_fresh =
      Some (0, (started g)\<lparr>g_running := 0, pr_gateway := main_shutdown (pl_edge ?pl) 7 g\<rparr>)"
    by (simp add: main_cases g(1)) (simp add: started_def)
  with g(2,3) show ?thesis by (simp add: main_shutdown_fields(1) [OF refl])
qed


section \<open>Ports from the environment\<close>

lemma strtol_text:
  assumes "\<not> isspace c" and "\<not> is_digit c" and "c \<noteq> CHR ''+''" and "c \<noteq> CHR ''-''"
  shows "fst (strtol (c # s)) = 0"
  using assms by (simp add: strtol_def Let_def)

lemma main_ports:
  "mo_modbus_port (main_options pl argv) = env_port (\<lambda>parsed. parsed \<ge> 0) (env_text pl ''EDGE_MODBUS_PORT'') 1502"
  "mo_opcua_port (main_options pl argv) = env_port (\<lambda>parsed. parsed > 0) (env_text pl ''EDGE_OPCUA_PORT'') 4840"
  "mo_modbus_host (main_options pl argv) = (case getenv pl ''EDGE_MODBUS_HOST'' of Some t \<Rightarrow> t | None \<Rightarrow> ''127.0.0.1'')"
  by (simp_all add: main_options_def Let_def)



end
