(* ===== verification/Spec2Isabelle.thy ===== *)
theory Spec2Isabelle
  imports Edge_Main
begin

text \<open>
  A verification library for \<open>opcua-edge\<close>, an OPC UA edge gateway in C: it loads a plant template, serves
  it as an OPC UA address space, polls the values of its nodes from Modbus devices, writes client
  commands back to them, reports threshold events, and keeps the latest values in SQLite.  All file
  names below are relative to the repository.

  \<^bold>\<open>The program and the theories.\<close>  A process (\<open>src/main.c\<close>) reads its options, loads and wires the template
  (\<open>src/edge_config.c\<close>), opens the store (\<open>src/edge_store.c\<close>), restores the latest values, creates the
  server (\<open>src/edge_server.c\<close>) and its address space (\<open>src/edge_address_space.c\<close>), registers the periodic tick
  (\<open>src/edge_runtime.c\<close>) and then iterates the server until a signal clears its flag.  Each iteration runs
  callbacks: a read or write of a client on a node, or the tick, which drains pending commands to
  Modbus (\<open>src/edge_modbus.c\<close>), polls, evaluates the events (\<open>src/edge_events.c\<close>) and stores the values on
  every fiftieth call.

  \<^item> \<open>Edge_Prelude\<close>: word widths, the loop combinator \<open>for_in\<close> with its early return and its invariant rules,
    and the locale \<open>invariant_system\<close> for step relations.
  \<^item> \<open>C_Float64\<close>, \<open>C_Stdlib\<close>: the C language and library that the sources use: binary64 on the bit level with
    correct rounding, strings, \<open>fgets\<close>, \<open>strtol\<close>, \<open>strtoul\<close>, \<open>strtod\<close>, \<open>snprintf\<close>.  What C leaves undefined,
    a conversion of a double out of the range of its target, is a parameter \<open>c_impl\<close>.
  \<^item> \<open>Edge_Types\<close>: \<open>include/edge_types.h\<close>, \<open>include/edge_limits.h\<close> and \<open>include/edge_value.h\<close>.
  \<^item> \<open>Edge_Config_Parse\<close>, \<open>Edge_Config_Resolve\<close>, \<open>Edge_Config_Load\<close>: \<open>src/edge_config.c\<close>, from the bytes of the
    template to the wired model.
  \<^item> \<open>Edge_Registers\<close>, \<open>Edge_Modbus\<close>, \<open>Edge_Modbus_Line\<close>: \<open>src/edge_modbus.c\<close>: the register codec (locale
    \<open>register_codec\<close>, interpreted on the two functions of the source), the client with its back-off, and
    what it does over a line that answers.
  \<^item> \<open>Edge_Store\<close>, \<open>Edge_Store_Values\<close>: \<open>src/edge_store.c\<close> and \<open>src/edge_time.c\<close>: every function with its SQL
    texts, and what the latest values guarantee (locale \<open>value_store\<close>, interpreted on saving and loading).
  \<^item> \<open>Edge_Server\<close>, \<open>Edge_Address_Space\<close>, \<open>Edge_Events\<close>: \<open>src/edge_server.c\<close> without its loop,
    \<open>src/edge_address_space.c\<close>, \<open>src/edge_events.c\<close>.
  \<^item> \<open>Edge_Runtime\<close>, \<open>Edge_Gateway\<close>, \<open>Edge_Tick\<close>, \<open>Edge_Delivery\<close>, \<open>Edge_Persistence\<close>: \<open>src/edge_runtime.c\<close>, and the
    gateway it drives: all histories of ticks and client writes as a step relation with its invariant,
    the tick as a refinement of \<open>spec_tick\<close> on the process image, the delivery and the loss of
    commands, and the age of the stored values.
  \<^item> \<open>Edge_Process\<close>, \<open>Edge_Main\<close>: the loop of \<open>src/edge_server.c\<close>, the signal handler, and \<open>src/main.c\<close>.

  \<^bold>\<open>How code becomes definitions.\<close>  A function of the source is a definition of the same name that takes the objects
  it changes and returns them with its result; an \<open>EdgeStatus\<close> is its enumerator.  A fixed array with its
  count is a list, a pointer into an array an index, a union its bytes.  A loop over an array is
  \<open>for_upto\<close> with its body as a definition of its own (\<open>poll_node\<close>, \<open>persist_value\<close>, \<open>evaluate_event\<close>, ...); an early
  return is \<open>Some\<close> of what is returned.  Integers keep their width, so that counters and index fields
  wrap as in C.  Functions of the gateway are only called with pointers to existing objects, so
  null checks on those arguments are left out, except where the code passes null itself
  (\<open>server\<close> and \<open>stats\<close> of the event pass, the node context of a callback).

  \<^bold>\<open>Libraries.\<close>  libmodbus, SQLite, open62541, the clock and the operating system are parameters: records of functions
  (\<open>modbus_api\<close>, \<open>sqlite_api\<close>, \<open>ua_api\<close>, \<open>ProcessLibs\<close>) on a state of everything behind them.  Safety theorems hold for
  every such record.  Theorems on what the program achieves name what they ask: \<open>answering_line\<close> and \<open>line_down\<close>
  for a Modbus line, \<open>sqlite_laws\<close> for a database, \<open>ua_space_laws\<close> and \<open>ua_event_laws\<close> for a server, \<open>process_laws\<close> for
  what an iteration and a signal may do.  Instances in memory (\<open>sim_api\<close>, \<open>mem_api\<close>, \<open>mem_ua\<close>, \<open>sample_process_libs\<close>)
  satisfy all of them, and the witnesses run the model on them.

  \<^bold>\<open>What is shown.\<close>
  \<^item> Template: exactly which files load and what they load to, that no content overruns a buffer, that every
    index and pointer of a loaded model is right, over-long lines, the numbers that fields accept.
  \<^item> Modbus: round trips between values and registers, polls and writes over an answering line, the connection
    invariant and the back-off over any history, what a failed poll leaves.
  \<^item> Store: values survive any number of restarts, a save is atomic, when row keys identify nodes, the schema check.
  \<^item> Address space: exactly the objects and variables of the template, typed reads and writes.
  \<^item> Events: one history row and one notification for every rising edge of a condition; what failures leave.
  \<^item> Gateway: a tick refines its specification; acknowledged commands arrive with the next tick, or are lost when the
    device is unreachable; stored values are less than a period old; the invariant of every history.
  \<^item> Process: the loop ends exactly on a stop request, how \<open>main\<close> ends and what it leaves open, that a clean exit
    saves the values, and that the invariant holds from start-up on for every template.

  \<^bold>\<open>Loops and bounds.\<close>  Every recursion has a measure (the line loop: the unread bytes; the parent chain: the hop counter
  of the source) except the server loop, which need not end: it is a \<open>partial_function\<close> into \<open>option\<close>, and
  \<open>server_run_exact\<close> says when it returns.  There is no fuel.

  \<^bold>\<open>Not modelled.\<close>  The messages on the standard streams; the benchmark program (\<open>benchmarks/\<close>, \<open>include/edge_benchmark.h\<close>),
  which is a separate executable that measures time on the host; tests, tools, scripts, packaging and the template itself.  Client requests that
  open62541 answers without calling back (browsing, subscriptions, access checks) are behind its interface.
\<close>

end
